theory Spec2Isabelle
  imports Complex_Main "HOL-Library.Word" "HOL-Library.Log_Nat"
begin

unbundle bit_operations_syntax

section \<open>Vertex fetch translation of the SPIR-V shader translator\<close>

text \<open>
  This theory embeds \<^verbatim>\<open>SpirvShaderTranslator::ProcessVertexFetchInstruction\<close>
  (\<^verbatim>\<open>spirv_shader_translator_fetch.cc\<close>) and the \<^verbatim>\<open>DescriptorSet\<close> enumeration
  (\<^verbatim>\<open>spirv_shader_translator.h\<close>).

  The translator is a code generator: every \<^verbatim>\<open>builder_->create...\<close> call emits one
  SPIR-V instruction and returns the \<^verbatim>\<open>spv::Id\<close> of its result. An \<^verbatim>\<open>spv::Id\<close> is
  modelled by the term of the instruction that defines it, so the value handed to
  \<^verbatim>\<open>StoreResult\<close> is the whole data-flow graph the call emitted. The calls to
  translator members whose bodies are in other files are kept as a trace.
  A small evaluator gives the emitted instructions their SPIR-V meaning, with
  binary32 arithmetic rounded to nearest, ties to even.
\<close>

subsection \<open>Resource binding layout (\<^verbatim>\<open>spirv_shader_translator.h\<close>)\<close>

datatype DescriptorSet =
    kDescriptorSetFetchConstants
  | kDescriptorSetFloatConstantsVertex
  | kDescriptorSetFloatConstantsPixel
  | kDescriptorSetTexturesPixel
  | kDescriptorSetTexturesVertex
  | kDescriptorSetSystemConstants
  | kDescriptorSetBoolLoopConstants
  | kDescriptorSetSharedMemoryAndEdram
  | kDescriptorSetCount

text \<open>The enumerators in declaration order, as the header lists them.\<close>

definition DescriptorSet_enumerators :: "DescriptorSet list" where
  "DescriptorSet_enumerators =
     [kDescriptorSetFetchConstants, kDescriptorSetFloatConstantsVertex,
      kDescriptorSetFloatConstantsPixel, kDescriptorSetTexturesPixel,
      kDescriptorSetTexturesVertex, kDescriptorSetSystemConstants,
      kDescriptorSetBoolLoopConstants, kDescriptorSetSharedMemoryAndEdram,
      kDescriptorSetCount]"

text \<open>
  The C++ rule for an enumeration without initialisers: the first enumerator is 0 and
  each later one is its predecessor plus one.
\<close>

fun enum_index :: "'a list \<Rightarrow> 'a \<Rightarrow> nat \<Rightarrow> nat option" where
  "enum_index [] e n = None"
| "enum_index (x # xs) e n = (if x = e then Some n else enum_index xs e (Suc n))"

definition DescriptorSet_value :: "DescriptorSet \<Rightarrow> nat option" where
  "DescriptorSet_value e = enum_index DescriptorSet_enumerators e 0"

subsection \<open>Instruction records\<close>

type_synonym u32 = "32 word"

text \<open>
  \<^verbatim>\<open>xenos::VertexFormat\<close> and \<^verbatim>\<open>xenos::SignedRepeatingFractionMode\<close> are declared
  outside the two files; the constructors are the formats the translator's
  \<^verbatim>\<open>switch\<close> names, and \<open>kUndefined\<close> stands for every format that reaches its
  \<^verbatim>\<open>default\<close> label.
\<close>

datatype VertexFormat =
    kUndefined
  | k_8_8_8_8
  | k_2_10_10_10
  | k_10_11_11
  | k_11_11_10
  | k_16_16
  | k_16_16_16_16
  | k_16_16_FLOAT
  | k_16_16_16_16_FLOAT
  | k_32
  | k_32_32
  | k_32_32_32_32
  | k_32_FLOAT
  | k_32_32_FLOAT
  | k_32_32_32_32_FLOAT
  | k_32_32_32_FLOAT

datatype SignedRepeatingFractionMode = kZeroClampMinusOne | kNoZero

text \<open>
  The fields of \<^verbatim>\<open>ParsedVertexFetchInstruction\<close> that the translator reads.
  \<open>offset\<close> is a signed and \<open>stride\<close> an unsigned 32-bit number of dwords;
  \<open>operands_0\<close> and \<open>operands_1\<close> are \<^verbatim>\<open>operands[0]\<close> and \<^verbatim>\<open>operands[1]\<close>.
\<close>

record Attributes =
  data_format :: VertexFormat
  offset :: u32
  stride :: u32
  exp_adjust :: int
  signed_rf_mode :: SignedRepeatingFractionMode
  is_index_rounded :: bool
  is_signed :: bool
  is_integer :: bool

record InstructionOperand =
  storage_index :: u32

text \<open>
  \<^verbatim>\<open>InstructionResult::GetUsedResultComponents\<close> is not part of the two files:
  the result descriptor carries the mask that the call returns.
\<close>

record InstructionResult =
  used_result_components :: u32

definition GetUsedResultComponents :: "InstructionResult \<Rightarrow> u32" where
  "GetUsedResultComponents r = used_result_components r"

record ParsedVertexFetchInstruction =
  is_predicated :: bool
  predicate_condition :: bool
  result :: InstructionResult
  operands_0 :: InstructionOperand
  operands_1 :: InstructionOperand
  attributes :: Attributes

subsection \<open>Host arithmetic in binary32\<close>

text \<open>
  A finite binary32 number is a rational with a 24-bit significand. The exponent range
  is not modelled: there is no overflow, no underflow and no subnormal rounding, so the
  operators below agree with binary32 where the operands and the result are zero or
  normal binary32 numbers. The constants of the format conversion and the values it
  computes from integer fields are zero or of a magnitude between \<open>2\<^sup>-\<^sup>3\<^sup>3\<close> and \<open>2\<^sup>3\<^sup>2\<close>.
  The exponent bias is the one arithmetic step that can leave the normal range, and a
  theorem about the biased value bounds \<^verbatim>\<open>exp_adjust\<close>.
\<close>

definition pow2 :: "int \<Rightarrow> rat" where
  "pow2 e = (if 0 \<le> e then 2 ^ nat e else 1 / 2 ^ nat (- e))"

text \<open>The exponent \<open>e\<close> with \<open>2\<^sup>e \<le> \<bar>x\<bar> < 2\<^sup>e\<^sup>+\<^sup>1\<close>, for \<open>x \<noteq> 0\<close>.\<close>

definition float_exponent :: "rat \<Rightarrow> int" where
  "float_exponent x =
     (if 1 \<le> \<bar>x\<bar> then bitlen \<lfloor>\<bar>x\<bar>\<rfloor> - 1
      else - bitlen (\<lceil>1 / \<bar>x\<bar>\<rceil> - 1))"

definition round_half_even :: "rat \<Rightarrow> int" where
  "round_half_even q =
     (let m = \<lfloor>q\<rfloor>; r = q - of_int m
      in if r < 1 / 2 then m else if 1 / 2 < r then m + 1
         else if even m then m else m + 1)"

definition round32 :: "rat \<Rightarrow> rat" where
  "round32 x =
     (if x = 0 then 0
      else let e = float_exponent x - 23
           in of_int (round_half_even (x / pow2 e)) * pow2 e)"

text \<open>\<^verbatim>\<open>float(n)\<close> of an unsigned integer, and the operators \<^verbatim>\<open>+\<close>, \<^verbatim>\<open>*\<close>, \<^verbatim>\<open>/\<close> on \<^verbatim>\<open>float\<close>.\<close>

definition float_of_uint :: "u32 \<Rightarrow> rat" where
  "float_of_uint n = round32 (of_int (uint n))"

definition float_of_int :: "u32 \<Rightarrow> rat" where
  "float_of_int n = round32 (of_int (sint n))"

definition float_literal :: "rat \<Rightarrow> rat" where
  "float_literal x = round32 x"

definition fadd :: "rat \<Rightarrow> rat \<Rightarrow> rat" where
  "fadd a b = round32 (a + b)"

definition fmul :: "rat \<Rightarrow> rat \<Rightarrow> rat" where
  "fmul a b = round32 (a * b)"

text \<open>
  \<^verbatim>\<open>1.0f / 0.0f\<close> is infinity in C++ and \<open>0\<close> here; the translator divides by
  \<open>2\<^sup>w - 1\<close> or \<open>2\<^sup>w\<^sup>-\<^sup>1 - 1\<close> (plus one half) for a field width \<open>w \<ge> 2\<close> only.
\<close>

definition fdiv :: "rat \<Rightarrow> rat \<Rightarrow> rat" where
  "fdiv a b = round32 (a / b)"

text \<open>
  \<^verbatim>\<open>std::ldexp(1.0f, e)\<close> is \<open>2\<^sup>e\<close> for \<open>-149 \<le> e \<le> 127\<close>. For a smaller \<open>e\<close> the host
  function returns \<open>0\<close> and for a larger one infinity, which this definition does not
  reproduce. The instruction field \<^verbatim>\<open>exp_adjust\<close> is a 6-bit signed number, \<open>-32\<close> to \<open>31\<close>.
\<close>

definition ldexp1 :: "int \<Rightarrow> rat" where
  "ldexp1 e = pow2 e"

subsection \<open>The SPIR-V instructions the translator emits\<close>

text \<open>
  \<open>TFloat n\<close>, \<open>TInt n\<close> and \<open>TUint n\<close> are the scalar (\<open>n = 1\<close>) and vector types of
  \<open>n\<close> components. The member arrays \<^verbatim>\<open>type_float_vectors_\<close> and its siblings are
  indexed by the component count minus one.
\<close>

datatype spv_type = TFloat nat | TInt nat | TUint nat

definition type_float_vectors :: "nat \<Rightarrow> spv_type" where
  "type_float_vectors i = TFloat (i + 1)"

definition type_int_vectors :: "nat \<Rightarrow> spv_type" where
  "type_int_vectors i = TInt (i + 1)"

definition type_uint_vectors :: "nat \<Rightarrow> spv_type" where
  "type_uint_vectors i = TUint (i + 1)"

abbreviation type_float :: spv_type where "type_float \<equiv> TFloat 1"
abbreviation type_float2 :: spv_type where "type_float2 \<equiv> TFloat 2"
abbreviation type_int :: spv_type where "type_int \<equiv> TInt 1"
abbreviation type_uint :: spv_type where "type_uint \<equiv> TUint 1"

datatype spv_Op =
    OpBitcast | OpShiftRightLogical | OpBitwiseAnd
  | OpFAdd | OpFMul | OpVectorTimesScalar
  | OpIAdd | OpIMul
  | OpConvertFToS | OpConvertSToF | OpConvertUToF
  | OpBitFieldSExtract | OpBitFieldUExtract

datatype GLSLstd450 = GLSLstd450Floor | GLSLstd450UnpackHalf2x16 | GLSLstd450FMax

datatype StorageClass = StorageClassUniform

datatype Decoration = DecorationNoContraction

text \<open>
  One constructor for each builder call and each translator helper that returns an
  \<^verbatim>\<open>spv::Id\<close>. \<open>Decorated\<close> is the id after \<^verbatim>\<open>addDecoration\<close>;
  \<open>OperandComponents op m\<close> is
  \<^verbatim>\<open>GetOperandComponents(LoadOperandStorage(op), op, m)\<close>. \<^verbatim>\<open>spv::NoResult\<close> is
  \<open>None\<close> of \<open>spv_Id option\<close>.
\<close>

datatype spv_Id =
    IntConstant u32
  | UintConstant u32
  | FloatConstant rat
  | CompositeConstant spv_type "spv_Id list"
  | uniform_fetch_constants
  | AccessChain StorageClass spv_Id "spv_Id list"
  | Load spv_Id
  | UnaryOp spv_Op spv_type spv_Id
  | BinOp spv_Op spv_type spv_Id spv_Id
  | TriOp spv_Op spv_type spv_Id spv_Id spv_Id
  | BuiltinCall spv_type GLSLstd450 "spv_Id list"
  | CompositeConstruct spv_type "spv_Id list"
  | CompositeExtract spv_Id spv_type nat
  | Decorated spv_Id Decoration
  | LoadUint32FromSharedMemory spv_Id
  | EndianSwap32Uint spv_Id spv_Id
  | OperandComponents InstructionOperand u32

definition const_int_0 :: spv_Id where
  "const_int_0 = IntConstant 0"

text \<open>
  \<^verbatim>\<open>const_float_vectors_0_[i]\<close>: the header declares it as the union of
  \<^verbatim>\<open>const_float_0_\<close>, \<^verbatim>\<open>const_float2_0_\<close>, \<^verbatim>\<open>const_float3_0_\<close> and
  \<^verbatim>\<open>const_float4_0_\<close>, the zero constants of one to four components.
\<close>

definition const_float_vectors_0 :: "nat \<Rightarrow> spv_Id" where
  "const_float_vectors_0 i =
     (if i = 0 then FloatConstant 0
      else CompositeConstant (type_float_vectors i) (replicate (i + 1) (FloatConstant 0)))"

text \<open>The calls into translator members defined in other files, in call order.\<close>

datatype call =
    UpdateInstructionPredication bool bool
  | EnsureBuildPointAvailable
  | StoreResult InstructionResult "spv_Id option"

subsection \<open>Format helpers of \<^verbatim>\<open>xenos\<close>\<close>

text \<open>
  Modelled from the spec: \<^verbatim>\<open>xenos::GetVertexFormatComponentCount\<close> is missing from
  the two files. It is the format's native component count, which the format's name
  spells out.
\<close>

fun GetVertexFormatComponentCount :: "VertexFormat \<Rightarrow> nat" where
  "GetVertexFormatComponentCount kUndefined = 0"
| "GetVertexFormatComponentCount k_8_8_8_8 = 4"
| "GetVertexFormatComponentCount k_2_10_10_10 = 4"
| "GetVertexFormatComponentCount k_10_11_11 = 3"
| "GetVertexFormatComponentCount k_11_11_10 = 3"
| "GetVertexFormatComponentCount k_16_16 = 2"
| "GetVertexFormatComponentCount k_16_16_16_16 = 4"
| "GetVertexFormatComponentCount k_16_16_FLOAT = 2"
| "GetVertexFormatComponentCount k_16_16_16_16_FLOAT = 4"
| "GetVertexFormatComponentCount k_32 = 1"
| "GetVertexFormatComponentCount k_32_32 = 2"
| "GetVertexFormatComponentCount k_32_32_32_32 = 4"
| "GetVertexFormatComponentCount k_32_FLOAT = 1"
| "GetVertexFormatComponentCount k_32_32_FLOAT = 2"
| "GetVertexFormatComponentCount k_32_32_32_32_FLOAT = 4"
| "GetVertexFormatComponentCount k_32_32_32_FLOAT = 3"

text \<open>
  Modelled from the spec: \<^verbatim>\<open>xenos::GetVertexFormatNeededWords\<close> is missing from the
  two files. It is the minimal set of raw storage words that covers the requested
  components, and zero exactly when no requested component is in the format. The word
  of each component is the one the translator reads it from: the only word of a
  one-word packed format, word \<open>i div 2\<close> of a 16-bit format, word \<open>i\<close> of a 32-bit
  format.
\<close>

definition mask_if :: "bool \<Rightarrow> u32 \<Rightarrow> u32" where
  "mask_if b m = (if b then m else 0)"

fun GetVertexFormatNeededWords :: "VertexFormat \<Rightarrow> u32 \<Rightarrow> u32" where
  "GetVertexFormatNeededWords kUndefined m = 0"
| "GetVertexFormatNeededWords k_8_8_8_8 m = mask_if (m AND 15 \<noteq> 0) 1"
| "GetVertexFormatNeededWords k_2_10_10_10 m = mask_if (m AND 15 \<noteq> 0) 1"
| "GetVertexFormatNeededWords k_10_11_11 m = mask_if (m AND 7 \<noteq> 0) 1"
| "GetVertexFormatNeededWords k_11_11_10 m = mask_if (m AND 7 \<noteq> 0) 1"
| "GetVertexFormatNeededWords k_16_16 m = mask_if (m AND 3 \<noteq> 0) 1"
| "GetVertexFormatNeededWords k_16_16_FLOAT m = mask_if (m AND 3 \<noteq> 0) 1"
| "GetVertexFormatNeededWords k_16_16_16_16 m =
     mask_if (m AND 3 \<noteq> 0) 1 OR mask_if (m AND 12 \<noteq> 0) 2"
| "GetVertexFormatNeededWords k_16_16_16_16_FLOAT m =
     mask_if (m AND 3 \<noteq> 0) 1 OR mask_if (m AND 12 \<noteq> 0) 2"
| "GetVertexFormatNeededWords k_32 m = m AND 1"
| "GetVertexFormatNeededWords k_32_FLOAT m = m AND 1"
| "GetVertexFormatNeededWords k_32_32 m = m AND 3"
| "GetVertexFormatNeededWords k_32_32_FLOAT m = m AND 3"
| "GetVertexFormatNeededWords k_32_32_32_FLOAT m = m AND 7"
| "GetVertexFormatNeededWords k_32_32_32_32 m = m AND 15"
| "GetVertexFormatNeededWords k_32_32_32_32_FLOAT m = m AND 15"

text \<open>
  \<^verbatim>\<open>xe::bit_count\<close>, and the positions that a \<^verbatim>\<open>xe::bit_scan_forward\<close> loop visits:
  the set bits, lowest first.
\<close>

definition set_bits :: "u32 \<Rightarrow> nat list" where
  "set_bits m = filter (bit m) [0..<32]"

definition bit_count :: "u32 \<Rightarrow> nat" where
  "bit_count m = length (set_bits m)"

subsection \<open>\<^verbatim>\<open>ProcessVertexFetchInstruction\<close>: address and word loads\<close>

text \<open>The load of one dword of the fetch constant buffer (source lines 42 to 56, 134 to 148).\<close>

definition fetch_constant_word :: "u32 \<Rightarrow> spv_Id" where
  "fetch_constant_word index =
     Load (AccessChain StorageClassUniform uniform_fetch_constants
             [const_int_0, IntConstant (drop_bit 2 index), IntConstant (index AND 3)])"

definition fetch_constant_word_0_index :: "ParsedVertexFetchInstruction \<Rightarrow> u32" where
  "fetch_constant_word_0_index instr = push_bit 1 (storage_index (operands_1 instr))"

text \<open>The base address in dwords, bits 2 to 31 of the first fetch constant word.\<close>

definition vfetch_base_address :: "ParsedVertexFetchInstruction \<Rightarrow> spv_Id" where
  "vfetch_base_address instr =
     UnaryOp OpBitcast type_int
       (BinOp OpShiftRightLogical type_uint
          (fetch_constant_word (fetch_constant_word_0_index instr)) (UintConstant 2))"

text \<open>The index of an indexed fetch (the body of \<^verbatim>\<open>if (instr.attributes.stride)\<close>).\<close>

definition vfetch_index :: "ParsedVertexFetchInstruction \<Rightarrow> spv_Id" where
  "vfetch_index instr =
     (let index = OperandComponents (operands_0 instr) 1;
          index = (if is_index_rounded (attributes instr)
                   then Decorated (BinOp OpFAdd type_float index
                                     (FloatConstant (float_literal (1 / 2))))
                          DecorationNoContraction
                   else index);
          index = UnaryOp OpConvertFToS type_int
                    (BuiltinCall type_float GLSLstd450Floor [index]);
          index = (if 1 < stride (attributes instr)
                   then BinOp OpIMul type_int index (IntConstant (stride (attributes instr)))
                   else index)
      in index)"

definition vfetch_address :: "ParsedVertexFetchInstruction \<Rightarrow> spv_Id" where
  "vfetch_address instr =
     (if stride (attributes instr) \<noteq> 0
      then BinOp OpIAdd type_int (vfetch_base_address instr) (vfetch_index instr)
      else vfetch_base_address instr)"

text \<open>
  One round of the \<^verbatim>\<open>while (xe::bit_scan_forward(words_remaining, &word_index))\<close>
  loop. The state is \<^verbatim>\<open>word_composite_indices\<close> and the filled part of
  \<^verbatim>\<open>word_composite_constituents\<close>, whose length is \<^verbatim>\<open>word_count\<close>.
\<close>

definition load_word :: "Attributes \<Rightarrow> spv_Id \<Rightarrow> nat \<Rightarrow> spv_Id" where
  "load_word a address word_index =
     (let word_offset = offset a + of_nat word_index;
          word_address = (if word_offset \<noteq> 0
                          then BinOp OpIAdd type_int address (IntConstant word_offset)
                          else address)
      in LoadUint32FromSharedMemory word_address)"

definition load_word_step ::
  "Attributes \<Rightarrow> spv_Id \<Rightarrow> nat \<Rightarrow> nat list \<times> spv_Id list \<Rightarrow> nat list \<times> spv_Id list" where
  "load_word_step a address word_index st =
     (case st of (word_composite_indices, word_composite_constituents) \<Rightarrow>
        (word_composite_indices[word_index := length word_composite_constituents],
         word_composite_constituents @ [load_word a address word_index]))"

definition vfetch_load_words ::
  "ParsedVertexFetchInstruction \<Rightarrow> u32 \<Rightarrow> nat list \<times> spv_Id list" where
  "vfetch_load_words instr needed_words =
     fold (load_word_step (attributes instr) (vfetch_address instr)) (set_bits needed_words)
       ([0, 0, 0, 0], [])"

text \<open>
  The loaded words as one value, endian-swapped by bits 0 and 1 of the second fetch
  constant word (source lines 117 to 152).
\<close>

definition vfetch_words :: "ParsedVertexFetchInstruction \<Rightarrow> u32 \<Rightarrow> spv_Id" where
  "vfetch_words instr needed_words =
     (let word_composite_constituents = snd (vfetch_load_words instr needed_words);
          word_count = length word_composite_constituents;
          words = (if 1 < word_count
                   then CompositeConstruct (type_uint_vectors (word_count - 1))
                          word_composite_constituents
                   else hd word_composite_constituents)
      in EndianSwap32Uint words
           (BinOp OpBitwiseAnd type_uint
              (fetch_constant_word (fetch_constant_word_0_index instr + 1))
              (UintConstant 3)))"

subsection \<open>\<^verbatim>\<open>ProcessVertexFetchInstruction\<close>: format conversion\<close>

text \<open>
  The first \<^verbatim>\<open>switch\<close> on the format: \<^verbatim>\<open>format_is_packed\<close>, \<^verbatim>\<open>packed_widths\<close>,
  \<^verbatim>\<open>packed_offsets\<close> and \<^verbatim>\<open>packed_words\<close>. The arrays start as zeros and each case
  assigns the entries the source assigns.
\<close>

fun format_is_packed :: "VertexFormat \<Rightarrow> bool" where
  "format_is_packed k_8_8_8_8 = True"
| "format_is_packed k_2_10_10_10 = True"
| "format_is_packed k_10_11_11 = True"
| "format_is_packed k_11_11_10 = True"
| "format_is_packed k_16_16 = True"
| "format_is_packed k_16_16_16_16 = True"
| "format_is_packed _ = False"

fun packed_widths :: "VertexFormat \<Rightarrow> nat list" where
  "packed_widths k_8_8_8_8 = [8, 8, 8, 8]"
| "packed_widths k_2_10_10_10 = [10, 10, 10, 2]"
| "packed_widths k_10_11_11 = [11, 11, 10, 0]"
| "packed_widths k_11_11_10 = [10, 11, 11, 0]"
| "packed_widths k_16_16 = [16, 16, 0, 0]"
| "packed_widths k_16_16_16_16 = [16, 16, 16, 16]"
| "packed_widths _ = [0, 0, 0, 0]"

fun packed_offsets :: "VertexFormat \<Rightarrow> nat list" where
  "packed_offsets k_8_8_8_8 = [0, 8, 16, 24]"
| "packed_offsets k_2_10_10_10 = [0, 10, 20, 30]"
| "packed_offsets k_10_11_11 = [0, 11, 22, 0]"
| "packed_offsets k_11_11_10 = [0, 10, 21, 0]"
| "packed_offsets k_16_16 = [0, 16, 0, 0]"
| "packed_offsets k_16_16_16_16 = [0, 16, 0, 16]"
| "packed_offsets _ = [0, 0, 0, 0]"

fun packed_words :: "VertexFormat \<Rightarrow> nat list" where
  "packed_words k_16_16_16_16 = [0, 0, 1, 1]"
| "packed_words _ = [0, 0, 0, 0]"

definition used_format_components :: "ParsedVertexFetchInstruction \<Rightarrow> u32" where
  "used_format_components instr =
     GetUsedResultComponents (result instr) AND
     (push_bit (GetVertexFormatComponentCount (data_format (attributes instr))) 1 - 1)"

text \<open>
  The half-float formats: the value taken from word \<open>i\<close>, or \<open>None\<close> when none of its
  two components is needed.
\<close>

definition half_word_value ::
  "spv_Id \<Rightarrow> nat \<Rightarrow> nat list \<Rightarrow> u32 \<Rightarrow> nat \<Rightarrow> spv_Id option" where
  "half_word_value words word_count word_composite_indices used i =
     (let word_needed_components = drop_bit (i * 2) used AND 3
      in if word_needed_components = 0 then None
         else
           let word = (if 1 < word_count
                       then CompositeExtract words type_uint (word_composite_indices ! i)
                       else words);
               word = BuiltinCall type_float2 GLSLstd450UnpackHalf2x16 [word];
               word = (if word_needed_components \<noteq> 3
                       then CompositeExtract word type_float
                              (if word_needed_components AND 1 \<noteq> 0 then 0 else 1)
                       else word)
           in Some word)"

definition convert_half ::
  "spv_type \<Rightarrow> spv_Id \<Rightarrow> nat \<Rightarrow> nat list \<Rightarrow> u32 \<Rightarrow> spv_Id option" where
  "convert_half result_type words word_count word_composite_indices used =
     (let v0 = half_word_value words word_count word_composite_indices used 0;
          v1 = half_word_value words word_count word_composite_indices used 1
      in case v1 of
           None \<Rightarrow> v0
         | Some b \<Rightarrow>
             (case v0 of
                None \<Rightarrow> v1
              | Some a \<Rightarrow> Some (CompositeConstruct result_type [a, b])))"

text \<open>
  The formats \<^verbatim>\<open>k_32\<close>, \<^verbatim>\<open>k_32_32\<close> and \<^verbatim>\<open>k_32_32_32_32\<close> (source lines 265 to 320).
  Here and below \<open>res\<close> is the source's local variable \<^verbatim>\<open>result\<close>.
\<close>

definition convert_32 :: "Attributes \<Rightarrow> spv_type \<Rightarrow> nat \<Rightarrow> spv_Id \<Rightarrow> spv_Id" where
  "convert_32 a result_type used_format_component_count words =
     (let res =
            (if is_signed a
             then UnaryOp OpConvertSToF result_type
                    (UnaryOp OpBitcast (type_int_vectors (used_format_component_count - 1))
                       words)
             else UnaryOp OpConvertUToF result_type words)
      in if is_integer a then res
         else if is_signed a then
           (case signed_rf_mode a of
              kZeroClampMinusOne \<Rightarrow>
                Decorated
                  (BinOp OpVectorTimesScalar result_type res
                     (FloatConstant (fdiv (float_literal 1) (float_literal 2147483647))))
                  DecorationNoContraction
            | kNoZero \<Rightarrow>
                (let res =
                       Decorated
                         (BinOp OpVectorTimesScalar result_type res
                            (FloatConstant
                               (fdiv (float_literal 1) (float_literal (2147483647 + 1 / 2)))))
                         DecorationNoContraction;
                     const_no_zero =
                       FloatConstant
                         (fdiv (float_literal (1 / 2)) (float_literal (2147483647 + 1 / 2)));
                     const_no_zero =
                       (if 1 < used_format_component_count
                        then CompositeConstant result_type
                               (replicate used_format_component_count const_no_zero)
                        else const_no_zero)
                 in Decorated (BinOp OpFAdd result_type res const_no_zero)
                      DecorationNoContraction))
         else
           Decorated
             (BinOp OpVectorTimesScalar result_type res
                (FloatConstant (fdiv (float_literal 1) (float_literal 4294967295))))
             DecorationNoContraction)"

text \<open>The 32-bit float formats (source lines 322 to 329).\<close>

definition convert_32_float :: "nat \<Rightarrow> spv_Id \<Rightarrow> spv_Id" where
  "convert_32_float word_count words =
     UnaryOp OpBitcast (type_float_vectors (word_count - 1)) words"

subsection \<open>\<^verbatim>\<open>ProcessVertexFetchInstruction\<close>: packed formats\<close>

text \<open>
  The state of the extraction loop (source lines 344 to 374). Only the filled prefix of
  \<^verbatim>\<open>extracted_widths\<close> and \<^verbatim>\<open>extracted_components\<close> is kept, so its length is
  \<^verbatim>\<open>extracted_component_count\<close>.
\<close>

record extraction =
  extracted_widths :: "nat list"
  extracted_components :: "spv_Id list"
  extraction_word_current_index :: u32
  extraction_word_current :: spv_Id

definition UINT_MAX :: u32 where
  "UINT_MAX = - 1"

definition component_type :: "Attributes \<Rightarrow> spv_type" where
  "component_type a = (if is_signed a then type_int else type_uint)"

definition extract_step ::
  "Attributes \<Rightarrow> spv_Id \<Rightarrow> nat \<Rightarrow> nat list \<Rightarrow> u32 \<Rightarrow> nat \<Rightarrow> extraction \<Rightarrow> extraction" where
  "extract_step a words word_count word_composite_indices used i st =
     (if \<not> bit used i then st
      else
        let st = (if 1 < word_count
                  then
                    let extraction_word_new_index =
                          word_composite_indices ! (packed_words (data_format a) ! i)
                    in if extraction_word_current_index st \<noteq> of_nat extraction_word_new_index
                       then st\<lparr>extraction_word_current_index := of_nat extraction_word_new_index,
                               extraction_word_current :=
                                 CompositeExtract words (component_type a)
                                   extraction_word_new_index\<rparr>
                       else st
                  else st);
            extraction_width = packed_widths (data_format a) ! i
        in st\<lparr>extracted_widths := extracted_widths st @ [extraction_width],
               extracted_components := extracted_components st @
                 [TriOp (if is_signed a then OpBitFieldSExtract else OpBitFieldUExtract)
                    (component_type a) (extraction_word_current st)
                    (IntConstant (of_nat (packed_offsets (data_format a) ! i)))
                    (IntConstant (of_nat extraction_width))]\<rparr>)"

definition extract_packed ::
  "Attributes \<Rightarrow> spv_Id \<Rightarrow> nat \<Rightarrow> nat list \<Rightarrow> u32 \<Rightarrow> extraction" where
  "extract_packed a words word_count word_composite_indices used =
     fold (extract_step a words word_count word_composite_indices used) [0, 1, 2, 3]
       \<lparr>extracted_widths = [], extracted_components = [],
        extraction_word_current_index = UINT_MAX, extraction_word_current = words\<rparr>"

text \<open>\<^verbatim>\<open>packed_scales[i]\<close> for a component of the given width (source lines 405 to 415).\<close>

definition packed_scale :: "Attributes \<Rightarrow> nat \<Rightarrow> rat" where
  "packed_scale a extracted_width =
     (let packed_scale_inv =
            (if is_signed a
             then
               let v = float_of_uint (push_bit (extracted_width - 1) 1 - 1)
               in if signed_rf_mode a = kNoZero then fadd v (float_literal (1 / 2)) else v
             else float_of_uint (push_bit extracted_width 1 - 1))
      in fdiv (float_literal 1) packed_scale_inv)"

text \<open>
  \<^verbatim>\<open>packed_scales_same\<close> after the loop: it starts \<^verbatim>\<open>true\<close> and each round does
  \<^verbatim>\<open>packed_scales_same &= extracted_width != extracted_widths[0]\<close>.
\<close>

definition packed_scales_same :: "nat list \<Rightarrow> bool" where
  "packed_scales_same widths =
     fold (\<lambda>extracted_width same. same \<and> extracted_width \<noteq> widths ! 0) widths True"

text \<open>The normalization of a packed format (source lines 396 to 482).\<close>

definition normalize_packed ::
  "Attributes \<Rightarrow> spv_type \<Rightarrow> nat \<Rightarrow> nat list \<Rightarrow> spv_Id \<Rightarrow> spv_Id" where
  "normalize_packed a result_type used_format_component_count widths res =
     (let ws = take used_format_component_count widths;
          packed_scales = map (packed_scale a) ws;
          same = packed_scales_same ws;
          const_packed_scale = FloatConstant (packed_scales ! 0);
          scale_mul =
            (if 1 < used_format_component_count
             then
               if same then (OpVectorTimesScalar, const_packed_scale)
               else
                 (OpFMul,
                  CompositeConstant result_type
                    (const_packed_scale # map FloatConstant (tl packed_scales)))
             else (OpFMul, const_packed_scale));
          res =
            Decorated (BinOp (fst scale_mul) result_type res (snd scale_mul))
              DecorationNoContraction
      in if is_signed a then
           (case signed_rf_mode a of
              kZeroClampMinusOne \<Rightarrow>
                (let const_minus_1 = FloatConstant (float_literal (- 1));
                     const_minus_1 =
                       (if 1 < used_format_component_count
                        then CompositeConstant result_type
                               (replicate used_format_component_count const_minus_1)
                        else const_minus_1)
                 in BuiltinCall result_type GLSLstd450FMax [res, const_minus_1])
            | kNoZero \<Rightarrow>
                (let id_vector_temp =
                       map (\<lambda>scale. FloatConstant (fmul (float_literal (1 / 2)) scale))
                         packed_scales
                 in Decorated
                      (BinOp OpFAdd result_type res
                         (if 1 < used_format_component_count
                          then CompositeConstant result_type id_vector_temp
                          else id_vector_temp ! 0))
                      DecorationNoContraction))
         else res)"

text \<open>The whole \<^verbatim>\<open>if (format_is_packed)\<close> block (source lines 335 to 483).\<close>

definition convert_packed ::
  "Attributes \<Rightarrow> spv_type \<Rightarrow> nat \<Rightarrow> spv_Id \<Rightarrow> nat \<Rightarrow> nat list \<Rightarrow> u32 \<Rightarrow> spv_Id" where
  "convert_packed a result_type used_format_component_count words word_count
     word_composite_indices used =
     (let words = (if is_signed a
                   then UnaryOp OpBitcast (type_int_vectors (word_count - 1)) words
                   else words);
          ex = extract_packed a words word_count word_composite_indices used;
          res =
            (if 1 < used_format_component_count
             then CompositeConstruct
                    (if is_signed a
                     then type_int_vectors (used_format_component_count - 1)
                     else type_uint_vectors (used_format_component_count - 1))
                    (take used_format_component_count (extracted_components ex))
             else extracted_components ex ! 0);
          res =
            UnaryOp (if is_signed a then OpConvertSToF else OpConvertUToF) result_type res
      in if is_integer a then res
         else normalize_packed a result_type used_format_component_count
                (extracted_widths ex) res)"

subsection \<open>\<^verbatim>\<open>ProcessVertexFetchInstruction\<close>: the whole function\<close>

text \<open>The cases of the format \<^verbatim>\<open>switch\<close> that compute \<^verbatim>\<open>result\<close> themselves.\<close>

fun convert_unpacked ::
  "VertexFormat \<Rightarrow> Attributes \<Rightarrow> spv_type \<Rightarrow> nat \<Rightarrow> spv_Id \<Rightarrow> nat \<Rightarrow> nat list \<Rightarrow> u32
   \<Rightarrow> spv_Id option" where
  "convert_unpacked k_16_16_FLOAT a rt n words word_count idx used =
     convert_half rt words word_count idx used"
| "convert_unpacked k_16_16_16_16_FLOAT a rt n words word_count idx used =
     convert_half rt words word_count idx used"
| "convert_unpacked k_32 a rt n words word_count idx used = Some (convert_32 a rt n words)"
| "convert_unpacked k_32_32 a rt n words word_count idx used = Some (convert_32 a rt n words)"
| "convert_unpacked k_32_32_32_32 a rt n words word_count idx used =
     Some (convert_32 a rt n words)"
| "convert_unpacked k_32_FLOAT a rt n words word_count idx used =
     Some (convert_32_float word_count words)"
| "convert_unpacked k_32_32_FLOAT a rt n words word_count idx used =
     Some (convert_32_float word_count words)"
| "convert_unpacked k_32_32_32_32_FLOAT a rt n words word_count idx used =
     Some (convert_32_float word_count words)"
| "convert_unpacked k_32_32_32_FLOAT a rt n words word_count idx used =
     Some (convert_32_float word_count words)"
| "convert_unpacked _ a rt n words word_count idx used = None"

text \<open>\<^verbatim>\<open>result\<close> after the format conversion (source lines 154 to 483).\<close>

definition vfetch_convert :: "ParsedVertexFetchInstruction \<Rightarrow> u32 \<Rightarrow> spv_Id option" where
  "vfetch_convert instr needed_words =
     (let a = attributes instr;
          word_composite_indices = fst (vfetch_load_words instr needed_words);
          word_count = length (snd (vfetch_load_words instr needed_words));
          words = vfetch_words instr needed_words;
          used = used_format_components instr;
          used_format_component_count = bit_count used;
          result_type = type_float_vectors (used_format_component_count - 1)
      in if format_is_packed (data_format a)
         then Some (convert_packed a result_type used_format_component_count words word_count
                      word_composite_indices used)
         else convert_unpacked (data_format a) a result_type used_format_component_count
                words word_count word_composite_indices used)"

text \<open>\<^verbatim>\<open>builder_->getTypeId\<close>: the result type of the instruction that defines an id.\<close>

fun getTypeId :: "spv_Id \<Rightarrow> spv_type" where
  "getTypeId (IntConstant w) = type_int"
| "getTypeId (UintConstant w) = type_uint"
| "getTypeId (FloatConstant x) = type_float"
| "getTypeId (CompositeConstant t xs) = t"
| "getTypeId (UnaryOp op t x) = t"
| "getTypeId (BinOp op t x y) = t"
| "getTypeId (TriOp op t x y z) = t"
| "getTypeId (BuiltinCall t f xs) = t"
| "getTypeId (CompositeConstruct t xs) = t"
| "getTypeId (CompositeExtract x t i) = t"
| "getTypeId (Decorated x d) = getTypeId x"
| "getTypeId (EndianSwap32Uint v e) = getTypeId v"
| "getTypeId (OperandComponents op m) = type_float_vectors (bit_count m - 1)"
| "getTypeId _ = type_uint"

text \<open>The exponent bias (source lines 487 to 493).\<close>

definition apply_exp_adjust :: "Attributes \<Rightarrow> spv_Id \<Rightarrow> spv_Id" where
  "apply_exp_adjust a res =
     (if exp_adjust a \<noteq> 0
      then Decorated
             (BinOp OpVectorTimesScalar (getTypeId res) res
                (FloatConstant (ldexp1 (exp_adjust a))))
             DecorationNoContraction
      else res)"

text \<open>The zero padding of requested components the format lacks (source lines 495 to 514).\<close>

definition pad_missing :: "u32 \<Rightarrow> u32 \<Rightarrow> spv_Id \<Rightarrow> spv_Id" where
  "pad_missing used_result used_format res =
     (let used_missing_components = used_result AND NOT used_format
      in if used_missing_components \<noteq> 0
         then CompositeConstruct (type_float_vectors (bit_count used_result - 1))
                [res, const_float_vectors_0 (bit_count used_missing_components - 1)]
         else res)"

definition vfetch_result :: "ParsedVertexFetchInstruction \<Rightarrow> u32 \<Rightarrow> spv_Id option" where
  "vfetch_result instr needed_words =
     (case vfetch_convert instr needed_words of
        None \<Rightarrow> None
      | Some res \<Rightarrow>
          Some (pad_missing (GetUsedResultComponents (result instr))
                  (used_format_components instr)
                  (apply_exp_adjust (attributes instr) res)))"

definition ProcessVertexFetchInstruction :: "ParsedVertexFetchInstruction \<Rightarrow> call list" where
  "ProcessVertexFetchInstruction instr =
     UpdateInstructionPredication (is_predicated instr) (predicate_condition instr) #
     (let needed_words =
            GetVertexFormatNeededWords (data_format (attributes instr))
              (GetUsedResultComponents (result instr))
      in if needed_words = 0 then [StoreResult (result instr) None]
         else [EnsureBuildPointAvailable,
               StoreResult (result instr) (vfetch_result instr needed_words)])"

subsection \<open>The meaning of the emitted instructions\<close>

text \<open>
  A value is the list of its scalar components; a scalar is a one-element list.
  Integers of either signedness are 32-bit words, floats are finite binary32 numbers.
  Evaluation is \<open>None\<close> where SPIR-V leaves the result undefined and where the result
  is not a finite number.
\<close>

datatype scalar = W u32 | F rat

record env =
  fetch_constants :: "u32 \<Rightarrow> u32"
  shared_memory :: "u32 \<Rightarrow> u32"
  endian_swap :: "u32 \<Rightarrow> u32 \<Rightarrow> u32"
  operand_components :: "InstructionOperand \<Rightarrow> u32 \<Rightarrow> scalar list option"

definition decode_binary32 :: "u32 \<Rightarrow> rat option" where
  "decode_binary32 w =
     (let e = unat (take_bit 8 (drop_bit 23 w)); m = unat (take_bit 23 w);
          mag = (if e = 0 then of_nat m * pow2 (- 149)
                 else of_nat (m + 2 ^ 23) * pow2 (int e - 150))
      in if e = 255 then None else Some (if bit w 31 then - mag else mag))"

definition decode_binary16 :: "u32 \<Rightarrow> rat option" where
  "decode_binary16 h =
     (let e = unat (take_bit 5 (drop_bit 10 h)); m = unat (take_bit 10 h);
          mag = (if e = 0 then of_nat m * pow2 (- 24)
                 else of_nat (m + 2 ^ 10) * pow2 (int e - 25))
      in if e = 31 then None else Some (if bit h 15 then - mag else mag))"

text \<open>\<^verbatim>\<open>OpConvertFToS\<close> rounds towards zero and is undefined out of range.\<close>

definition float_to_sint :: "rat \<Rightarrow> u32 option" where
  "float_to_sint x =
     (let t = (if 0 \<le> x then \<lfloor>x\<rfloor> else \<lceil>x\<rceil>)
      in if - (2 ^ 31) \<le> t \<and> t < 2 ^ 31 then Some (word_of_int t) else None)"

fun unop :: "spv_Op \<Rightarrow> spv_type \<Rightarrow> scalar \<Rightarrow> scalar option" where
  "unop OpBitcast (TFloat n) (W w) = map_option F (decode_binary32 w)"
| "unop OpBitcast (TInt n) (W w) = Some (W w)"
| "unop OpBitcast (TUint n) (W w) = Some (W w)"
| "unop OpConvertFToS t (F x) = map_option W (float_to_sint x)"
| "unop OpConvertSToF t (W w) = Some (F (float_of_int w))"
| "unop OpConvertUToF t (W w) = Some (F (float_of_uint w))"
| "unop _ _ _ = None"

fun binop :: "spv_Op \<Rightarrow> scalar \<Rightarrow> scalar \<Rightarrow> scalar option" where
  "binop OpShiftRightLogical (W x) (W n) = Some (W (drop_bit (unat n) x))"
| "binop OpBitwiseAnd (W x) (W y) = Some (W (x AND y))"
| "binop OpIAdd (W x) (W y) = Some (W (x + y))"
| "binop OpIMul (W x) (W y) = Some (W (x * y))"
| "binop OpFAdd (F x) (F y) = Some (F (fadd x y))"
| "binop OpFMul (F x) (F y) = Some (F (fmul x y))"
| "binop OpVectorTimesScalar (F x) (F y) = Some (F (fmul x y))"
| "binop _ _ _ = None"

text \<open>The bit field of \<open>count\<close> bits at \<open>offset\<close>, sign-extended or zero-extended.\<close>

fun triop :: "spv_Op \<Rightarrow> scalar \<Rightarrow> scalar \<Rightarrow> scalar \<Rightarrow> scalar option" where
  "triop OpBitFieldSExtract (W base) (W off) (W count) =
     (if unat off + unat count \<le> 32
      then Some (W (if count = 0 then 0
                    else signed_take_bit (unat count - 1) (drop_bit (unat off) base)))
      else None)"
| "triop OpBitFieldUExtract (W base) (W off) (W count) =
     (if unat off + unat count \<le> 32
      then Some (W (take_bit (unat count) (drop_bit (unat off) base)))
      else None)"
| "triop _ _ _ _ = None"

fun those_list :: "'a option list \<Rightarrow> 'a list option" where
  "those_list [] = Some []"
| "those_list (None # xs) = None"
| "those_list (Some x # xs) = (case those_list xs of None \<Rightarrow> None | Some ys \<Rightarrow> Some (x # ys))"

text \<open>
  Componentwise application; the second operand of \<^verbatim>\<open>OpVectorTimesScalar\<close> is a
  scalar applied to every component of the first.
\<close>

definition lift_unop :: "spv_Op \<Rightarrow> spv_type \<Rightarrow> scalar list \<Rightarrow> scalar list option" where
  "lift_unop op t xs = those_list (map (unop op t) xs)"

definition lift_binop :: "spv_Op \<Rightarrow> scalar list \<Rightarrow> scalar list \<Rightarrow> scalar list option" where
  "lift_binop op xs ys =
     (if op = OpVectorTimesScalar
      then (case ys of [y] \<Rightarrow> those_list (map (\<lambda>x. binop op x y) xs) | _ \<Rightarrow> None)
      else if length xs = length ys
      then those_list (map (\<lambda>(x, y). binop op x y) (zip xs ys))
      else None)"

definition lift_triop ::
  "spv_Op \<Rightarrow> scalar list \<Rightarrow> scalar list \<Rightarrow> scalar list \<Rightarrow> scalar list option" where
  "lift_triop op xs ys zs =
     (case (xs, ys, zs) of
        ([x], [y], [z]) \<Rightarrow> map_option (\<lambda>r. [r]) (triop op x y z)
      | _ \<Rightarrow> None)"

fun floor_scalar :: "scalar \<Rightarrow> scalar option" where
  "floor_scalar (F x) = Some (F (of_int \<lfloor>x\<rfloor>))"
| "floor_scalar (W w) = None"

fun fmax_scalar :: "scalar \<times> scalar \<Rightarrow> scalar option" where
  "fmax_scalar (F x, F y) = Some (F (max x y))"
| "fmax_scalar _ = None"

definition unpack_half :: "u32 \<Rightarrow> scalar list option" where
  "unpack_half w =
     (case (decode_binary16 (take_bit 16 w), decode_binary16 (drop_bit 16 w)) of
        (Some lo, Some hi) \<Rightarrow> Some [F lo, F hi]
      | _ \<Rightarrow> None)"

definition builtin :: "GLSLstd450 \<Rightarrow> scalar list list \<Rightarrow> scalar list option" where
  "builtin f args =
     (case (f, args) of
        (GLSLstd450Floor, [xs]) \<Rightarrow> those_list (map floor_scalar xs)
      | (GLSLstd450FMax, [xs, ys]) \<Rightarrow>
          (if length xs = length ys then those_list (map fmax_scalar (zip xs ys)) else None)
      | (GLSLstd450UnpackHalf2x16, [[W w]]) \<Rightarrow> unpack_half w
      | _ \<Rightarrow> None)"

fun int_constant_value :: "spv_Id \<Rightarrow> u32 option" where
  "int_constant_value (IntConstant w) = Some w"
| "int_constant_value _ = None"

text \<open>
  A load through an access chain into the fetch constant buffer: member 0 of the
  buffer is an array of four-component vectors of dwords, and \<open>fetch_constants\<close> maps
  the index of a dword to its value.
\<close>

definition load_pointer :: "env \<Rightarrow> spv_Id \<Rightarrow> scalar list option" where
  "load_pointer E p =
     (case p of
        AccessChain c b idx \<Rightarrow>
          (if b = uniform_fetch_constants
           then (case those_list (map int_constant_value idx) of
                   Some [z, v, c] \<Rightarrow>
                     if z = 0 then Some [W (fetch_constants E (push_bit 2 v + c))]
                     else None
                 | _ \<Rightarrow> None)
           else None)
      | _ \<Rightarrow> None)"

fun swap_scalar :: "env \<Rightarrow> u32 \<Rightarrow> scalar \<Rightarrow> scalar option" where
  "swap_scalar E m (W w) = Some (W (endian_swap E w m))"
| "swap_scalar E m (F x) = None"

fun eval :: "env \<Rightarrow> spv_Id \<Rightarrow> scalar list option" where
  "eval E (IntConstant w) = Some [W w]"
| "eval E (UintConstant w) = Some [W w]"
| "eval E (FloatConstant x) = Some [F x]"
| "eval E (CompositeConstant t xs) = map_option concat (those_list (map (eval E) xs))"
| "eval E uniform_fetch_constants = None"
| "eval E (AccessChain c b idx) = None"
| "eval E (Load p) = load_pointer E p"
| "eval E (UnaryOp op t x) =
     (case eval E x of None \<Rightarrow> None | Some v \<Rightarrow> lift_unop op t v)"
| "eval E (BinOp op t x y) =
     (case eval E x of
        None \<Rightarrow> None
      | Some v \<Rightarrow> (case eval E y of None \<Rightarrow> None | Some w \<Rightarrow> lift_binop op v w))"
| "eval E (TriOp op t x y z) =
     (case eval E x of
        None \<Rightarrow> None
      | Some u \<Rightarrow>
          (case eval E y of
             None \<Rightarrow> None
           | Some v \<Rightarrow> (case eval E z of None \<Rightarrow> None | Some w \<Rightarrow> lift_triop op u v w)))"
| "eval E (BuiltinCall t f xs) =
     (case those_list (map (eval E) xs) of None \<Rightarrow> None | Some args \<Rightarrow> builtin f args)"
| "eval E (CompositeConstruct t xs) = map_option concat (those_list (map (eval E) xs))"
| "eval E (CompositeExtract x t i) =
     (case eval E x of
        None \<Rightarrow> None
      | Some v \<Rightarrow> if i < length v then Some [v ! i] else None)"
| "eval E (Decorated x d) = eval E x"
| "eval E (LoadUint32FromSharedMemory x) =
     (case eval E x of Some [W a] \<Rightarrow> Some [W (shared_memory E a)] | _ \<Rightarrow> None)"
| "eval E (EndianSwap32Uint v e) =
     (case eval E e of
        Some [W m] \<Rightarrow>
          (case eval E v of None \<Rightarrow> None | Some ws \<Rightarrow> those_list (map (swap_scalar E m) ws))
      | _ \<Rightarrow> None)"
| "eval E (OperandComponents op m) = operand_components E op m"

subsection \<open>Example instructions\<close>

definition example_attributes :: Attributes where
  "example_attributes =
     \<lparr>data_format = k_8_8_8_8, offset = 0, stride = 0, exp_adjust = 0,
      signed_rf_mode = kZeroClampMinusOne, is_index_rounded = False, is_signed = False,
      is_integer = False\<rparr>"

definition example_fetch :: "Attributes \<Rightarrow> u32 \<Rightarrow> ParsedVertexFetchInstruction" where
  "example_fetch a m =
     \<lparr>is_predicated = True, predicate_condition = False,
      result = \<lparr>used_result_components = m\<rparr>,
      operands_0 = \<lparr>storage_index = 0\<rparr>, operands_1 = \<lparr>storage_index = 0\<rparr>,
      attributes = a\<rparr>"

text \<open>
  An environment whose shared memory holds the same word everywhere and whose endian
  swap does nothing.
\<close>

definition example_env :: "u32 \<Rightarrow> rat \<Rightarrow> env" where
  "example_env w x =
     \<lparr>fetch_constants = (\<lambda>i. 0), shared_memory = (\<lambda>i. w), endian_swap = (\<lambda>v m. v),
      operand_components = (\<lambda>op m. Some [F x])\<rparr>"

subsection \<open>Vocabulary for the statements\<close>

text \<open>
  The definitions of this subsection are not translations of source functions. They
  name what the emitted instructions compute for one component, so that the theorems
  can say it; the lemmas \<open>eval_convert_packed\<close> and \<open>eval_vfetch_words\<close> prove that the
  evaluation of the emitted program agrees with them.
\<close>

text \<open>The bit field that \<^verbatim>\<open>OpBitFieldSExtract\<close> (signed fetch) or \<^verbatim>\<open>OpBitFieldUExtract\<close> returns.\<close>

definition extract_field :: "Attributes \<Rightarrow> u32 \<Rightarrow> nat \<Rightarrow> nat \<Rightarrow> u32" where
  "extract_field a w off width =
     (if is_signed a then signed_take_bit (width - 1) (drop_bit off w)
      else take_bit width (drop_bit off w))"

text \<open>The field after \<^verbatim>\<open>OpConvertSToF\<close> or \<^verbatim>\<open>OpConvertUToF\<close>.\<close>

definition to_float :: "Attributes \<Rightarrow> u32 \<Rightarrow> rat" where
  "to_float a x = (if is_signed a then float_of_int x else float_of_uint x)"

text \<open>One component after the normalization instructions: the multiplication by its scale,
  then the maximum with \<open>-1\<close> or the addition of half the scale for a signed fetch.\<close>

definition normalize_value :: "Attributes \<Rightarrow> nat \<Rightarrow> rat \<Rightarrow> rat" where
  "normalize_value a width x =
     (let y = fmul x (packed_scale a width)
      in if is_signed a then
           (case signed_rf_mode a of
              kZeroClampMinusOne \<Rightarrow> max y (float_literal (- 1))
            | kNoZero \<Rightarrow> fadd y (fmul (float_literal (1 / 2)) (packed_scale a width)))
         else y)"

text \<open>The value of one component of a packed format from its bit field.\<close>

definition component_value :: "Attributes \<Rightarrow> nat \<Rightarrow> u32 \<Rightarrow> rat" where
  "component_value a width x =
     (if is_integer a then to_float a x else normalize_value a width (to_float a x))"

text \<open>The invariant of the extraction loop: when several words are loaded, the cached
  \<^verbatim>\<open>extraction_word_current\<close> is the extract of the word whose index is cached.\<close>

definition extraction_inv :: "nat \<Rightarrow> spv_Id \<Rightarrow> spv_type \<Rightarrow> extraction \<Rightarrow> bool" where
  "extraction_inv word_count words ty st =
     (if 1 < word_count
      then extraction_word_current_index st = UINT_MAX \<or>
           (\<exists>k<32. extraction_word_current_index st = of_nat k \<and>
                    extraction_word_current st = CompositeExtract words ty k)
      else extraction_word_current st = words)"

text \<open>The word a component is extracted from, and the extraction instruction of a component.\<close>

definition component_word :: "Attributes \<Rightarrow> spv_Id \<Rightarrow> nat \<Rightarrow> nat list \<Rightarrow> nat \<Rightarrow> spv_Id" where
  "component_word a words word_count word_composite_indices i =
     (if 1 < word_count
      then CompositeExtract words (component_type a)
             (word_composite_indices ! (packed_words (data_format a) ! i))
      else words)"

definition extracted_component ::
  "Attributes \<Rightarrow> spv_Id \<Rightarrow> nat \<Rightarrow> nat list \<Rightarrow> nat \<Rightarrow> spv_Id" where
  "extracted_component a words word_count word_composite_indices i =
     TriOp (if is_signed a then OpBitFieldSExtract else OpBitFieldUExtract) (component_type a)
       (component_word a words word_count word_composite_indices i)
       (IntConstant (of_nat (packed_offsets (data_format a) ! i)))
       (IntConstant (of_nat (packed_widths (data_format a) ! i)))"

text \<open>The loaded word that holds component \<open>i\<close>, its bit field and its value, given the
  loaded words \<open>ws\<close> in load order.\<close>

definition loaded_component_word :: "u32 list \<Rightarrow> VertexFormat \<Rightarrow> nat \<Rightarrow> u32" where
  "loaded_component_word ws f i = (if 1 < length ws then ws ! (packed_words f ! i) else ws ! 0)"

definition packed_field :: "Attributes \<Rightarrow> u32 list \<Rightarrow> nat \<Rightarrow> u32" where
  "packed_field a ws i =
     extract_field a (loaded_component_word ws (data_format a) i)
       (packed_offsets (data_format a) ! i) (packed_widths (data_format a) ! i)"

definition packed_component :: "Attributes \<Rightarrow> u32 list \<Rightarrow> nat \<Rightarrow> rat" where
  "packed_component a ws i =
     component_value a (packed_widths (data_format a) ! i) (packed_field a ws i)"

text \<open>Whether an instruction of the GLSL extended set occurs in the data flow of an id.\<close>

fun calls_builtin :: "GLSLstd450 \<Rightarrow> spv_Id \<Rightarrow> bool" where
  "calls_builtin f (BuiltinCall t g xs) = (f = g \<or> list_ex (calls_builtin f) xs)"
| "calls_builtin f (CompositeConstant t xs) = list_ex (calls_builtin f) xs"
| "calls_builtin f (CompositeConstruct t xs) = list_ex (calls_builtin f) xs"
| "calls_builtin f (AccessChain c b xs) = (calls_builtin f b \<or> list_ex (calls_builtin f) xs)"
| "calls_builtin f (Load p) = calls_builtin f p"
| "calls_builtin f (UnaryOp op t x) = calls_builtin f x"
| "calls_builtin f (BinOp op t x y) = (calls_builtin f x \<or> calls_builtin f y)"
| "calls_builtin f (TriOp op t x y z) =
     (calls_builtin f x \<or> calls_builtin f y \<or> calls_builtin f z)"
| "calls_builtin f (CompositeExtract x t i) = calls_builtin f x"
| "calls_builtin f (Decorated x d) = calls_builtin f x"
| "calls_builtin f (LoadUint32FromSharedMemory x) = calls_builtin f x"
| "calls_builtin f (EndianSwap32Uint v e) = (calls_builtin f v \<or> calls_builtin f e)"
| "calls_builtin f _ = False"

text \<open>Word \<open>j\<close> of the element at dword address \<open>addr\<close>, as the fetch reads it: the shared
  memory word at the element address plus the instruction's offset plus \<open>j\<close>, swapped
  by the endianness in bits 0 and 1 of the second fetch constant word.\<close>

definition element_word :: "env \<Rightarrow> ParsedVertexFetchInstruction \<Rightarrow> u32 \<Rightarrow> nat \<Rightarrow> u32" where
  "element_word E instr addr j =
     endian_swap E (shared_memory E (addr + offset (attributes instr) + of_nat j))
       (fetch_constants E (fetch_constant_word_0_index instr + 1) AND 3)"

section \<open>Properties\<close>

subsection \<open>Rounding to binary32\<close>

lemma pow2_powi: "pow2 e = 2 powi e"
  by (simp add: pow2_def power_int_def power_one_over inverse_eq_divide)

lemma pow2_pos: "0 < pow2 e"
  by (simp add: pow2_powi)

lemma pow2_add: "pow2 (a + b) = pow2 a * pow2 b"
  by (simp add: pow2_powi power_int_add)

lemma pow2_nat: "0 \<le> e \<Longrightarrow> pow2 e = 2 ^ nat e"
  by (simp add: pow2_def)

lemma float_exponent_bounds:
  assumes "x \<noteq> 0"
  shows "pow2 (float_exponent x) \<le> \<bar>x\<bar> \<and> \<bar>x\<bar> < pow2 (float_exponent x + 1)"
proof (cases "1 \<le> \<bar>x\<bar>")
  case True
  define m where "m = \<lfloor>\<bar>x\<bar>\<rfloor>"
  have m1: "1 \<le> m" using True by (simp add: m_def le_floor_iff)
  then have m0: "0 < m" by simp
  have b1: "1 \<le> bitlen m" using m0 bitlen_eq_zero_iff [of m] bitlen_nonneg [of m] by linarith
  have e: "float_exponent x = bitlen m - 1"
    using True by (simp add: float_exponent_def m_def)
  from bitlen_bounds [OF m0]
  have lo: "(2::int) ^ nat (bitlen m - 1) \<le> m" and hi: "m < 2 ^ nat (bitlen m)" by simp_all
  have r1: "(2::rat) ^ nat (bitlen m - 1) \<le> rat_of_int m" using lo by simp
  have r2: "rat_of_int m \<le> \<bar>x\<bar>" by (simp add: m_def)
  have pe: "pow2 (float_exponent x) = 2 ^ nat (bitlen m - 1)"
    using b1 by (simp add: e pow2_nat)
  have pe1: "pow2 (float_exponent x + 1) = 2 ^ nat (bitlen m)"
    using b1 by (simp add: e pow2_nat)
  have L: "pow2 (float_exponent x) \<le> \<bar>x\<bar>"
    unfolding pe using r1 r2 by (rule order_trans)
  have "m + 1 \<le> 2 ^ nat (bitlen m)" using hi by simp
  then have r3: "rat_of_int m + 1 \<le> 2 ^ nat (bitlen m)"
    by (metis of_int_le_numeral_power_cancel_iff of_int_add of_int_1)
  have r4: "\<bar>x\<bar> < rat_of_int m + 1" using floor_correct [of "\<bar>x\<bar>"] by (simp add: m_def)
  have U: "\<bar>x\<bar> < pow2 (float_exponent x + 1)"
    unfolding pe1 using r4 r3 by (rule less_le_trans)
  from L U show ?thesis ..
next
  case False
  define y where "y = 1 / \<bar>x\<bar>"
  define c where "c = \<lceil>y\<rceil>"
  define k where "k = bitlen (c - 1)"
  have xpos: "0 < \<bar>x\<bar>" using assms by simp
  have y1: "1 < y" using False xpos by (simp add: y_def)
  have c2: "2 \<le> c" using y1 by (simp add: c_def)
  then have c0: "0 < c - 1" by simp
  have k1: "1 \<le> k" using c0 bitlen_eq_zero_iff [of "c - 1"] bitlen_nonneg [of "c - 1"]
    by (simp add: k_def)
  have e: "float_exponent x = - k"
    using False by (simp add: float_exponent_def k_def c_def y_def)
  from bitlen_bounds [OF c0]
  have lo: "(2::int) ^ nat (k - 1) \<le> c - 1" and hi: "c - 1 < 2 ^ nat k" by (simp_all add: k_def)
  have "c \<le> 2 ^ nat k" using hi by simp
  then have r1: "rat_of_int c \<le> 2 ^ nat k" by simp
  have r2: "y \<le> rat_of_int c" by (simp add: c_def)
  have yk: "y \<le> 2 ^ nat k" using r1 r2 by linarith
  have r3: "(2::rat) ^ nat (k - 1) \<le> rat_of_int c - 1"
    using lo by (metis numeral_power_le_of_int_cancel_iff of_int_diff of_int_1)
  have r4: "rat_of_int c - 1 < y" using ceiling_correct [of y] by (simp add: c_def)
  have yk1: "2 ^ nat (k - 1) < y" using r3 r4 by linarith
  have p: "(0::rat) < 2 ^ nat k" "(0::rat) < 2 ^ nat (k - 1)" by simp_all
  have L: "pow2 (float_exponent x) \<le> \<bar>x\<bar>"
  proof -
    have "1 / \<bar>x\<bar> \<le> 2 ^ nat k" using yk by (simp add: y_def)
    then have "1 \<le> 2 ^ nat k * \<bar>x\<bar>" using xpos by (simp add: pos_divide_le_eq)
    then have "1 / 2 ^ nat k \<le> \<bar>x\<bar>" using p by (simp add: pos_divide_le_eq mult.commute)
    then show ?thesis using k1 by (simp add: e pow2_def)
  qed
  have U: "\<bar>x\<bar> < pow2 (float_exponent x + 1)"
  proof -
    have "2 ^ nat (k - 1) < 1 / \<bar>x\<bar>" using yk1 by (simp add: y_def)
    then have "2 ^ nat (k - 1) * \<bar>x\<bar> < 1" using xpos by (simp add: pos_less_divide_eq)
    then have "\<bar>x\<bar> < 1 / 2 ^ nat (k - 1)" using p by (simp add: pos_less_divide_eq mult.commute)
    moreover have "pow2 (- k + 1) = 1 / 2 ^ nat (k - 1)"
      using k1 by (cases "k = 1") (simp_all add: pow2_def)
    ultimately show ?thesis by (simp add: e)
  qed
  from L U show ?thesis ..
qed

lemma round_half_even_ge: "of_int z \<le> q \<Longrightarrow> z \<le> round_half_even q"
proof -
  assume "of_int z \<le> q"
  then have "z \<le> \<lfloor>q\<rfloor>" by (simp add: le_floor_iff)
  then show ?thesis by (simp add: round_half_even_def Let_def)
qed

lemma round_half_even_le: "q \<le> of_int z \<Longrightarrow> round_half_even q \<le> z"
proof (cases "q = of_int z")
  case True
  then show ?thesis by (simp add: round_half_even_def Let_def)
next
  case False
  assume "q \<le> of_int z"
  with False have "q < of_int z" by simp
  then have "\<lfloor>q\<rfloor> < z" by (simp add: floor_less_iff)
  then show ?thesis by (simp add: round_half_even_def Let_def)
qed

lemma round32_0: "round32 0 = 0"
  by (simp add: round32_def)

lemma round32_pos:
  assumes "0 < x"
  shows "pow2 (float_exponent x) \<le> round32 x"
proof -
  let ?e = "float_exponent x - 23"
  have x0: "x \<noteq> 0" using assms by simp
  from float_exponent_bounds [OF x0] assms have lo: "pow2 (float_exponent x) \<le> x" by simp
  have split: "pow2 (float_exponent x) = 2 ^ 23 * pow2 ?e"
    using pow2_add [of 23 ?e] by (simp add: pow2_def)
  have "of_int (2 ^ 23) * pow2 ?e \<le> x" using lo split by simp
  then have "of_int (2 ^ 23) \<le> x / pow2 ?e"
    using pow2_pos [of ?e] by (simp add: pos_le_divide_eq)
  then have "2 ^ 23 \<le> round_half_even (x / pow2 ?e)" by (rule round_half_even_ge)
  then have "rat_of_int (2 ^ 23) \<le> rat_of_int (round_half_even (x / pow2 ?e))"
    by (simp only: of_int_le_iff)
  then have "rat_of_int (2 ^ 23) * pow2 ?e \<le> rat_of_int (round_half_even (x / pow2 ?e)) * pow2 ?e"
    using pow2_pos [of ?e] by (simp only: mult_le_cancel_right_pos)
  then show ?thesis using x0 split by (simp add: round32_def Let_def)
qed

lemma round32_neg:
  assumes "x < 0"
  shows "round32 x \<le> - pow2 (float_exponent x)"
proof -
  let ?e = "float_exponent x - 23"
  have x0: "x \<noteq> 0" using assms by simp
  from float_exponent_bounds [OF x0] assms have lo: "x \<le> - pow2 (float_exponent x)" by simp
  have split: "pow2 (float_exponent x) = 2 ^ 23 * pow2 ?e"
    using pow2_add [of 23 ?e] by (simp add: pow2_def)
  have "x \<le> of_int (- (2 ^ 23)) * pow2 ?e" using lo split by simp
  then have "x / pow2 ?e \<le> of_int (- (2 ^ 23))"
    using pow2_pos [of ?e] by (simp add: pos_divide_le_eq)
  then have "round_half_even (x / pow2 ?e) \<le> - (2 ^ 23)" by (rule round_half_even_le)
  then have "rat_of_int (round_half_even (x / pow2 ?e)) \<le> rat_of_int (- (2 ^ 23))"
    by (simp only: of_int_le_iff)
  then have "rat_of_int (round_half_even (x / pow2 ?e)) * pow2 ?e \<le> rat_of_int (- (2 ^ 23)) * pow2 ?e"
    using pow2_pos [of ?e] by (simp only: mult_le_cancel_right_pos)
  then show ?thesis using x0 split by (simp add: round32_def Let_def)
qed

lemma round32_nonzero: "x \<noteq> 0 \<Longrightarrow> round32 x \<noteq> 0"
  using round32_pos [of x] round32_neg [of x] pow2_pos [of "float_exponent x"]
  by (cases "0 < x") auto

subsection \<open>Componentwise evaluation\<close>

lemma those_list_map_Some: "those_list (map (\<lambda>x. Some (f x)) xs) = Some (map f xs)"
  by (induction xs) simp_all

lemma those_list_length: "those_list xs = Some ys \<Longrightarrow> length ys = length xs"
proof (induction xs arbitrary: ys)
  case Nil
  then show ?case by simp
next
  case (Cons x xs)
  then show ?case by (cases x) (auto split: option.splits)
qed

lemma those_list_cong_Some:
  "(\<And>x. x \<in> set xs \<Longrightarrow> f x = Some (g x)) \<Longrightarrow> those_list (map f xs) = Some (map g xs)"
  by (induction xs) simp_all

lemma lift_unop_words:
  assumes "\<And>w. unop op t (W w) = Some (g w)"
  shows "lift_unop op t (map W ws) = Some (map g ws)"
  unfolding lift_unop_def using assms by (induction ws) simp_all

lemma lift_unop_floats:
  assumes "\<And>x. unop op t (F x) = Some (g x)"
  shows "lift_unop op t (map F xs) = Some (map g xs)"
  unfolding lift_unop_def using assms by (induction xs) simp_all

lemma lift_vts: "lift_binop OpVectorTimesScalar (map F xs) [F c] = Some (map (\<lambda>x. F (fmul x c)) xs)"
  unfolding lift_binop_def by (induction xs) simp_all

lemma those_zip_float:
  assumes len: "length xs = length ys"
    and b: "\<And>x y. binop op (F x) (F y) = Some (F (g x y))"
  shows "those_list (map (\<lambda>(x, y). binop op x y) (zip (map F xs) (map F ys))) =
    Some (map (\<lambda>(x, y). F (g x y)) (zip xs ys))"
  using len b by (induction xs ys rule: list_induct2) simp_all

lemma lift_fmul:
  "length xs = length ys \<Longrightarrow>
   lift_binop OpFMul (map F xs) (map F ys) = Some (map (\<lambda>(x, y). F (fmul x y)) (zip xs ys))"
  unfolding lift_binop_def using those_zip_float [of xs ys OpFMul fmul] by simp

lemma lift_fadd:
  "length xs = length ys \<Longrightarrow>
   lift_binop OpFAdd (map F xs) (map F ys) = Some (map (\<lambda>(x, y). F (fadd x y)) (zip xs ys))"
  unfolding lift_binop_def using those_zip_float [of xs ys OpFAdd fadd] by simp

lemma builtin_fmax:
  "length xs = length ys \<Longrightarrow>
   builtin GLSLstd450FMax [map F xs, map F ys] = Some (map (\<lambda>(x, y). F (max x y)) (zip xs ys))"
  unfolding builtin_def by (induction xs ys rule: list_induct2) simp_all

lemma concat_singletons: "concat (map (\<lambda>c. [f c]) cs) = map f cs"
  by (induction cs) simp_all

lemma those_float_constants:
  "those_list (map (eval E) (map FloatConstant cs)) = Some (map (\<lambda>c. [F c]) cs)"
  by (induction cs) simp_all

lemma eval_float_constants:
  "map_option concat (those_list (map (eval E) (map FloatConstant cs))) = Some (map F cs)"
  by (simp only: those_float_constants option.map concat_singletons)

lemma eval_composite_constant_floats:
  "eval E (CompositeConstant t (map FloatConstant cs)) = Some (map F cs)"
  using eval_float_constants [of E cs] by simp

lemma packed_scales_same_fold:
  "fold (\<lambda>extracted_width same. same \<and> extracted_width \<noteq> w0) ws False = False"
  by (induction ws) simp_all

lemma packed_scales_same_never: "ws \<noteq> [] \<Longrightarrow> \<not> packed_scales_same ws"
  by (cases ws) (simp_all add: packed_scales_same_def packed_scales_same_fold)

lemma load_words_fold:
  "snd (fold (load_word_step a address) js (idx, cs)) = cs @ map (load_word a address) js"
  by (induction js arbitrary: idx cs) (simp_all add: load_word_step_def)

lemma vfetch_load_words_snd:
  "snd (vfetch_load_words instr nw) =
   map (load_word (attributes instr) (vfetch_address instr)) (set_bits nw)"
  by (simp add: vfetch_load_words_def load_words_fold)

lemma hd_tl_nth0: "xs \<noteq> [] \<Longrightarrow> xs ! 0 # tl xs = xs"
  by (cases xs) simp_all

lemma eval_BinOp:
  "eval E x = Some v \<Longrightarrow> eval E y = Some w \<Longrightarrow> eval E (BinOp op t x y) = lift_binop op v w"
  by simp

lemma eval_UnaryOp: "eval E x = Some v \<Longrightarrow> eval E (UnaryOp op t x) = lift_unop op t v"
  by simp

lemma eval_Builtin2:
  "eval E x = Some v \<Longrightarrow> eval E y = Some w \<Longrightarrow> eval E (BuiltinCall t f [x, y]) = builtin f [v, w]"
  by simp

lemma eval_Decorated: "eval E (Decorated x d) = eval E x"
  by simp

lemma eval_FloatConstant: "eval E (FloatConstant c) = Some (map F [c])"
  by simp

lemma eval_float_vector_constant:
  assumes "length zs = n" and "0 < n"
  shows "eval E (if 1 < n then CompositeConstant rt (map FloatConstant zs)
                 else FloatConstant (zs ! 0)) = Some (map F zs)"
proof (cases "1 < n")
  case True
  then show ?thesis using eval_float_constants [of E zs] by simp
next
  case False
  with assms have "length zs = 1" by simp
  then obtain z where "zs = [z]" by (cases zs) auto
  then show ?thesis using False by simp
qed

lemma eval_normalize_packed:
  assumes res: "eval E res = Some (map F xs)"
    and lx: "length xs = n" and lw: "length ws = n" and n: "0 < n"
  shows "eval E (normalize_packed a rt n ws res) =
         Some (map (\<lambda>(w, x). F (normalize_value a w x)) (zip ws xs))"
proof -
  define scales where "scales = map (packed_scale a) ws"
  define halves where "halves = map (\<lambda>s. fmul (float_literal (1 / 2)) s) scales"
  define ones where "ones = replicate n (float_literal (- 1))"
  have ws: "ws \<noteq> []" using lw n by auto
  have tk: "take n ws = ws" using lw by simp
  have ls: "length scales = n" by (simp add: scales_def lw)
  have lh: "length halves = n" by (simp add: halves_def ls)
  have lo: "length ones = n" by (simp add: ones_def)
  have same: "\<not> packed_scales_same ws" using ws by (rule packed_scales_same_never)
  have "scales \<noteq> []" using ws by (simp add: scales_def)
  then have sc0: "scales ! 0 # tl scales = scales" by (rule hd_tl_nth0)
  have sc0': "FloatConstant (scales ! 0) # map FloatConstant (tl scales) = map FloatConstant scales"
    using sc0 by (metis list.simps(9))
  define ys where "ys = map (\<lambda>(x, s). fmul x s) (zip xs scales)"
  have ly: "length ys = n" by (simp add: ys_def lx ls)
  define cs where "cs = (if 1 < n then CompositeConstant rt (map FloatConstant scales)
                 else FloatConstant (scales ! 0))"
  define ch where "ch = (if 1 < n then CompositeConstant rt (map FloatConstant halves)
                    else FloatConstant (halves ! 0))"
  define co where "co = (if 1 < n then CompositeConstant rt (map FloatConstant ones)
                      else FloatConstant (float_literal (- 1)))"
  define r where "r = Decorated (BinOp OpFMul rt res cs) DecorationNoContraction"
  have ecs: "eval E cs = Some (map F scales)"
    unfolding cs_def using ls n by (rule eval_float_vector_constant)
  have ech: "eval E ch = Some (map F halves)"
    unfolding ch_def using lh n by (rule eval_float_vector_constant)
  have co': "co = (if 1 < n then CompositeConstant rt (map FloatConstant ones)
                      else FloatConstant (ones ! 0))"
    using n by (simp add: co_def ones_def)
  have eco: "eval E co = Some (map F ones)"
    unfolding co' using lo n by (rule eval_float_vector_constant)
  have er: "eval E r = Some (map F ys)"
  proof -
    have "eval E r = lift_binop OpFMul (map F xs) (map F scales)"
      unfolding r_def eval_Decorated using res ecs by (rule eval_BinOp)
    also have "\<dots> = Some (map (\<lambda>(x, y). F (fmul x y)) (zip xs scales))"
      by (rule lift_fmul) (simp add: lx ls)
    also have "map (\<lambda>(x, y). F (fmul x y)) (zip xs scales) = map F ys"
      by (simp add: ys_def split_def)
    finally show ?thesis .
  qed
  have norm: "normalize_packed a rt n ws res =
     (if is_signed a then
           (case signed_rf_mode a of
              kZeroClampMinusOne \<Rightarrow> BuiltinCall rt GLSLstd450FMax [r, co]
            | kNoZero \<Rightarrow> Decorated (BinOp OpFAdd rt r ch) DecorationNoContraction)
         else r)"
  proof -
    have hm: "map (\<lambda>scale. FloatConstant (fmul (float_literal (1 / 2)) scale)) scales =
              map FloatConstant halves"
      by (simp add: halves_def)
    have h0: "map FloatConstant halves ! 0 = FloatConstant (halves ! 0)"
      using lh n by simp
    show ?thesis
      using same sc0' ws
      by (simp add: normalize_packed_def Let_def tk scales_def [symmetric] hm h0
          r_def cs_def ch_def co_def ones_def map_replicate
          split: SignedRepeatingFractionMode.split)
  qed
  have final: "map (\<lambda>(w, x). F (normalize_value a w x)) (zip ws xs) =
     (if is_signed a then
        (case signed_rf_mode a of
           kZeroClampMinusOne \<Rightarrow> map (\<lambda>(y, m). F (max y m)) (zip ys ones)
         | kNoZero \<Rightarrow> map (\<lambda>(y, h). F (fadd y h)) (zip ys halves))
      else map F ys)"
    by (auto intro!: nth_equalityI
        simp: lx lw ls ly ys_def scales_def halves_def ones_def normalize_value_def Let_def
        split: SignedRepeatingFractionMode.split)
  have fmax: "eval E (BuiltinCall rt GLSLstd450FMax [r, co]) =
        Some (map (\<lambda>(x, y). F (max x y)) (zip ys ones))"
  proof -
    have "eval E (BuiltinCall rt GLSLstd450FMax [r, co]) =
          builtin GLSLstd450FMax [map F ys, map F ones]"
      using er eco by (rule eval_Builtin2)
    also have "\<dots> = Some (map (\<lambda>(x, y). F (max x y)) (zip ys ones))"
      by (rule builtin_fmax) (simp add: ly lo)
    finally show ?thesis .
  qed
  have fadd: "eval E (Decorated (BinOp OpFAdd rt r ch) DecorationNoContraction) =
        Some (map (\<lambda>(x, y). F (fadd x y)) (zip ys halves))"
  proof -
    have "eval E (Decorated (BinOp OpFAdd rt r ch) DecorationNoContraction) =
          lift_binop OpFAdd (map F ys) (map F halves)"
      unfolding eval_Decorated using er ech by (rule eval_BinOp)
    also have "\<dots> = Some (map (\<lambda>(x, y). F (fadd x y)) (zip ys halves))"
      by (rule lift_fadd) (simp add: ly lh)
    finally show ?thesis .
  qed
  show ?thesis
    unfolding norm final using er fmax fadd
    by (simp split: SignedRepeatingFractionMode.split del: eval.simps)
qed

subsection \<open>The extraction loop\<close>

lemma unat_small: "k < 32 \<Longrightarrow> unat (of_nat k :: u32) = k"
  by (simp add: unat_of_nat)

lemma of_nat_small_inj: "k < 32 \<Longrightarrow> j < 32 \<Longrightarrow> (of_nat k :: u32) = of_nat j \<Longrightarrow> k = j"
  by (metis unat_small)

lemma of_nat_small_not_max: "k < 32 \<Longrightarrow> (of_nat k :: u32) \<noteq> UINT_MAX"
proof
  assume k: "k < 32" and "(of_nat k :: u32) = UINT_MAX"
  then have "unat (of_nat k :: u32) = unat (- 1 :: u32)" by (simp add: UINT_MAX_def)
  then show False using k by (simp add: unat_small unsigned_minus_1_eq_mask mask_eq_exp_minus_1)
qed

lemma extract_step_unused: "\<not> bit used i \<Longrightarrow> extract_step a words wc idx used i st = st"
  by (simp add: extract_step_def)

lemma extract_step_used:
  assumes b: "bit used i"
    and inv: "extraction_inv wc words (component_type a) st"
    and small: "1 < wc \<longrightarrow> idx ! (packed_words (data_format a) ! i) < 32"
  shows "extracted_widths (extract_step a words wc idx used i st) =
           extracted_widths st @ [packed_widths (data_format a) ! i]"
    and "extracted_components (extract_step a words wc idx used i st) =
           extracted_components st @ [extracted_component a words wc idx i]"
    and "extraction_inv wc words (component_type a) (extract_step a words wc idx used i st)"
proof -
  let ?new = "idx ! (packed_words (data_format a) ! i)"
  show "extracted_widths (extract_step a words wc idx used i st) =
           extracted_widths st @ [packed_widths (data_format a) ! i]"
    using b by (simp add: extract_step_def Let_def)
  have cur: "1 < wc \<Longrightarrow> extraction_word_current_index st = of_nat ?new \<Longrightarrow>
             extraction_word_current st = CompositeExtract words (component_type a) ?new"
  proof -
    assume w: "1 < wc" and e: "extraction_word_current_index st = of_nat ?new"
    from small w have n: "?new < 32" by simp
    from inv w have "extraction_word_current_index st = UINT_MAX \<or>
           (\<exists>k<32. extraction_word_current_index st = of_nat k \<and>
                    extraction_word_current st = CompositeExtract words (component_type a) k)"
      by (simp add: extraction_inv_def)
    then show ?thesis
    proof
      assume "extraction_word_current_index st = UINT_MAX"
      with e of_nat_small_not_max [OF n] show ?thesis by simp
    next
      assume "\<exists>k<32. extraction_word_current_index st = of_nat k \<and>
                    extraction_word_current st = CompositeExtract words (component_type a) k"
      then obtain k where k: "k < 32" "extraction_word_current_index st = of_nat k"
        "extraction_word_current st = CompositeExtract words (component_type a) k" by blast
      from k(2) e have "(of_nat k :: u32) = of_nat ?new" by simp
      with k(1) n have "k = ?new" by (rule of_nat_small_inj)
      with k(3) show ?thesis by simp
    qed
  qed
  have nocur: "\<not> 1 < wc \<Longrightarrow> extraction_word_current st = words"
    using inv by (simp add: extraction_inv_def)
  show "extracted_components (extract_step a words wc idx used i st) =
           extracted_components st @ [extracted_component a words wc idx i]"
    using b cur nocur
    by (simp add: extract_step_def Let_def extracted_component_def component_word_def)
  show "extraction_inv wc words (component_type a) (extract_step a words wc idx used i st)"
  proof (cases "1 < wc")
    case True
    with small have n: "?new < 32" by simp
    show ?thesis
    proof (cases "extraction_word_current_index st = of_nat ?new")
      case e: True
      from cur [OF True e] e n True b show ?thesis
        by (auto simp: extraction_inv_def extract_step_def Let_def)
    next
      case False
      with n True b show ?thesis
        by (auto simp: extraction_inv_def extract_step_def Let_def)
    qed
  next
    case False
    with nocur b show ?thesis by (simp add: extraction_inv_def extract_step_def Let_def)
  qed
qed

lemma extract_fold:
  assumes "extraction_inv wc words (component_type a) st"
    and "\<forall>i\<in>set js. 1 < wc \<longrightarrow> idx ! (packed_words (data_format a) ! i) < 32"
  shows "extracted_widths (fold (extract_step a words wc idx used) js st) =
           extracted_widths st @ map (\<lambda>i. packed_widths (data_format a) ! i) (filter (bit used) js)
         \<and> extracted_components (fold (extract_step a words wc idx used) js st) =
           extracted_components st @ map (extracted_component a words wc idx) (filter (bit used) js)"
  using assms
proof (induction js arbitrary: st)
  case Nil
  then show ?case by simp
next
  case (Cons j js)
  show ?case
  proof (cases "bit used j")
    case True
    from Cons.prems(2) have small: "1 < wc \<longrightarrow> idx ! (packed_words (data_format a) ! j) < 32"
      by simp
    note step = extract_step_used [OF True Cons.prems(1) small]
    from Cons.prems(2) have rest: "\<forall>i\<in>set js. 1 < wc \<longrightarrow> idx ! (packed_words (data_format a) ! i) < 32"
      by simp
    from Cons.IH [OF step(3) rest] step(1,2) True show ?thesis by simp
  next
    case False
    from Cons.prems(2) have rest: "\<forall>i\<in>set js. 1 < wc \<longrightarrow> idx ! (packed_words (data_format a) ! i) < 32"
      by simp
    from Cons.IH [OF Cons.prems(1) rest] False show ?thesis
      by (simp add: extract_step_unused)
  qed
qed

lemma extract_packed_result:
  assumes "\<forall>i\<in>{0, 1, 2, 3}. 1 < wc \<longrightarrow> idx ! (packed_words (data_format a) ! i) < 32"
  shows "extracted_widths (extract_packed a words wc idx used) =
           map (\<lambda>i. packed_widths (data_format a) ! i) (filter (bit used) [0, 1, 2, 3])"
    and "extracted_components (extract_packed a words wc idx used) =
           map (extracted_component a words wc idx) (filter (bit used) [0, 1, 2, 3])"
proof -
  let ?init = "\<lparr>extracted_widths = [], extracted_components = [],
        extraction_word_current_index = UINT_MAX, extraction_word_current = words\<rparr>"
  have inv: "extraction_inv wc words (component_type a) ?init"
    by (simp add: extraction_inv_def)
  have small: "\<forall>i\<in>set [0, 1, 2, 3]. 1 < wc \<longrightarrow> idx ! (packed_words (data_format a) ! i) < 32"
    using assms by simp
  from extract_fold [OF inv small, of used]
  show "extracted_widths (extract_packed a words wc idx used) =
           map (\<lambda>i. packed_widths (data_format a) ! i) (filter (bit used) [0, 1, 2, 3])"
    and "extracted_components (extract_packed a words wc idx used) =
           map (extracted_component a words wc idx) (filter (bit used) [0, 1, 2, 3])"
    by (simp_all add: extract_packed_def)
qed

subsection \<open>Loaded words and used components\<close>

lemma set_bits_nonempty: "nw \<noteq> 0 \<Longrightarrow> set_bits nw \<noteq> []"
proof
  assume nz: "nw \<noteq> 0" and e: "set_bits nw = []"
  have "\<not> bit nw i" for i
  proof (cases "i < 32")
    case True
    from e have "\<forall>x\<in>set [0..<32]. \<not> bit nw x"
      unfolding set_bits_def filter_empty_conv by simp
    with True show ?thesis by simp
  next
    case False
    then show ?thesis using bit_imp_le_length [of nw i] by auto
  qed
  then have "nw = 0" by (simp add: bit_eq_iff)
  with nz show False by simp
qed

lemma eval_load_word_singleton:
  "eval E (load_word a addr j) = Some v \<Longrightarrow> length v = 1"
  by (auto simp: load_word_def Let_def split: option.splits list.splits scalar.splits if_splits)

lemma those_concat_singletons:
  assumes "those_list (map f cs) = Some vs"
    and "\<And>c v. c \<in> set cs \<Longrightarrow> f c = Some v \<Longrightarrow> length v = 1"
  shows "length (concat vs) = length cs"
  using assms
proof (induction cs arbitrary: vs)
  case Nil
  then show ?case by simp
next
  case (Cons c cs)
  from Cons.prems(1) obtain a ys where a: "f c = Some a"
    and ys: "those_list (map f cs) = Some ys" and vs: "vs = a # ys"
    by (cases "f c") (auto split: option.splits)
  have la: "length a = 1" using Cons.prems(2) [of c a] a by simp
  have "length (concat ys) = length cs"
    using ys Cons.prems(2) by (intro Cons.IH) auto
  with la vs show ?case by simp
qed

lemma eval_EndianSwap_Some:
  "eval E (EndianSwap32Uint x e) = Some v \<Longrightarrow> \<exists>ws0. eval E x = Some ws0 \<and> length v = length ws0"
  by (auto split: option.splits list.splits scalar.splits dest: those_list_length)

lemma eval_words_length:
  assumes nz: "nw \<noteq> 0" and ev: "eval E (vfetch_words instr nw) = Some v"
  shows "length v = length (set_bits nw)"
proof -
  define cs where "cs = map (load_word (attributes instr) (vfetch_address instr)) (set_bits nw)"
  define words where "words = (if 1 < length cs
                   then CompositeConstruct (type_uint_vectors (length cs - 1)) cs
                   else hd cs)"
  have lcs: "length cs = length (set_bits nw)" by (simp add: cs_def)
  have cne: "cs \<noteq> []" using set_bits_nonempty [OF nz] by (simp add: cs_def)
  have single: "\<And>c u. c \<in> set cs \<Longrightarrow> eval E c = Some u \<Longrightarrow> length u = 1"
    by (auto simp: cs_def dest: eval_load_word_singleton)
  have vw: "vfetch_words instr nw = EndianSwap32Uint words
           (BinOp OpBitwiseAnd type_uint
              (fetch_constant_word (fetch_constant_word_0_index instr + 1))
              (UintConstant 3))"
    by (simp add: vfetch_words_def Let_def vfetch_load_words_snd cs_def words_def)
  from ev have "eval E (EndianSwap32Uint words
           (BinOp OpBitwiseAnd type_uint
              (fetch_constant_word (fetch_constant_word_0_index instr + 1))
              (UintConstant 3))) = Some v"
    unfolding vw .
  from eval_EndianSwap_Some [OF this]
  obtain ws0 where w0: "eval E words = Some ws0" and lv: "length v = length ws0" by blast
  have "length ws0 = length cs"
  proof (cases "1 < length cs")
    case True
    with w0 obtain vs where "those_list (map (eval E) cs) = Some vs" "ws0 = concat vs"
      by (auto simp: words_def)
    then show ?thesis using those_concat_singletons [of "eval E" cs vs] single by simp
  next
    case False
    with cne obtain c where c: "cs = [c]" by (cases cs) auto
    with w0 False have "eval E c = Some ws0" by (simp add: words_def)
    with single [of c ws0] c show ?thesis by simp
  qed
  with lv lcs show ?thesis by simp
qed

lemma packed_field_ok:
  assumes "format_is_packed f" and "i < GetVertexFormatComponentCount f"
  shows "0 < packed_widths f ! i" and "packed_offsets f ! i + packed_widths f ! i \<le> 32"
    and "packed_words f ! i < 2"
proof -
  from assms have "i < 4" by (cases f) simp_all
  then have i: "i = 0 \<or> i = 1 \<or> i = 2 \<or> i = 3" by auto
  from assms i show "0 < packed_widths f ! i" by (cases f) auto
  from assms i show "packed_offsets f ! i + packed_widths f ! i \<le> 32" by (cases f) auto
  from assms i show "packed_words f ! i < 2" by (cases f) auto
qed

lemma component_mask: "push_bit n (1 :: u32) - 1 = mask n"
  by (simp add: mask_eq_exp_minus_1 push_bit_eq_mult)

lemma used_format_bit:
  "bit (used_format_components instr) i \<longleftrightarrow>
   bit (GetUsedResultComponents (result instr)) i \<and>
   i < GetVertexFormatComponentCount (data_format (attributes instr))"
  unfolding used_format_components_def component_mask
  by (auto simp: bit_and_iff bit_mask_iff dest: bit_imp_le_length)

lemma component_count_le_4: "GetVertexFormatComponentCount f \<le> 4"
  by (cases f) simp_all

lemma upt_32_split: "[0..<32] = [0, 1, 2, 3] @ [4..<32]"
  by (simp add: upt_rec)

lemma set_bits_low:
  assumes "\<And>i. bit m i \<Longrightarrow> i < 4"
  shows "set_bits m = filter (bit m) [0, 1, 2, 3]"
proof -
  have "filter (bit m) [4..<32] = []"
    using assms by (fastforce simp: filter_empty_conv)
  then show ?thesis
    unfolding set_bits_def upt_32_split filter_append by simp
qed

lemma set_bits_used:
  "set_bits (used_format_components instr) =
   filter (bit (used_format_components instr)) [0, 1, 2, 3]"
proof (rule set_bits_low)
  fix i assume "bit (used_format_components instr) i"
  then have "i < GetVertexFormatComponentCount (data_format (attributes instr))"
    by (simp add: used_format_bit)
  with component_count_le_4 [of "data_format (attributes instr)"] show "i < 4" by simp
qed

lemma and_15_3: "(m :: u32) AND 3 = (m AND 15) AND 3"
  by (simp add: and.assoc)

lemma and_15_12: "(m :: u32) AND 12 = (m AND 15) AND 12"
  by (simp add: and.assoc)

lemma and_15_split: "(m :: u32) AND 15 = (m AND 3) OR (m AND 12)"
proof -
  have "(15 :: u32) = 3 OR 12" by simp
  then show ?thesis by (simp only: bit.conj_disj_distrib)
qed

lemma and_15_zero_iff: "(m :: u32) AND 15 = 0 \<longleftrightarrow> m AND 3 = 0 \<and> m AND 12 = 0"
proof
  assume "m AND 15 = 0"
  then show "m AND 3 = 0 \<and> m AND 12 = 0"
    using and_15_3 [of m] and_15_12 [of m] by simp
next
  assume "m AND 3 = 0 \<and> m AND 12 = 0"
  then show "m AND 15 = 0" using and_15_split [of m] by simp
qed

lemma needed_words_iff_used:
  "GetVertexFormatNeededWords f m \<noteq> 0 \<longleftrightarrow>
   m AND (push_bit (GetVertexFormatComponentCount f) 1 - 1) \<noteq> 0"
  by (cases f) (auto simp: mask_if_def and_15_zero_iff)

lemma packed_needed_words:
  assumes "format_is_packed f" and "GetVertexFormatNeededWords f m \<noteq> 0"
  shows "GetVertexFormatNeededWords f m = 1 \<or>
         f = k_16_16_16_16 \<and> (GetVertexFormatNeededWords f m = 2 \<or> GetVertexFormatNeededWords f m = 3)"
  using assms by (cases f) (auto simp: mask_if_def)

lemma set_bits_1: "set_bits 1 = [0]" by code_simp

lemma set_bits_2: "set_bits 2 = [1]" by code_simp

lemma set_bits_3: "set_bits 3 = [0, 1]" by code_simp

lemma load_words_1:
  "fst (vfetch_load_words instr 1) = [0, 0, 0, 0]" "length (snd (vfetch_load_words instr 1)) = 1"
  by (simp_all add: vfetch_load_words_def set_bits_1 load_word_step_def)

lemma load_words_2:
  "fst (vfetch_load_words instr 2) = [0, 0, 0, 0]" "length (snd (vfetch_load_words instr 2)) = 1"
  by (simp_all add: vfetch_load_words_def set_bits_2 load_word_step_def)

lemma load_words_3:
  "fst (vfetch_load_words instr 3) = [0, 1, 0, 0]" "length (snd (vfetch_load_words instr 3)) = 2"
  by (simp_all add: vfetch_load_words_def set_bits_3 load_word_step_def)

lemma zip_map_same: "zip (map f xs) (map g xs) = map (\<lambda>x. (f x, g x)) xs"
  by (induction xs) simp_all

lemma unat_le_32: "k \<le> 32 \<Longrightarrow> unat (of_nat k :: u32) = k"
  by (simp add: unat_of_nat)

lemma eval_bitfield:
  assumes x: "eval E x = Some [W w]" and wd: "0 < wd" and r: "off + wd \<le> 32"
  shows "eval E (TriOp (if is_signed a then OpBitFieldSExtract else OpBitFieldUExtract) t x
           (IntConstant (of_nat off)) (IntConstant (of_nat wd))) =
         Some [W (extract_field a w off wd)]"
proof -
  have uo: "unat (of_nat off :: u32) = off" using r by (simp add: unat_le_32)
  have uw: "unat (of_nat wd :: u32) = wd" using r by (simp add: unat_le_32)
  have nz: "(of_nat wd :: u32) \<noteq> 0"
  proof
    assume "(of_nat wd :: u32) = 0"
    then have "unat (of_nat wd :: u32) = 0" by simp
    with uw wd show False by simp
  qed
  show ?thesis using x r nz
    by (simp add: lift_triop_def uo uw extract_field_def)
qed

subsection \<open>Evaluation of a packed conversion\<close>

lemma eval_component_word:
  assumes ew: "eval E words = Some (map W ws)"
    and cases: "wc = 1 \<and> length ws = 1 \<or> wc = 2 \<and> length ws = 2 \<and> idx = [0, 1, 0, 0]"
    and pw: "packed_words (data_format a) ! i < 2"
  shows "eval E (component_word a words wc idx i) =
         Some [W (loaded_component_word ws (data_format a) i)]"
proof -
  from cases show ?thesis
  proof
    assume c: "wc = 1 \<and> length ws = 1"
    then obtain w where "ws = [w]" by (cases ws) auto
    with c ew show ?thesis by (simp add: component_word_def loaded_component_word_def)
  next
    assume c: "wc = 2 \<and> length ws = 2 \<and> idx = [0, 1, 0, 0]"
    then obtain w0 w1 where ws: "ws = [w0, w1]"
      by (cases ws; cases "tl ws") auto
    from pw have "packed_words (data_format a) ! i = 0 \<or> packed_words (data_format a) ! i = 1"
      by auto
    then show ?thesis
    proof
      assume "packed_words (data_format a) ! i = 0"
      then show ?thesis using c ew
        by (simp add: component_word_def loaded_component_word_def ws)
    next
      assume "packed_words (data_format a) ! i = 1"
      then show ?thesis using c ew
        by (simp add: component_word_def loaded_component_word_def ws)
    qed
  qed
qed

lemma eval_convert_packed:
  assumes packed: "format_is_packed (data_format a)"
    and a: "a = attributes instr"
    and nw: "nw = GetVertexFormatNeededWords (data_format a) (GetUsedResultComponents (result instr))"
    and nz: "nw \<noteq> 0"
    and ew: "eval E (vfetch_words instr nw) = Some (map W ws)"
  shows "eval E (convert_packed a rt (bit_count (used_format_components instr))
                   (vfetch_words instr nw) (length (snd (vfetch_load_words instr nw)))
                   (fst (vfetch_load_words instr nw)) (used_format_components instr)) =
         Some (map (\<lambda>i. F (packed_component a ws i))
                 (filter (bit (used_format_components instr)) [0, 1, 2, 3]))"
proof -
  let ?f = "data_format a"
  define used where "used = used_format_components instr"
  define js where "js = filter (bit used) [0, 1, 2, 3]"
  define wc where "wc = length (snd (vfetch_load_words instr nw))"
  define idx where "idx = fst (vfetch_load_words instr nw)"
  define words where "words = (if is_signed a
                   then UnaryOp OpBitcast (type_int_vectors (wc - 1)) (vfetch_words instr nw)
                   else vfetch_words instr nw)"
  define n where "n = bit_count used"
  have n_js: "n = length js"
    by (simp add: n_def bit_count_def used_def js_def set_bits_used)
  have used_nz: "used \<noteq> 0"
    using nz needed_words_iff_used [of ?f "GetUsedResultComponents (result instr)"]
    by (simp add: nw used_def used_format_components_def a)
  have js_ne: "js \<noteq> []"
    using set_bits_nonempty [OF used_nz] by (simp add: js_def used_def set_bits_used)
  have n0: "0 < n" using js_ne n_js by simp
  have js_cc: "i < GetVertexFormatComponentCount ?f" if "i \<in> set js" for i
  proof -
    from that have "bit used i" unfolding js_def by (simp only: set_filter mem_Collect_eq)
    then show ?thesis by (simp add: used_def used_format_bit a)
  qed
  have lws: "length ws = wc"
    using eval_words_length [OF nz ew] by (simp add: wc_def vfetch_load_words_snd)
  have shape: "wc = 1 \<and> length ws = 1 \<or> wc = 2 \<and> length ws = 2 \<and> idx = [0, 1, 0, 0]"
    using packed_needed_words [OF packed nz [unfolded nw]] lws
    by (auto simp: wc_def idx_def nw [symmetric] load_words_1 load_words_2 load_words_3)
  have small: "\<forall>i\<in>{0, 1, 2, 3}. 1 < wc \<longrightarrow> idx ! (packed_words ?f ! i) < 32"
  proof (intro ballI impI)
    fix i assume "i \<in> {0, 1, 2, 3 :: nat}" and "1 < wc"
    with shape have idx: "idx = [0, 1, 0, 0]" by auto
    have "packed_words ?f ! i < 4" using \<open>i \<in> {0, 1, 2, 3}\<close> by (cases ?f) auto
    then have "packed_words ?f ! i = 0 \<or> packed_words ?f ! i = 1 \<or> packed_words ?f ! i = 2
               \<or> packed_words ?f ! i = 3" by auto
    then show "idx ! (packed_words ?f ! i) < 32" using idx by auto
  qed
  have ewords: "eval E words = Some (map W ws)"
  proof (cases "is_signed a")
    case True
    have "lift_unop OpBitcast (type_int_vectors (wc - 1)) (map W ws) = Some (map W ws)"
      by (rule lift_unop_words) (simp add: type_int_vectors_def)
    with True ew show ?thesis by (simp add: words_def)
  next
    case False
    with ew show ?thesis by (simp add: words_def)
  qed
  have comps: "extracted_components (extract_packed a words wc idx used) =
               map (extracted_component a words wc idx) js"
    and widths: "extracted_widths (extract_packed a words wc idx used) =
               map (\<lambda>i. packed_widths ?f ! i) js"
    using extract_packed_result [OF small, of words used] by (simp_all add: js_def)
  have ecomp: "eval E (extracted_component a words wc idx i) = Some [W (packed_field a ws i)]"
    if "i \<in> set js" for i
  proof -
    note ok = packed_field_ok [OF packed js_cc [OF that]]
    have "eval E (component_word a words wc idx i) =
          Some [W (loaded_component_word ws ?f i)]"
      using ewords shape ok(3) by (rule eval_component_word)
    from eval_bitfield [OF this ok(1) ok(2), of a "component_type a"]
    show ?thesis by (simp add: extracted_component_def packed_field_def)
  qed
  have those: "those_list (map (eval E) (map (extracted_component a words wc idx) js)) =
               Some (map (\<lambda>i. [W (packed_field a ws i)]) js)"
    unfolding map_map by (rule those_list_cong_Some) (simp add: ecomp)
  define r0 where "r0 = (if 1 < n
             then CompositeConstruct
                    (if is_signed a then type_int_vectors (n - 1) else type_uint_vectors (n - 1))
                    (take n (extracted_components (extract_packed a words wc idx used)))
             else extracted_components (extract_packed a words wc idx used) ! 0)"
  have er0: "eval E r0 = Some (map W (map (packed_field a ws) js))"
  proof (cases "1 < n")
    case True
    have "eval E r0 = map_option concat (those_list (map (eval E) (map (extracted_component a words wc idx) js)))"
      using True by (simp add: r0_def comps n_js)
    also have "\<dots> = Some (map W (map (packed_field a ws) js))"
      unfolding those by (simp add: concat_singletons)
    finally show ?thesis .
  next
    case False
    with js_ne n_js have "length js = 1" by (cases js) auto
    then obtain j where j: "js = [j]" by (cases js) auto
    then show ?thesis using False ecomp [of j] by (simp add: r0_def comps)
  qed
  define r1 where "r1 = UnaryOp (if is_signed a then OpConvertSToF else OpConvertUToF) rt r0"
  have er1: "eval E r1 = Some (map F (map (\<lambda>i. to_float a (packed_field a ws i)) js))"
  proof -
    have "eval E r1 = lift_unop (if is_signed a then OpConvertSToF else OpConvertUToF) rt
                        (map W (map (packed_field a ws) js))"
      unfolding r1_def using er0 by (rule eval_UnaryOp)
    also have "\<dots> = Some (map (\<lambda>x. F (to_float a x)) (map (packed_field a ws) js))"
      by (rule lift_unop_words) (simp add: to_float_def)
    finally show ?thesis by (simp add: comp_def)
  qed
  have conv: "convert_packed a rt n (vfetch_words instr nw) wc idx used =
              (if is_integer a then r1
               else normalize_packed a rt n (map (\<lambda>i. packed_widths ?f ! i) js) r1)"
    by (simp add: convert_packed_def Let_def words_def [symmetric] r0_def r1_def widths)
  have "eval E (convert_packed a rt n (vfetch_words instr nw) wc idx used) =
        Some (map (\<lambda>i. F (packed_component a ws i)) js)"
  proof (cases "is_integer a")
    case True
    then show ?thesis
      unfolding conv using er1 by (simp add: packed_component_def component_value_def comp_def)
  next
    case False
    have "eval E (normalize_packed a rt n (map (\<lambda>i. packed_widths ?f ! i) js) r1) =
          Some (map (\<lambda>(w, x). F (normalize_value a w x))
                  (zip (map (\<lambda>i. packed_widths ?f ! i) js)
                       (map (\<lambda>i. to_float a (packed_field a ws i)) js)))"
      using er1 by (rule eval_normalize_packed) (simp_all add: n_js js_ne)
    then show ?thesis
      unfolding conv using False
      by (simp add: zip_map_same packed_component_def component_value_def comp_def)
  qed
  then show ?thesis by (simp add: n_def wc_def idx_def used_def js_def)
qed

subsection \<open>Evaluation of the address, the loads and the padding\<close>

lemma dword_index: "push_bit 2 (drop_bit 2 (x :: u32)) + (x AND 3) = x"
proof -
  have "(x AND 3) = take_bit 2 x" by (simp add: take_bit_eq_mask mask_eq_exp_minus_1)
  then show ?thesis by (simp add: bits_ident)
qed

lemma eval_fetch_constant_word:
  "eval E (fetch_constant_word i) = Some [W (fetch_constants E i)]"
  by (simp add: fetch_constant_word_def load_pointer_def const_int_0_def dword_index)

lemma eval_base_address:
  "eval E (vfetch_base_address instr) =
   Some [W (drop_bit 2 (fetch_constants E (fetch_constant_word_0_index instr)))]"
  by (simp add: vfetch_base_address_def fetch_constant_word_def load_pointer_def
      const_int_0_def dword_index lift_binop_def lift_unop_def)

lemma eval_load_word:
  assumes "eval E address = Some [W addr]"
  shows "eval E (load_word a address j) = Some [W (shared_memory E (addr + offset a + of_nat j))]"
  using assms by (simp add: load_word_def Let_def lift_binop_def add.assoc)

lemma those_loads:
  assumes "eval E address = Some [W addr]"
  shows "those_list (map (eval E) (map (load_word a address) js)) =
         Some (map (\<lambda>j. [W (shared_memory E (addr + offset a + of_nat j))]) js)"
  unfolding map_map
  by (rule those_list_cong_Some) (simp add: eval_load_word [OF assms])

lemma those_swap:
  "those_list (map (swap_scalar E m) (map W ws)) = Some (map (\<lambda>w. W (endian_swap E w m)) ws)"
  by (induction ws) simp_all

lemma eval_vfetch_words:
  assumes nz: "nw \<noteq> 0" and ad: "eval E (vfetch_address instr) = Some [W addr]"
  shows "eval E (vfetch_words instr nw) = Some (map (\<lambda>j. W (element_word E instr addr j)) (set_bits nw))"
proof -
  let ?a = "attributes instr"
  define cs where "cs = map (load_word ?a (vfetch_address instr)) (set_bits nw)"
  define words where "words = (if 1 < length cs
                   then CompositeConstruct (type_uint_vectors (length cs - 1)) cs
                   else hd cs)"
  define sel where "sel = BinOp OpBitwiseAnd type_uint
              (fetch_constant_word (fetch_constant_word_0_index instr + 1)) (UintConstant 3)"
  define ms where "ms = map (\<lambda>j. shared_memory E (addr + offset ?a + of_nat j)) (set_bits nw)"
  have vw: "vfetch_words instr nw = EndianSwap32Uint words sel"
    by (simp add: vfetch_words_def Let_def vfetch_load_words_snd cs_def words_def sel_def)
  have esel: "eval E sel = Some [W (fetch_constants E (fetch_constant_word_0_index instr + 1) AND 3)]"
    unfolding sel_def
    by (simp add: eval_fetch_constant_word lift_binop_def del: eval.simps(7))
  have th: "those_list (map (eval E) cs) = Some (map (\<lambda>m. [W m]) ms)"
    unfolding cs_def ms_def using those_loads [OF ad, of ?a "set_bits nw"] by (simp add: comp_def)
  have ne: "set_bits nw \<noteq> []" using nz by (rule set_bits_nonempty)
  have ew: "eval E words = Some (map W ms)"
  proof (cases "1 < length cs")
    case True
    then show ?thesis by (simp add: words_def th concat_singletons)
  next
    case False
    with ne obtain j where j: "set_bits nw = [j]" by (cases "set_bits nw") (auto simp: cs_def)
    show ?thesis using False eval_load_word [OF ad, of ?a j]
      by (simp add: words_def cs_def ms_def j)
  qed
  show ?thesis
    unfolding vw using ew esel
    by (simp add: those_swap ms_def element_word_def comp_def those_list_map_Some)
qed

lemma eval_apply_exp_adjust:
  assumes "eval E res = Some (map F xs)"
  shows "eval E (apply_exp_adjust a res) =
         Some (map (\<lambda>x. F (if exp_adjust a \<noteq> 0 then fmul x (ldexp1 (exp_adjust a)) else x)) xs)"
proof (cases "exp_adjust a = 0")
  case True
  then show ?thesis using assms by (simp add: apply_exp_adjust_def)
next
  case False
  have "eval E (BinOp OpVectorTimesScalar (getTypeId res) res (FloatConstant (ldexp1 (exp_adjust a)))) =
        lift_binop OpVectorTimesScalar (map F xs) [F (ldexp1 (exp_adjust a))]"
    using assms by (intro eval_BinOp) simp_all
  then show ?thesis using False by (simp add: apply_exp_adjust_def lift_vts)
qed

lemma eval_zero_vector:
  "eval E (const_float_vectors_0 i) = Some (replicate (i + 1) (F 0))"
proof (cases "i = 0")
  case True
  then show ?thesis by (simp add: const_float_vectors_0_def)
next
  case False
  have "eval E (CompositeConstant (type_float_vectors i) (map FloatConstant (replicate (i + 1) 0))) =
        Some (map F (replicate (i + 1) 0))"
    by (rule eval_composite_constant_floats)
  then show ?thesis using False by (simp add: const_float_vectors_0_def)
qed

lemma bit_count_pos: "m \<noteq> 0 \<Longrightarrow> 0 < bit_count m"
  using set_bits_nonempty [of m] by (simp add: bit_count_def)

lemma eval_pad_missing:
  assumes "eval E res = Some v"
  shows "eval E (pad_missing m u res) =
         Some (v @ replicate (bit_count (m AND NOT u)) (F 0))"
proof (cases "m AND NOT u = 0")
  case True
  have "bit_count (0 :: u32) = 0" by (simp add: bit_count_def set_bits_def)
  with True assms show ?thesis by (simp add: pad_missing_def)
next
  case False
  from bit_count_pos [OF False] obtain k where k: "bit_count (m AND NOT u) = Suc k"
    by (cases "bit_count (m AND NOT u)") auto
  show ?thesis using False assms eval_zero_vector [of E k]
    by (simp add: pad_missing_def Let_def k del: eval.simps(3,4))
qed

lemma vfetch_convert_packed:
  "format_is_packed (data_format (attributes instr)) \<Longrightarrow>
   vfetch_convert instr nw =
   Some (convert_packed (attributes instr)
           (type_float_vectors (bit_count (used_format_components instr) - 1))
           (bit_count (used_format_components instr)) (vfetch_words instr nw)
           (length (snd (vfetch_load_words instr nw))) (fst (vfetch_load_words instr nw))
           (used_format_components instr))"
  by (simp add: vfetch_convert_def Let_def)

lemma eval_vfetch_convert_packed:
  assumes "format_is_packed (data_format (attributes instr))"
    and "nw = GetVertexFormatNeededWords (data_format (attributes instr))
                (GetUsedResultComponents (result instr))"
    and "nw \<noteq> 0"
    and "eval E (vfetch_words instr nw) = Some (map W ws)"
  shows "\<exists>decoded. vfetch_convert instr nw = Some decoded \<and>
           eval E decoded =
           Some (map (\<lambda>i. F (packed_component (attributes instr) ws i))
                   (filter (bit (used_format_components instr)) [0, 1, 2, 3]))"
  using vfetch_convert_packed [OF assms(1), of nw]
    eval_convert_packed [OF assms(1) refl assms(2) assms(3) assms(4)]
  by simp

lemma process_with_words:
  assumes "nw = GetVertexFormatNeededWords (data_format (attributes instr))
                (GetUsedResultComponents (result instr))"
    and "nw \<noteq> 0"
  shows "ProcessVertexFetchInstruction instr =
         [UpdateInstructionPredication (is_predicated instr) (predicate_condition instr),
          EnsureBuildPointAvailable,
          StoreResult (result instr) (vfetch_result instr nw)]"
  using assms by (simp add: ProcessVertexFetchInstruction_def Let_def)

lemma packed_component_cong:
  assumes f: "data_format a = data_format b" and s: "is_signed a = is_signed b"
    and i: "is_integer a = is_integer b"
    and m: "is_signed a \<longrightarrow> signed_rf_mode a = signed_rf_mode b"
  shows "packed_component a ws i = packed_component b ws i"
proof (cases "is_signed a")
  case True
  with m have m': "signed_rf_mode a = signed_rf_mode b" by simp
  show ?thesis
    unfolding packed_component_def packed_field_def component_value_def normalize_value_def
      to_float_def extract_field_def packed_scale_def f s i m' ..
next
  case False
  with s have "\<not> is_signed b" by simp
  with False show ?thesis
    unfolding packed_component_def packed_field_def component_value_def normalize_value_def
      to_float_def extract_field_def packed_scale_def f i by simp
qed

lemma max_2_10_10_10:
  "map (packed_component (example_attributes\<lparr>data_format := k_2_10_10_10\<rparr>) [0xFFFFFFFF])
     [0, 1, 2, 3] = [1, 1, 1, 1]"
  by code_simp

lemma filter_bit_15: "filter (bit (15 :: u32)) [0, 1, 2, 3] = [0, 1, 2, 3]"
  by code_simp

subsection \<open>The no-zero bias\<close>

lemma pow2_le_1: "e \<le> 0 \<Longrightarrow> pow2 e \<le> 1"
proof -
  assume "e \<le> 0"
  have "(1::rat) \<le> 2 ^ nat (- e)" by simp
  then have "1 / 2 ^ nat (- e) \<le> (1::rat)" by (simp add: divide_le_eq)
  with \<open>e \<le> 0\<close> show ?thesis by (cases "e = 0") (simp_all add: pow2_def)
qed

lemma pow2_exponent_ge_1:
  assumes "1 \<le> \<bar>x\<bar>"
  shows "1 \<le> pow2 (float_exponent x)"
proof -
  from assms have x0: "x \<noteq> 0" by auto
  from float_exponent_bounds [OF x0] assms have "1 < pow2 (float_exponent x + 1)" by simp
  then have "\<not> float_exponent x + 1 \<le> 0" using pow2_le_1 [of "float_exponent x + 1"] by auto
  then have "0 \<le> float_exponent x" by simp
  then show ?thesis by (simp add: pow2_def)
qed

lemma pow2_half: "pow2 (e + 1) = 2 * pow2 e"
  using pow2_add [of 1 e] by (simp add: pow2_def add.commute)

lemma no_zero_bias:
  assumes s: "0 < s"
  shows "fadd (fmul (round32 (of_int k)) s) (s / 2) \<noteq> 0"
proof -
  consider "k = 0" | "0 < k" | "k < 0" by linarith
  then have "fmul (round32 (of_int k)) s + s / 2 \<noteq> 0"
  proof cases
    case 1
    then show ?thesis using s by (simp add: round32_0 fmul_def)
  next
    case 2
    then have "0 < rat_of_int k" by simp
    from round32_pos [OF this] pow2_pos [of "float_exponent (rat_of_int k)"]
    have "0 < round32 (rat_of_int k)" by linarith
    with s have "0 < round32 (rat_of_int k) * s" by simp
    from round32_pos [OF this] pow2_pos [of "float_exponent (round32 (rat_of_int k) * s)"]
    have "0 < fmul (round32 (rat_of_int k)) s" unfolding fmul_def by linarith
    with s show ?thesis by simp
  next
    case 3
    then have neg: "rat_of_int k < 0" by simp
    from 3 have "k \<le> - 1" by simp
    then have "rat_of_int k \<le> - 1" by (metis of_int_le_iff of_int_minus of_int_1)
    then have "1 \<le> \<bar>rat_of_int k\<bar>" by simp
    from pow2_exponent_ge_1 [OF this] round32_neg [OF neg]
    have x: "round32 (rat_of_int k) \<le> - 1" by linarith
    define y where "y = round32 (rat_of_int k) * s"
    have ys: "y \<le> - s"
    proof -
      have "round32 (rat_of_int k) * s \<le> (- 1) * s"
        using x s by (intro mult_right_mono) simp_all
      then show ?thesis by (simp add: y_def)
    qed
    with s have yneg: "y < 0" by simp
    then have y0: "y \<noteq> 0" by simp
    from float_exponent_bounds [OF y0] yneg have "- y < pow2 (float_exponent y + 1)" by simp
    then have "- y < 2 * pow2 (float_exponent y)" by (simp add: pow2_half)
    with ys have "s / 2 < pow2 (float_exponent y)" by simp
    with round32_neg [OF yneg] have "round32 y < - (s / 2)" by linarith
    then show ?thesis by (simp add: fmul_def y_def)
  qed
  then show ?thesis unfolding fadd_def by (rule round32_nonzero)
qed

lemma scale_16_no_zero:
  "packed_scale (example_attributes\<lparr>is_signed := True, signed_rf_mode := kNoZero\<rparr>) 16 =
   fdiv (float_literal 1) (float_literal (65535 / 2))"
  by code_simp

lemma scale_16_value: "fdiv (float_literal 1) (float_literal (65535 / 2)) = 65537 / 2147483648"
  by code_simp

lemma half_scale_16:
  "fmul (float_literal (1 / 2)) (65537 / 2147483648) = (65537 / 2147483648) / 2"
  by code_simp

lemma exp_adjust_nonzero:
  "x \<noteq> 0 \<Longrightarrow> (if e \<noteq> 0 then fmul x (ldexp1 e) else x) \<noteq> 0"
  using pow2_pos [of e] by (auto simp: fmul_def ldexp1_def intro!: round32_nonzero)

subsection \<open>The clamp to minus one\<close>

lemma component_value_cong:
  assumes s: "is_signed a = is_signed b" and i: "is_integer a = is_integer b"
    and m: "signed_rf_mode a = signed_rf_mode b"
  shows "component_value a wd x = component_value b wd x"
  unfolding component_value_def normalize_value_def to_float_def packed_scale_def s i m ..

lemma packed_width_values:
  assumes "format_is_packed f" and "i < GetVertexFormatComponentCount f"
  shows "packed_widths f ! i = 2 \<or> packed_widths f ! i = 8 \<or> packed_widths f ! i = 10
         \<or> packed_widths f ! i = 11 \<or> packed_widths f ! i = 16"
proof -
  from assms have "i < 4" by (cases f) simp_all
  then have i: "i = 0 \<or> i = 1 \<or> i = 2 \<or> i = 3" by auto
  from assms i show ?thesis by (cases f) auto
qed

lemma clamp_codes:
  "component_value (example_attributes\<lparr>is_signed := True\<rparr>) 2 (- 2) = - 1"
  "component_value (example_attributes\<lparr>is_signed := True\<rparr>) 2 (- 1) = - 1"
  "component_value (example_attributes\<lparr>is_signed := True\<rparr>) 8 (- 128) = - 1"
  "component_value (example_attributes\<lparr>is_signed := True\<rparr>) 8 (- 127) = - 1"
  "component_value (example_attributes\<lparr>is_signed := True\<rparr>) 10 (- 512) = - 1"
  "component_value (example_attributes\<lparr>is_signed := True\<rparr>) 10 (- 511) = - 1"
  "component_value (example_attributes\<lparr>is_signed := True\<rparr>) 11 (- 1024) = - 1"
  "component_value (example_attributes\<lparr>is_signed := True\<rparr>) 11 (- 1023) = - 1"
  "component_value (example_attributes\<lparr>is_signed := True\<rparr>) 16 (- 32768) = - 1"
  "component_value (example_attributes\<lparr>is_signed := True\<rparr>) 16 (- 32767) = - 1"
  by code_simp+

lemma float_literal_minus_1: "float_literal (- 1) = - 1"
  by code_simp

lemma word_of_sint: "sint (x :: u32) = c \<Longrightarrow> x = word_of_int c"
  by auto

lemma clamp_value:
  assumes s: "is_signed a" and n: "\<not> is_integer a" and m: "signed_rf_mode a = kZeroClampMinusOne"
    and wd: "wd = 2 \<or> wd = 8 \<or> wd = 10 \<or> wd = 11 \<or> wd = 16"
    and c: "sint x = - (2 ^ (wd - 1)) \<or> sint x = - (2 ^ (wd - 1) - 1)"
  shows "component_value a wd (x :: u32) = - 1"
proof -
  have cong: "component_value a wd x = component_value (example_attributes\<lparr>is_signed := True\<rparr>) wd x"
    by (rule component_value_cong) (simp_all add: s n m example_attributes_def)
  from wd c have "(wd = 2 \<and> (x = - 2 \<or> x = - 1)) \<or> (wd = 8 \<and> (x = - 128 \<or> x = - 127))
      \<or> (wd = 10 \<and> (x = - 512 \<or> x = - 511)) \<or> (wd = 11 \<and> (x = - 1024 \<or> x = - 1023))
      \<or> (wd = 16 \<and> (x = - 32768 \<or> x = - 32767))"
    by (auto dest!: word_of_sint)
  then show ?thesis unfolding cong using clamp_codes by auto
qed

lemma list_ex_map_False: "(\<And>x. \<not> P (g x)) \<Longrightarrow> \<not> list_ex P (map g xs)"
  by (induction xs) simp_all

lemma list_ex_replicate_False: "\<not> P c \<Longrightarrow> \<not> list_ex P (replicate n c)"
  by (induction n) simp_all

lemma no_fmax_address: "\<not> calls_builtin GLSLstd450FMax (vfetch_address instr)"
  by (simp add: vfetch_address_def vfetch_base_address_def vfetch_index_def Let_def
      fetch_constant_word_def const_int_0_def)

lemma no_fmax_load_word:
  "\<not> calls_builtin GLSLstd450FMax (load_word (attributes instr) (vfetch_address instr) j)"
  using no_fmax_address [of instr] by (simp add: load_word_def Let_def)

lemma no_fmax_words:
  assumes "nw \<noteq> 0"
  shows "\<not> calls_builtin GLSLstd450FMax (vfetch_words instr nw)"
proof -
  define cs where "cs = map (load_word (attributes instr) (vfetch_address instr)) (set_bits nw)"
  have ex: "\<not> list_ex (calls_builtin GLSLstd450FMax) cs"
    unfolding cs_def by (rule list_ex_map_False) (rule no_fmax_load_word)
  have "cs \<noteq> []" using set_bits_nonempty [OF assms] by (simp add: cs_def)
  then have hd: "\<not> calls_builtin GLSLstd450FMax (hd cs)" using ex by (cases cs) simp_all
  show ?thesis
    using ex hd
    by (simp add: vfetch_words_def Let_def vfetch_load_words_snd cs_def [symmetric]
        fetch_constant_word_def const_int_0_def)
qed

lemma wide_format_no_fmax:
  assumes f: "data_format (attributes instr) = k_32 \<or> data_format (attributes instr) = k_32_32
              \<or> data_format (attributes instr) = k_32_32_32_32"
    and nz: "nw \<noteq> 0"
  shows "\<exists>d. vfetch_convert instr nw = Some d \<and> \<not> calls_builtin GLSLstd450FMax d"
proof -
  have "\<not> calls_builtin GLSLstd450FMax (convert_32 (attributes instr) rt n (vfetch_words instr nw))"
    for rt n
    using no_fmax_words [OF nz, of instr]
    by (simp add: convert_32_def Let_def list_ex_replicate_False
        split: SignedRepeatingFractionMode.split)
  then show ?thesis using f by (auto simp: vfetch_convert_def Let_def)
qed

subsection \<open>Words of the components of a packed format\<close>

lemma bit_and_nonzero: "bit (m :: u32) i \<Longrightarrow> bit k i \<Longrightarrow> m AND k \<noteq> 0"
proof
  assume m: "bit m i" and k: "bit k i" and z: "m AND k = 0"
  from m k have "bit (m AND k) i" by (simp only: bit_and_iff)
  then have "bit (0 :: u32) i" by (simp only: z)
  then show False by simp
qed

lemma bits_of_3: "bit (3 :: u32) 0" "bit (3 :: u32) 1"
  by simp_all

lemma bits_of_12: "bit (12 :: u32) 2" "bit (12 :: u32) 3"
  by code_simp+

lemma loaded_word_is_element_word:
  assumes packed: "format_is_packed (data_format (attributes instr))"
    and nw: "nw = GetVertexFormatNeededWords (data_format (attributes instr))
                    (GetUsedResultComponents (result instr))"
    and nz: "nw \<noteq> 0"
    and i: "bit (used_format_components instr) i"
  shows "loaded_component_word (map g (set_bits nw)) (data_format (attributes instr)) i =
         g (packed_words (data_format (attributes instr)) ! i)"
proof -
  let ?f = "data_format (attributes instr)"
  let ?m = "GetUsedResultComponents (result instr)"
  from i have bm: "bit ?m i" and icc: "i < GetVertexFormatComponentCount ?f"
    by (simp_all add: used_format_bit)
  from icc component_count_le_4 [of ?f] have "i < 4" by simp
  then have i4: "i = 0 \<or> i = 1 \<or> i = 2 \<or> i = 3" by auto
  note ok = packed_field_ok [OF packed icc]
  from ok(3) have pw: "packed_words ?f ! i = 0 \<or> packed_words ?f ! i = 1" by auto
  from packed_needed_words [OF packed nz [unfolded nw]]
  have "nw = 1 \<or> ?f = k_16_16_16_16 \<and> (nw = 2 \<or> nw = 3)" by (simp add: nw)
  then consider (one) "nw = 1" | (two) "?f = k_16_16_16_16" "nw = 2" | (three) "nw = 3" by auto
  then show ?thesis
  proof cases
    case one
    have "packed_words ?f ! i = 0"
    proof (cases "?f = k_16_16_16_16")
      case True
      from one nw True have m12: "?m AND 12 = 0"
        by (auto simp: mask_if_def split: if_splits)
      have "i = 0 \<or> i = 1"
      proof (rule ccontr)
        assume "\<not> (i = 0 \<or> i = 1)"
        with i4 have "i = 2 \<or> i = 3" by auto
        then have "bit (12 :: u32) i" using bits_of_12 by auto
        from bit_and_nonzero [OF bm this] m12 show False by simp
      qed
      then show ?thesis using True by auto
    next
      case False
      then show ?thesis using i4 packed by (cases ?f) auto
    qed
    then show ?thesis by (simp add: one set_bits_1 loaded_component_word_def)
  next
    case two
    from two nw have m3: "?m AND 3 = 0"
      by (auto simp: mask_if_def split: if_splits)
    have "i = 2 \<or> i = 3"
    proof (rule ccontr)
      assume "\<not> (i = 2 \<or> i = 3)"
      with i4 have "i = 0 \<or> i = 1" by auto
      then have "bit (3 :: u32) i" using bits_of_3 by auto
      from bit_and_nonzero [OF bm this] m3 show False by simp
    qed
    then have "packed_words ?f ! i = 1" using two(1) by auto
    then show ?thesis by (simp add: two(2) set_bits_2 loaded_component_word_def)
  next
    case three
    from pw show ?thesis by (auto simp: three set_bits_3 loaded_component_word_def)
  qed
qed

lemma packed_layout_table:
  assumes "format_is_packed f" and "i < GetVertexFormatComponentCount f"
  shows "(packed_words f ! i, packed_offsets f ! i, packed_widths f ! i) =
         (case f of
            k_8_8_8_8 \<Rightarrow> [(0, 0, 8), (0, 8, 8), (0, 16, 8), (0, 24, 8)]
          | k_2_10_10_10 \<Rightarrow> [(0, 0, 10), (0, 10, 10), (0, 20, 10), (0, 30, 2)]
          | k_10_11_11 \<Rightarrow> [(0, 0, 11), (0, 11, 11), (0, 22, 10)]
          | k_11_11_10 \<Rightarrow> [(0, 0, 10), (0, 10, 11), (0, 21, 11)]
          | k_16_16 \<Rightarrow> [(0, 0, 16), (0, 16, 16)]
          | k_16_16_16_16 \<Rightarrow> [(0, 0, 16), (0, 16, 16), (1, 0, 16), (1, 16, 16)]
          | _ \<Rightarrow> []) ! i"
proof -
  from assms have "i < 4" by (cases f) simp_all
  then have i: "i = 0 \<or> i = 1 \<or> i = 2 \<or> i = 3" by auto
  from assms i show ?thesis by (cases f) auto
qed

subsection \<open>Evaluation of the 32-bit integer conversion\<close>

lemma eval_scaled_words:
  assumes cv: "eval E conv = Some (map F xs)"
  shows "eval E (Decorated (BinOp OpVectorTimesScalar rt conv (FloatConstant c))
                   DecorationNoContraction) =
         Some (map F (map (\<lambda>x. fmul x c) xs))"
proof -
  have "eval E (BinOp OpVectorTimesScalar rt conv (FloatConstant c)) =
        lift_binop OpVectorTimesScalar (map F xs) (map F [c])"
    using cv eval_FloatConstant by (rule eval_BinOp)
  also have "\<dots> = Some (map (\<lambda>x. F (fmul x c)) xs)"
    using lift_vts [of xs c] by simp
  finally show ?thesis by (simp add: eval_Decorated comp_def)
qed

lemma eval_biased_words:
  assumes sc: "eval E scaled = Some (map F ys)" and ly: "length ys = n" and n: "0 < n"
  shows "eval E (Decorated (BinOp OpFAdd rt scaled
                   (if 1 < n then CompositeConstant rt (replicate n (FloatConstant c))
                    else FloatConstant c)) DecorationNoContraction) =
         Some (map F (map (\<lambda>y. fadd y c) ys))"
proof -
  define zs where "zs = replicate n c"
  have lz: "length zs = n" by (simp add: zs_def)
  have z0: "zs ! 0 = c" using n by (simp add: zs_def)
  have mz: "map FloatConstant zs = replicate n (FloatConstant c)"
    by (simp add: zs_def map_replicate)
  have "eval E (if 1 < n then CompositeConstant rt (map FloatConstant zs)
                else FloatConstant (zs ! 0)) = Some (map F zs)"
    using lz n by (rule eval_float_vector_constant)
  then have ec: "eval E (if 1 < n then CompositeConstant rt (replicate n (FloatConstant c))
                         else FloatConstant c) = Some (map F zs)"
    unfolding mz z0 .
  have "eval E (BinOp OpFAdd rt scaled
                   (if 1 < n then CompositeConstant rt (replicate n (FloatConstant c))
                    else FloatConstant c)) =
        lift_binop OpFAdd (map F ys) (map F zs)"
    using sc ec by (rule eval_BinOp)
  also have "\<dots> = Some (map (\<lambda>(x, y). F (fadd x y)) (zip ys zs))"
    by (rule lift_fadd) (simp add: ly lz)
  also have "map (\<lambda>(x, y). F (fadd x y)) (zip ys zs) = map F (map (\<lambda>y. fadd y c) ys)"
    by (auto intro!: nth_equalityI simp: ly lz zs_def)
  finally show ?thesis by (simp add: eval_Decorated)
qed

lemma eval_convert_32:
  assumes ew: "eval E words = Some (map W ws)"
    and lw: "length ws = n" and n: "0 < n" and ni: "\<not> is_integer a"
  shows "eval E (convert_32 a rt n words) =
         Some (map (\<lambda>w. F (if is_signed a
                            then (case signed_rf_mode a of
                                    kZeroClampMinusOne \<Rightarrow>
                                      fmul (float_of_int w)
                                        (fdiv (float_literal 1) (float_literal 2147483647))
                                  | kNoZero \<Rightarrow>
                                      fadd (fmul (float_of_int w)
                                              (fdiv (float_literal 1)
                                                 (float_literal (2147483647 + 1 / 2))))
                                        (fdiv (float_literal (1 / 2))
                                           (float_literal (2147483647 + 1 / 2))))
                            else fmul (float_of_uint w)
                                   (fdiv (float_literal 1) (float_literal 4294967295)))) ws)"
proof (cases "is_signed a")
  case True
  define conv where
    "conv = UnaryOp OpConvertSToF rt (UnaryOp OpBitcast (type_int_vectors (n - 1)) words)"
  have "eval E (UnaryOp OpBitcast (type_int_vectors (n - 1)) words) =
        lift_unop OpBitcast (type_int_vectors (n - 1)) (map W ws)"
    using ew by (rule eval_UnaryOp)
  also have "\<dots> = Some (map W ws)"
    by (rule lift_unop_words) (simp add: type_int_vectors_def)
  finally have eb: "eval E (UnaryOp OpBitcast (type_int_vectors (n - 1)) words) = Some (map W ws)" .
  have "eval E conv = lift_unop OpConvertSToF rt (map W ws)"
    unfolding conv_def using eb by (rule eval_UnaryOp)
  also have "\<dots> = Some (map (\<lambda>w. F (float_of_int w)) ws)"
    by (rule lift_unop_words) simp
  finally have ec: "eval E conv = Some (map F (map float_of_int ws))" by (simp add: comp_def)
  show ?thesis
  proof (cases "signed_rf_mode a")
    case kZeroClampMinusOne
    have "convert_32 a rt n words =
          Decorated (BinOp OpVectorTimesScalar rt conv
                       (FloatConstant (fdiv (float_literal 1) (float_literal 2147483647))))
            DecorationNoContraction"
      using True ni kZeroClampMinusOne by (simp add: convert_32_def conv_def)
    then show ?thesis
      using eval_scaled_words [OF ec] True kZeroClampMinusOne by (simp add: comp_def)
  next
    case kNoZero
    define scaled where
      "scaled = Decorated (BinOp OpVectorTimesScalar rt conv
                  (FloatConstant (fdiv (float_literal 1) (float_literal (2147483647 + 1 / 2)))))
                  DecorationNoContraction"
    define ys where
      "ys = map (\<lambda>x. fmul x (fdiv (float_literal 1) (float_literal (2147483647 + 1 / 2))))
              (map float_of_int ws)"
    have es: "eval E scaled = Some (map F ys)"
      unfolding scaled_def ys_def using ec by (rule eval_scaled_words)
    have ly: "length ys = n" by (simp add: ys_def lw)
    have "convert_32 a rt n words =
          Decorated (BinOp OpFAdd rt scaled
             (if 1 < n
              then CompositeConstant rt
                     (replicate n (FloatConstant (fdiv (float_literal (1 / 2))
                                                    (float_literal (2147483647 + 1 / 2)))))
              else FloatConstant (fdiv (float_literal (1 / 2))
                                    (float_literal (2147483647 + 1 / 2)))))
            DecorationNoContraction"
      using True ni kNoZero by (simp add: convert_32_def conv_def scaled_def Let_def)
    then show ?thesis
      using eval_biased_words [OF es ly n] True kNoZero by (simp add: comp_def ys_def)
  qed
next
  case False
  define conv where "conv = UnaryOp OpConvertUToF rt words"
  have "eval E conv = lift_unop OpConvertUToF rt (map W ws)"
    unfolding conv_def using ew by (rule eval_UnaryOp)
  also have "\<dots> = Some (map (\<lambda>w. F (float_of_uint w)) ws)"
    by (rule lift_unop_words) simp
  finally have ec: "eval E conv = Some (map F (map float_of_uint ws))" by (simp add: comp_def)
  have "convert_32 a rt n words =
        Decorated (BinOp OpVectorTimesScalar rt conv
                     (FloatConstant (fdiv (float_literal 1) (float_literal 4294967295))))
          DecorationNoContraction"
    using False ni by (simp add: convert_32_def conv_def)
  then show ?thesis
    using eval_scaled_words [OF ec] False by (simp add: comp_def)
qed

lemma wide_used_is_needed:
  assumes "data_format (attributes instr) = k_32 \<or> data_format (attributes instr) = k_32_32
           \<or> data_format (attributes instr) = k_32_32_32_32"
  shows "used_format_components instr =
         GetVertexFormatNeededWords (data_format (attributes instr))
           (GetUsedResultComponents (result instr))"
  using assms by (auto simp: used_format_components_def)

lemma most_negative_word_scaled:
  "fmul (float_of_int (- (2 ^ 31))) (fdiv (float_literal 1) (float_literal 2147483647)) = - 1"
  by code_simp

subsection \<open>Evaluation of the index\<close>

lemma eval_floor_to_int:
  assumes x: "eval E index = Some [F y]"
    and lo: "- (2 ^ 31) \<le> \<lfloor>y\<rfloor>" and hi: "\<lfloor>y\<rfloor> < 2 ^ 31"
  shows "eval E (UnaryOp OpConvertFToS type_int (BuiltinCall type_float GLSLstd450Floor [index])) =
         Some [W (word_of_int \<lfloor>y\<rfloor>)]"
proof -
  have fl: "eval E (BuiltinCall type_float GLSLstd450Floor [index]) =
            Some [F (of_int \<lfloor>y\<rfloor>)]"
    using x by (simp add: builtin_def)
  have "float_to_sint (of_int \<lfloor>y\<rfloor>) = Some (word_of_int \<lfloor>y\<rfloor>)"
    using lo hi by (simp add: float_to_sint_def)
  then show ?thesis
    using fl by (simp add: lift_unop_def del: eval.simps(11)) 
qed

lemma eval_rounded_index:
  assumes "operand_components E (operands_0 instr) 1 = Some [F x]"
  shows "eval E (let index = OperandComponents (operands_0 instr) 1
                 in if is_index_rounded (attributes instr)
                    then Decorated (BinOp OpFAdd type_float index
                                      (FloatConstant (float_literal (1 / 2))))
                           DecorationNoContraction
                    else index) =
         Some [F (if is_index_rounded (attributes instr) then fadd x (float_literal (1 / 2))
                  else x)]"
  using assms by (simp add: lift_binop_def)

lemma eval_vfetch_index:
  assumes op: "operand_components E (operands_0 instr) 1 = Some [F x]"
    and y: "y = (if is_index_rounded (attributes instr) then fadd x (float_literal (1 / 2))
                 else x)"
    and lo: "- (2 ^ 31) \<le> \<lfloor>y\<rfloor>" and hi: "\<lfloor>y\<rfloor> < 2 ^ 31"
    and st: "stride (attributes instr) \<noteq> 0"
  shows "eval E (vfetch_index instr) =
         Some [W (stride (attributes instr) * word_of_int \<lfloor>y\<rfloor>)]"
proof -
  define index where
    "index = (let index = OperandComponents (operands_0 instr) 1
              in if is_index_rounded (attributes instr)
                 then Decorated (BinOp OpFAdd type_float index
                                   (FloatConstant (float_literal (1 / 2))))
                        DecorationNoContraction
                 else index)"
  define conv where
    "conv = UnaryOp OpConvertFToS type_int (BuiltinCall type_float GLSLstd450Floor [index])"
  have ei: "eval E index = Some [F y]"
    unfolding index_def y using op by (rule eval_rounded_index)
  have ec: "eval E conv = Some [W (word_of_int \<lfloor>y\<rfloor>)]"
    unfolding conv_def using ei lo hi by (rule eval_floor_to_int)
  have vi: "vfetch_index instr =
            (if 1 < stride (attributes instr)
             then BinOp OpIMul type_int conv (IntConstant (stride (attributes instr)))
             else conv)"
    by (simp add: vfetch_index_def conv_def index_def Let_def)
  show ?thesis
  proof (cases "1 < stride (attributes instr)")
    case True
    have "eval E (BinOp OpIMul type_int conv (IntConstant (stride (attributes instr)))) =
          lift_binop OpIMul [W (word_of_int \<lfloor>y\<rfloor>)] [W (stride (attributes instr))]"
      using ec by (rule eval_BinOp) simp
    then show ?thesis using True by (simp add: vi lift_binop_def mult.commute)
  next
    case False
    from st have "unat (stride (attributes instr)) \<noteq> 0" by (simp add: unat_eq_0)
    moreover from False have "\<not> 1 < unat (stride (attributes instr))"
      by (simp add: word_less_nat_alt)
    ultimately have "unat (stride (attributes instr)) = 1" by linarith
    then have "unat (stride (attributes instr)) = unat (1 :: u32)" by simp
    then have "stride (attributes instr) = 1" by (simp only: word_unat_eq_iff [symmetric])
    then show ?thesis using ec by (simp add: vi)
  qed
qed

subsection \<open>Definedness of the conversion and order of the components\<close>

lemma used_within_15: "used_format_components instr AND 15 = used_format_components instr"
proof (rule bit_eqI)
  fix i
  have "bit (15 :: u32) i \<longleftrightarrow> i < 4"
  proof -
    have e: "mask 4 = (15 :: u32)" by (simp add: mask_eq_exp_minus_1)
    have "bit (mask 4 :: u32) i \<longleftrightarrow> i < 4" by (auto simp: bit_mask_iff)
    then show ?thesis by (simp only: e)
  qed
  moreover have "bit (used_format_components instr) i \<Longrightarrow> i < 4"
    using component_count_le_4 [of "data_format (attributes instr)"]
    by (simp add: used_format_bit)
  ultimately show "bit (used_format_components instr AND 15) i =
                   bit (used_format_components instr) i"
    by (auto simp: bit_and_iff)
qed

lemma drop_2_and_3: "drop_bit 2 (u :: u32) AND 3 = 0 \<longleftrightarrow> u AND 12 = 0"
proof -
  have 3: "(3 :: u32) = mask 2" by (simp add: mask_eq_exp_minus_1)
  have 12: "(12 :: u32) = push_bit 2 (mask 2)" by (simp add: mask_eq_exp_minus_1)
  have "drop_bit 2 u AND mask 2 = 0 \<longleftrightarrow> u AND push_bit 2 (mask 2) = 0"
  proof
    assume z: "drop_bit 2 u AND mask 2 = 0"
    show "u AND push_bit 2 (mask 2) = 0"
    proof (rule bit_eqI)
      fix i
      have "\<not> (bit u i \<and> 2 \<le> i \<and> i - 2 < 2)"
      proof
        assume a: "bit u i \<and> 2 \<le> i \<and> i - 2 < 2"
        then obtain j where j: "i = 2 + j" using le_Suc_ex by blast
        with a have "bit u (2 + j)" "j < 2" by simp_all
        then have "bit (drop_bit 2 u AND mask 2) j"
          by (simp add: bit_and_iff bit_drop_bit_eq bit_mask_iff)
        then show False by (simp add: z)
      qed
      then show "bit (u AND push_bit 2 (mask 2)) i = bit (0 :: u32) i"
        by (auto simp: bit_and_iff bit_push_bit_iff bit_mask_iff)
    qed
  next
    assume z: "u AND push_bit 2 (mask 2) = 0"
    show "drop_bit 2 u AND mask 2 = 0"
    proof (rule bit_eqI)
      fix i
      have "\<not> (bit u (2 + i) \<and> i < 2)"
      proof
        assume a: "bit u (2 + i) \<and> i < 2"
        then have "bit (u AND push_bit 2 (mask 2)) (2 + i)"
          by (auto simp: bit_and_iff bit_push_bit_iff bit_mask_iff dest: bit_imp_possible_bit)
        then show False by (simp add: z)
      qed
      then show "bit (drop_bit 2 u AND mask 2) i = bit (0 :: u32) i"
        by (auto simp: bit_and_iff bit_drop_bit_eq bit_mask_iff)
    qed
  qed
  then show ?thesis by (simp only: 3 12)
qed

lemma convert_half_defined:
  assumes "used_format_components instr \<noteq> 0"
  shows "\<exists>d. convert_half rt words wc idx (used_format_components instr) = Some d"
proof -
  let ?u = "used_format_components instr"
  have "?u AND 15 \<noteq> 0" using assms by (simp add: used_within_15)
  then have "?u AND 3 \<noteq> 0 \<or> ?u AND 12 \<noteq> 0"
    by (simp add: and_15_zero_iff)
  then have "?u AND 3 \<noteq> 0 \<or> drop_bit 2 ?u AND 3 \<noteq> 0"
    by (simp add: drop_2_and_3)
  then show ?thesis
    by (auto simp: convert_half_def half_word_value_def Let_def split: option.splits)
qed

lemma vfetch_convert_defined:
  assumes "used_format_components instr \<noteq> 0"
  shows "\<exists>d. vfetch_convert instr nw = Some d"
proof (cases "format_is_packed (data_format (attributes instr))")
  case True
  then show ?thesis by (simp add: vfetch_convert_packed)
next
  case False
  have u: "data_format (attributes instr) \<noteq> kUndefined"
  proof
    assume "data_format (attributes instr) = kUndefined"
    then have "used_format_components instr = 0"
      by (simp add: used_format_components_def)
    with assms show False by simp
  qed
  show ?thesis
  proof (cases "data_format (attributes instr) = k_16_16_FLOAT
                \<or> data_format (attributes instr) = k_16_16_16_16_FLOAT")
    case True
    then show ?thesis
      using False convert_half_defined [OF assms]
      by (auto simp: vfetch_convert_def Let_def)
  next
    case h: False
    show ?thesis using False u h
      by (cases "data_format (attributes instr)") (simp_all add: vfetch_convert_def Let_def)
  qed
qed

lemma requested_order:
  "set_bits (GetUsedResultComponents (result instr)) =
   set_bits (used_format_components instr) @
   set_bits (GetUsedResultComponents (result instr) AND NOT (used_format_components instr))"
proof -
  let ?m = "GetUsedResultComponents (result instr)"
  let ?u = "used_format_components instr"
  let ?c = "GetVertexFormatComponentCount (data_format (attributes instr))"
  have c: "?c \<le> 32" using component_count_le_4 [of "data_format (attributes instr)"] by simp
  have sp: "[0..<32] = [0..<?c] @ [?c..<32]"
    using c by (metis le_add_diff_inverse upt_add_eq_append zero_le)
  have u1: "filter (bit ?u) [0..<?c] = filter (bit ?m) [0..<?c]"
    by (rule filter_cong [OF refl]) (simp add: used_format_bit)
  have u2: "filter (bit ?u) [?c..<32] = []"
    by (simp add: filter_empty_conv used_format_bit)
  have m1: "filter (bit (?m AND NOT ?u)) [0..<?c] = []"
    by (simp add: filter_empty_conv bit_and_iff bit_not_iff used_format_bit)
  have m2: "filter (bit (?m AND NOT ?u)) [?c..<32] = filter (bit ?m) [?c..<32]"
    by (rule filter_cong [OF refl]) (auto simp: bit_and_iff bit_not_iff used_format_bit)
  have "set_bits ?m = filter (bit ?m) [0..<?c] @ filter (bit ?m) [?c..<32]"
    unfolding set_bits_def by (subst sp) (simp only: filter_append)
  moreover have "set_bits ?u = filter (bit ?m) [0..<?c]"
    unfolding set_bits_def by (subst sp) (simp only: filter_append u1 u2 append_Nil2)
  moreover have "set_bits (?m AND NOT ?u) = filter (bit ?m) [?c..<32]"
    unfolding set_bits_def by (subst sp) (simp only: filter_append m1 m2 append_Nil)
  ultimately show ?thesis by simp
qed

subsection \<open>Resource binding layout\<close>

text \<open>
  C8. The enumeration gives the eight resource-binding groups the slot indices 0 to 7
  in declaration order (fetch constants, vertex float constants, pixel float constants,
  pixel textures, vertex textures, system constants, bool/loop constants, shared
  memory and EDRAM), and the closing enumerator \<^verbatim>\<open>kDescriptorSetCount\<close> is 8.
\<close>

theorem descriptor_set_slots:
  "DescriptorSet_value kDescriptorSetFetchConstants = Some 0
   \<and> DescriptorSet_value kDescriptorSetFloatConstantsVertex = Some 1
   \<and> DescriptorSet_value kDescriptorSetFloatConstantsPixel = Some 2
   \<and> DescriptorSet_value kDescriptorSetTexturesPixel = Some 3
   \<and> DescriptorSet_value kDescriptorSetTexturesVertex = Some 4
   \<and> DescriptorSet_value kDescriptorSetSystemConstants = Some 5
   \<and> DescriptorSet_value kDescriptorSetBoolLoopConstants = Some 6
   \<and> DescriptorSet_value kDescriptorSetSharedMemoryAndEdram = Some 7
   \<and> DescriptorSet_value kDescriptorSetCount = Some 8"
  by (simp add: DescriptorSet_value_def DescriptorSet_enumerators_def)

subsection \<open>Fetches that need no word\<close>

text \<open>
  C7, as the code has it. When the requested components need no storage word, the
  translator makes two calls only: the predication update that every vertex fetch
  starts with, and one \<^verbatim>\<open>StoreResult\<close> with \<^verbatim>\<open>spv::NoResult\<close>. It does not ask for a
  build point and emits no instruction: no fetch constant read, no address
  computation, no shared memory load.
\<close>

theorem no_needed_words_calls:
  assumes "GetVertexFormatNeededWords (data_format (attributes instr))
             (GetUsedResultComponents (result instr)) = 0"
  shows "ProcessVertexFetchInstruction instr =
           [UpdateInstructionPredication (is_predicated instr) (predicate_condition instr),
            StoreResult (result instr) None]"
  using assms by (simp add: ProcessVertexFetchInstruction_def)

theorem no_needed_words_calls_witness:
  "GetVertexFormatNeededWords
     (data_format (attributes (example_fetch (example_attributes\<lparr>data_format := k_16_16\<rparr>) 12)))
     (GetUsedResultComponents
        (result (example_fetch (example_attributes\<lparr>data_format := k_16_16\<rparr>) 12))) = 0
   \<and> ProcessVertexFetchInstruction
         (example_fetch (example_attributes\<lparr>data_format := k_16_16\<rparr>) 12) =
       [UpdateInstructionPredication True False, StoreResult \<lparr>used_result_components = 12\<rparr> None]"
proof -
  have h: "GetVertexFormatNeededWords
     (data_format (attributes (example_fetch (example_attributes\<lparr>data_format := k_16_16\<rparr>) 12)))
     (GetUsedResultComponents
        (result (example_fetch (example_attributes\<lparr>data_format := k_16_16\<rparr>) 12))) = 0"
    by (simp add: example_fetch_def example_attributes_def GetUsedResultComponents_def
        mask_if_def)
  show ?thesis
    using h no_needed_words_calls [OF h] by (simp add: example_fetch_def)
qed

text \<open>
  C7 as the claim words it fails: the \<^verbatim>\<open>StoreResult\<close> call is not the only call, the
  predication update comes first. A predicated fetch of components Z and W from the
  two-component format \<^verbatim>\<open>k_16_16\<close> shows it.
\<close>

theorem store_result_not_only_call:
  "GetVertexFormatNeededWords
     (data_format (attributes (example_fetch (example_attributes\<lparr>data_format := k_16_16\<rparr>) 12)))
     (GetUsedResultComponents
        (result (example_fetch (example_attributes\<lparr>data_format := k_16_16\<rparr>) 12))) = 0
   \<and> ProcessVertexFetchInstruction
         (example_fetch (example_attributes\<lparr>data_format := k_16_16\<rparr>) 12) \<noteq>
       [StoreResult (result (example_fetch (example_attributes\<lparr>data_format := k_16_16\<rparr>) 12))
          None]"
  by (simp add: ProcessVertexFetchInstruction_def example_fetch_def example_attributes_def
      GetUsedResultComponents_def mask_if_def)

subsection \<open>Packed formats\<close>

text \<open>
  C1. An unsigned, normalized fetch of all four components of \<^verbatim>\<open>k_2_10_10_10\<close> whose
  loaded word has every field at its maximum (1023, 1023, 1023 and 3, the word
  \<open>0xFFFFFFFF\<close>) decodes to exactly \<open>(1, 1, 1, 1)\<close>: each field times the binary32
  reciprocal of its maximum rounds to one. This is the value the format conversion
  leaves in \<^verbatim>\<open>result\<close>, and it is the value stored when the exponent bias is zero.
\<close>

theorem unsigned_2_10_10_10_max_is_one:
  assumes f: "data_format (attributes instr) = k_2_10_10_10"
    and u: "\<not> is_signed (attributes instr)" and n: "\<not> is_integer (attributes instr)"
    and m: "GetUsedResultComponents (result instr) = 15"
    and w: "eval E (vfetch_words instr 1) = Some [W 0xFFFFFFFF]"
  shows "\<exists>decoded. vfetch_convert instr 1 = Some decoded
           \<and> eval E decoded = Some [F 1, F 1, F 1, F 1]
           \<and> (exp_adjust (attributes instr) = 0 \<longrightarrow>
                ProcessVertexFetchInstruction instr =
                  [UpdateInstructionPredication (is_predicated instr) (predicate_condition instr),
                   EnsureBuildPointAvailable,
                   StoreResult (result instr) (Some decoded)])"
proof -
  let ?a = "attributes instr"
  have packed: "format_is_packed (data_format ?a)" by (simp add: f)
  have nw: "1 = GetVertexFormatNeededWords (data_format ?a) (GetUsedResultComponents (result instr))"
    by (simp add: f m mask_if_def)
  have used: "used_format_components instr = 15"
    by (simp add: used_format_components_def f m)
  from w have w': "eval E (vfetch_words instr 1) = Some (map W [0xFFFFFFFF])" by simp
  from eval_vfetch_convert_packed [OF packed nw _ w']
  obtain decoded where d: "vfetch_convert instr 1 = Some decoded"
    and e: "eval E decoded = Some (map (\<lambda>i. F (packed_component ?a [0xFFFFFFFF] i)) [0, 1, 2, 3])"
    by (auto simp: used filter_bit_15)
  have c: "packed_component ?a [0xFFFFFFFF] i =
           packed_component (example_attributes\<lparr>data_format := k_2_10_10_10\<rparr>) [0xFFFFFFFF] i" for i
    by (rule packed_component_cong) (simp_all add: f u n example_attributes_def)
  have v: "map (\<lambda>i. F (packed_component ?a [0xFFFFFFFF] i)) [0, 1, 2, 3] = [F 1, F 1, F 1, F 1]"
    using max_2_10_10_10 by (simp add: c)
  have p: "exp_adjust ?a = 0 \<Longrightarrow> vfetch_result instr 1 = Some decoded"
    by (simp add: vfetch_result_def d apply_exp_adjust_def pad_missing_def used m)
  from process_with_words [OF nw] p have
    "exp_adjust ?a = 0 \<longrightarrow> ProcessVertexFetchInstruction instr =
       [UpdateInstructionPredication (is_predicated instr) (predicate_condition instr),
        EnsureBuildPointAvailable, StoreResult (result instr) (Some decoded)]"
    by simp
  with d e v show ?thesis by simp
qed

theorem unsigned_2_10_10_10_max_is_one_witness:
  "\<exists>decoded.
     vfetch_convert (example_fetch (example_attributes\<lparr>data_format := k_2_10_10_10\<rparr>) 15) 1 =
       Some decoded
     \<and> eval (example_env 0xFFFFFFFF 0) decoded = Some [F 1, F 1, F 1, F 1]
     \<and> (exp_adjust (attributes (example_fetch (example_attributes\<lparr>data_format := k_2_10_10_10\<rparr>) 15)) = 0 \<longrightarrow>
          ProcessVertexFetchInstruction
            (example_fetch (example_attributes\<lparr>data_format := k_2_10_10_10\<rparr>) 15) =
          [UpdateInstructionPredication
             (is_predicated (example_fetch (example_attributes\<lparr>data_format := k_2_10_10_10\<rparr>) 15))
             (predicate_condition (example_fetch (example_attributes\<lparr>data_format := k_2_10_10_10\<rparr>) 15)),
           EnsureBuildPointAvailable,
           StoreResult (result (example_fetch (example_attributes\<lparr>data_format := k_2_10_10_10\<rparr>) 15))
             (Some decoded)])"
proof (rule unsigned_2_10_10_10_max_is_one)
  show "data_format (attributes (example_fetch (example_attributes\<lparr>data_format := k_2_10_10_10\<rparr>) 15)) =
        k_2_10_10_10"
    by (simp add: example_fetch_def)
  show "\<not> is_signed (attributes (example_fetch (example_attributes\<lparr>data_format := k_2_10_10_10\<rparr>) 15))"
    by (simp add: example_fetch_def example_attributes_def)
  show "\<not> is_integer (attributes (example_fetch (example_attributes\<lparr>data_format := k_2_10_10_10\<rparr>) 15))"
    by (simp add: example_fetch_def example_attributes_def)
  show "GetUsedResultComponents
          (result (example_fetch (example_attributes\<lparr>data_format := k_2_10_10_10\<rparr>) 15)) = 15"
    by (simp add: example_fetch_def GetUsedResultComponents_def)
  show "eval (example_env 0xFFFFFFFF 0)
          (vfetch_words (example_fetch (example_attributes\<lparr>data_format := k_2_10_10_10\<rparr>) 15) 1) =
        Some [W 0xFFFFFFFF]"
    by code_simp
qed

text \<open>
  C3, at an input where the code departs from it. For \<^verbatim>\<open>k_8_8_8_8\<close>, unsigned and
  normalized, with all four components requested, every field is 8 bits wide, yet
  \<^verbatim>\<open>packed_scales_same\<close> is false and the multiplication is an \<^verbatim>\<open>OpFMul\<close> by a
  composite constant of four equal scales, not an \<^verbatim>\<open>OpVectorTimesScalar\<close> by one scalar.
  The loop's first round compares \<^verbatim>\<open>extracted_widths[0]\<close> with itself using
  \<^verbatim>\<open>!=\<close>, so the flag is false after it for every fetch (lemma
  \<open>packed_scales_same_never\<close>).
\<close>

theorem equal_widths_use_composite_scale:
  "\<not> packed_scales_same [8, 8, 8, 8]
   \<and> ProcessVertexFetchInstruction (example_fetch example_attributes 15) =
     [UpdateInstructionPredication True False, EnsureBuildPointAvailable,
      StoreResult \<lparr>used_result_components = 15\<rparr>
        (Some (Decorated
           (BinOp OpFMul (TFloat 4)
              (UnaryOp OpConvertUToF (TFloat 4)
                 (CompositeConstruct (TUint 4)
                    (extracted_components
                       (extract_packed example_attributes
                          (vfetch_words (example_fetch example_attributes 15) 1) 1
                          [0, 0, 0, 0] 15))))
              (CompositeConstant (TFloat 4)
                 [FloatConstant (fdiv (float_literal 1) (float_literal 255)),
                  FloatConstant (fdiv (float_literal 1) (float_literal 255)),
                  FloatConstant (fdiv (float_literal 1) (float_literal 255)),
                  FloatConstant (fdiv (float_literal 1) (float_literal 255))]))
           DecorationNoContraction))]"
  by code_simp

text \<open>
  C5. A signed, normalized fetch of \<^verbatim>\<open>k_16_16\<close> in the no-zero mode decodes the signed
  16-bit field \<open>n\<close> of each requested component to \<open>n * s + 0.5 * s\<close> in binary32, with
  \<open>s\<close> the binary32 quotient \<open>1 / 32767.5\<close>, and none of these values is zero, for every
  loaded word. The stored vector holds these values after the exponent bias, followed
  by the zeros that pad requested components the format lacks. For a bias exponent in
  the range of the instruction field, \<open>-32\<close> to \<open>31\<close>, the biased values stay normal
  binary32 numbers and none of them is zero; a bias constant that underflows, such as
  \<^verbatim>\<open>std::ldexp(1.0f, -150)\<close>, is outside the statement.
\<close>

theorem signed_16_16_no_zero_is_nonzero:
  assumes f: "data_format (attributes instr) = k_16_16"
    and s: "is_signed (attributes instr)" and n: "\<not> is_integer (attributes instr)"
    and m: "signed_rf_mode (attributes instr) = kNoZero"
    and r: "GetUsedResultComponents (result instr) AND 3 \<noteq> 0"
    and w: "eval E (vfetch_words instr 1) = Some [W w]"
  shows "\<exists>decoded xs.
           vfetch_convert instr 1 = Some decoded
           \<and> xs = map (\<lambda>i. fadd (fmul (float_of_int (signed_take_bit 15 (drop_bit (16 * i) w)))
                                  (fdiv (float_literal 1) (float_literal (65535 / 2))))
                            (fmul (float_literal (1 / 2))
                                  (fdiv (float_literal 1) (float_literal (65535 / 2)))))
                     (filter (bit (used_format_components instr)) [0, 1, 2, 3])
           \<and> eval E decoded = Some (map F xs) \<and> xs \<noteq> [] \<and> 0 \<notin> set xs
           \<and> (\<exists>res ys.
                 ProcessVertexFetchInstruction instr =
                   [UpdateInstructionPredication (is_predicated instr) (predicate_condition instr),
                    EnsureBuildPointAvailable, StoreResult (result instr) (Some res)]
                 \<and> eval E res =
                     Some (map F ys @
                           replicate
                             (bit_count (GetUsedResultComponents (result instr) AND
                                         NOT (used_format_components instr))) (F 0))
                 \<and> length ys = length xs
                 \<and> (- 32 \<le> exp_adjust (attributes instr) \<and> exp_adjust (attributes instr) \<le> 31
                    \<longrightarrow> 0 \<notin> set ys))"
proof -
  let ?a = "attributes instr"
  let ?S = "fdiv (float_literal 1) (float_literal (65535 / 2))"
  define js where "js = filter (bit (used_format_components instr)) [0, 1, 2, 3]"
  define g where "g = (\<lambda>i. fadd (fmul (float_of_int (signed_take_bit 15 (drop_bit (16 * i) w))) ?S)
                            (fmul (float_literal (1 / 2)) ?S))"
  define xs where "xs = map g js"
  have packed: "format_is_packed (data_format ?a)" by (simp add: f)
  have nw: "1 = GetVertexFormatNeededWords (data_format ?a) (GetUsedResultComponents (result instr))"
    using r by (simp add: f mask_if_def)
  from w have w': "eval E (vfetch_words instr 1) = Some (map W [w])" by simp
  from eval_vfetch_convert_packed [OF packed nw _ w']
  obtain decoded where d: "vfetch_convert instr 1 = Some decoded"
    and e: "eval E decoded = Some (map (\<lambda>i. F (packed_component ?a [w] i)) js)"
    by (auto simp: js_def)
  have scale: "packed_scale ?a 16 = ?S"
  proof -
    have "packed_scale ?a 16 =
          packed_scale (example_attributes\<lparr>is_signed := True, signed_rf_mode := kNoZero\<rparr>) 16"
      by (simp add: packed_scale_def s m)
    then show ?thesis by (simp only: scale_16_no_zero)
  qed
  have js2: "i = 0 \<or> i = 1" if "i \<in> set js" for i
  proof -
    from that have "bit (used_format_components instr) i"
      unfolding js_def by (simp only: set_filter mem_Collect_eq)
    then have "i < 2" by (simp add: used_format_bit f)
    then show ?thesis by auto
  qed
  have comp: "packed_component ?a [w] i = g i" if "i \<in> set js" for i
    using js2 [OF that] scale s n m
    by (auto simp: packed_component_def packed_field_def component_value_def normalize_value_def
        to_float_def extract_field_def loaded_component_word_def f g_def Let_def)
  have e': "eval E decoded = Some (map F xs)"
    unfolding e xs_def map_map by (simp add: comp cong: map_cong)
  have used_nz: "used_format_components instr \<noteq> 0"
    using r by (simp add: used_format_components_def f)
  have js_ne: "js \<noteq> []"
    using set_bits_nonempty [OF used_nz] by (simp add: js_def set_bits_used)
  have gnz: "g i \<noteq> 0" for i
  proof -
    have "fadd (fmul (round32 (of_int (sint (signed_take_bit 15 (drop_bit (16 * i) w)))))
               (65537 / 2147483648)) ((65537 / 2147483648) / 2) \<noteq> 0"
      by (rule no_zero_bias) simp
    then show ?thesis
      unfolding g_def scale_16_value half_scale_16 float_of_int_def .
  qed
  have xnz: "0 \<notin> set xs" using gnz by (auto simp: xs_def)
  define h where "h = (\<lambda>x. if exp_adjust ?a \<noteq> 0 then fmul x (ldexp1 (exp_adjust ?a)) else x)"
  define ys where "ys = map h xs"
  have ynz: "0 \<notin> set ys"
  proof
    assume "0 \<in> set ys"
    then have "0 \<in> h ` set xs" by (simp add: ys_def)
    then obtain x where x: "x \<in> set xs" and z: "h x = 0" by force
    from x xnz have "x \<noteq> 0" by auto
    from exp_adjust_nonzero [OF this, of "exp_adjust ?a"] z show False by (simp add: h_def)
  qed
  have ea: "eval E (apply_exp_adjust ?a decoded) = Some (map F ys)"
    using eval_apply_exp_adjust [OF e', of ?a] by (simp add: ys_def h_def comp_def)
  define res where "res = pad_missing (GetUsedResultComponents (result instr))
                  (used_format_components instr) (apply_exp_adjust ?a decoded)"
  have vr: "vfetch_result instr 1 = Some res"
    by (simp add: vfetch_result_def d res_def)
  have er: "eval E res = Some (map F ys @
               replicate (bit_count (GetUsedResultComponents (result instr) AND
                                     NOT (used_format_components instr))) (F 0))"
    unfolding res_def using ea by (rule eval_pad_missing)
  have pr: "ProcessVertexFetchInstruction instr =
              [UpdateInstructionPredication (is_predicated instr) (predicate_condition instr),
               EnsureBuildPointAvailable, StoreResult (result instr) (Some res)]"
    using process_with_words [OF nw] vr by simp
  have ly: "length ys = length xs" by (simp add: ys_def)
  have x1: "xs \<noteq> []" using js_ne by (simp add: xs_def)
  have inner: "\<exists>res ys.
                 ProcessVertexFetchInstruction instr =
                   [UpdateInstructionPredication (is_predicated instr) (predicate_condition instr),
                    EnsureBuildPointAvailable, StoreResult (result instr) (Some res)]
                 \<and> eval E res =
                     Some (map F ys @
                           replicate
                             (bit_count (GetUsedResultComponents (result instr) AND
                                         NOT (used_format_components instr))) (F 0))
                 \<and> length ys = length xs
                 \<and> (- 32 \<le> exp_adjust (attributes instr) \<and> exp_adjust (attributes instr) \<le> 31
                    \<longrightarrow> 0 \<notin> set ys)"
    using pr er ly ynz by (intro exI [of _ res] exI [of _ ys] conjI impI)
  have xs_eq: "xs = map (\<lambda>i. fadd (fmul (float_of_int (signed_take_bit 15 (drop_bit (16 * i) w))) ?S)
                            (fmul (float_literal (1 / 2)) ?S))
                     (filter (bit (used_format_components instr)) [0, 1, 2, 3])"
    by (simp add: xs_def g_def js_def)
  show ?thesis
    apply (rule exI [of _ decoded])
    apply (rule exI [of _ xs])
    using d xs_eq e' x1 xnz inner apply (intro conjI)
         apply assumption+
    done
qed

theorem signed_16_16_no_zero_is_nonzero_witness:
  "\<exists>decoded xs.
           vfetch_convert (example_fetch (example_attributes\<lparr>data_format := k_16_16, exp_adjust := - 32, is_signed := True, signed_rf_mode := kNoZero\<rparr>) 3) 1 = Some decoded
           \<and> xs = map (\<lambda>i. fadd (fmul (float_of_int (signed_take_bit 15 (drop_bit (16 * i) 0)))
                                  (fdiv (float_literal 1) (float_literal (65535 / 2))))
                            (fmul (float_literal (1 / 2))
                                  (fdiv (float_literal 1) (float_literal (65535 / 2)))))
                     (filter (bit (used_format_components (example_fetch (example_attributes\<lparr>data_format := k_16_16, exp_adjust := - 32, is_signed := True, signed_rf_mode := kNoZero\<rparr>) 3))) [0, 1, 2, 3])
           \<and> eval (example_env 0 0) decoded = Some (map F xs) \<and> xs \<noteq> [] \<and> 0 \<notin> set xs
           \<and> (\<exists>res ys.
                 ProcessVertexFetchInstruction (example_fetch (example_attributes\<lparr>data_format := k_16_16, exp_adjust := - 32, is_signed := True, signed_rf_mode := kNoZero\<rparr>) 3) =
                   [UpdateInstructionPredication (is_predicated (example_fetch (example_attributes\<lparr>data_format := k_16_16, exp_adjust := - 32, is_signed := True, signed_rf_mode := kNoZero\<rparr>) 3)) (predicate_condition (example_fetch (example_attributes\<lparr>data_format := k_16_16, exp_adjust := - 32, is_signed := True, signed_rf_mode := kNoZero\<rparr>) 3)),
                    EnsureBuildPointAvailable, StoreResult (result (example_fetch (example_attributes\<lparr>data_format := k_16_16, exp_adjust := - 32, is_signed := True, signed_rf_mode := kNoZero\<rparr>) 3)) (Some res)]
                 \<and> eval (example_env 0 0) res =
                     Some (map F ys @
                           replicate
                             (bit_count (GetUsedResultComponents (result (example_fetch (example_attributes\<lparr>data_format := k_16_16, exp_adjust := - 32, is_signed := True, signed_rf_mode := kNoZero\<rparr>) 3)) AND
                                         NOT (used_format_components (example_fetch (example_attributes\<lparr>data_format := k_16_16, exp_adjust := - 32, is_signed := True, signed_rf_mode := kNoZero\<rparr>) 3)))) (F 0))
                 \<and> length ys = length xs
                 \<and> 0 \<notin> set ys)"
proof -
  have b: "- 32 \<le> exp_adjust (attributes (example_fetch (example_attributes\<lparr>data_format := k_16_16, exp_adjust := - 32, is_signed := True, signed_rf_mode := kNoZero\<rparr>) 3)) \<and> exp_adjust (attributes (example_fetch (example_attributes\<lparr>data_format := k_16_16, exp_adjust := - 32, is_signed := True, signed_rf_mode := kNoZero\<rparr>) 3)) \<le> 31"
    by (simp add: example_fetch_def)
  have "\<exists>decoded xs.
           vfetch_convert (example_fetch (example_attributes\<lparr>data_format := k_16_16, exp_adjust := - 32, is_signed := True, signed_rf_mode := kNoZero\<rparr>) 3) 1 = Some decoded
           \<and> xs = map (\<lambda>i. fadd (fmul (float_of_int (signed_take_bit 15 (drop_bit (16 * i) 0)))
                                  (fdiv (float_literal 1) (float_literal (65535 / 2))))
                            (fmul (float_literal (1 / 2))
                                  (fdiv (float_literal 1) (float_literal (65535 / 2)))))
                     (filter (bit (used_format_components (example_fetch (example_attributes\<lparr>data_format := k_16_16, exp_adjust := - 32, is_signed := True, signed_rf_mode := kNoZero\<rparr>) 3))) [0, 1, 2, 3])
           \<and> eval (example_env 0 0) decoded = Some (map F xs) \<and> xs \<noteq> [] \<and> 0 \<notin> set xs
           \<and> (\<exists>res ys.
                 ProcessVertexFetchInstruction (example_fetch (example_attributes\<lparr>data_format := k_16_16, exp_adjust := - 32, is_signed := True, signed_rf_mode := kNoZero\<rparr>) 3) =
                   [UpdateInstructionPredication (is_predicated (example_fetch (example_attributes\<lparr>data_format := k_16_16, exp_adjust := - 32, is_signed := True, signed_rf_mode := kNoZero\<rparr>) 3)) (predicate_condition (example_fetch (example_attributes\<lparr>data_format := k_16_16, exp_adjust := - 32, is_signed := True, signed_rf_mode := kNoZero\<rparr>) 3)),
                    EnsureBuildPointAvailable, StoreResult (result (example_fetch (example_attributes\<lparr>data_format := k_16_16, exp_adjust := - 32, is_signed := True, signed_rf_mode := kNoZero\<rparr>) 3)) (Some res)]
                 \<and> eval (example_env 0 0) res =
                     Some (map F ys @
                           replicate
                             (bit_count (GetUsedResultComponents (result (example_fetch (example_attributes\<lparr>data_format := k_16_16, exp_adjust := - 32, is_signed := True, signed_rf_mode := kNoZero\<rparr>) 3)) AND
                                         NOT (used_format_components (example_fetch (example_attributes\<lparr>data_format := k_16_16, exp_adjust := - 32, is_signed := True, signed_rf_mode := kNoZero\<rparr>) 3)))) (F 0))
                 \<and> length ys = length xs
                 \<and> (- 32 \<le> exp_adjust (attributes (example_fetch (example_attributes\<lparr>data_format := k_16_16, exp_adjust := - 32, is_signed := True, signed_rf_mode := kNoZero\<rparr>) 3)) \<and> exp_adjust (attributes (example_fetch (example_attributes\<lparr>data_format := k_16_16, exp_adjust := - 32, is_signed := True, signed_rf_mode := kNoZero\<rparr>) 3)) \<le> 31
                    \<longrightarrow> 0 \<notin> set ys))"
  proof (rule signed_16_16_no_zero_is_nonzero)
    show "data_format (attributes (example_fetch (example_attributes\<lparr>data_format := k_16_16, exp_adjust := - 32, is_signed := True, signed_rf_mode := kNoZero\<rparr>) 3)) = k_16_16"
      by (simp add: example_fetch_def)
    show "is_signed (attributes (example_fetch (example_attributes\<lparr>data_format := k_16_16, exp_adjust := - 32, is_signed := True, signed_rf_mode := kNoZero\<rparr>) 3))"
      by (simp add: example_fetch_def)
    show "\<not> is_integer (attributes (example_fetch (example_attributes\<lparr>data_format := k_16_16, exp_adjust := - 32, is_signed := True, signed_rf_mode := kNoZero\<rparr>) 3))"
      by (simp add: example_fetch_def example_attributes_def)
    show "signed_rf_mode (attributes (example_fetch (example_attributes\<lparr>data_format := k_16_16, exp_adjust := - 32, is_signed := True, signed_rf_mode := kNoZero\<rparr>) 3)) = kNoZero"
      by (simp add: example_fetch_def)
    show "GetUsedResultComponents (result (example_fetch (example_attributes\<lparr>data_format := k_16_16, exp_adjust := - 32, is_signed := True, signed_rf_mode := kNoZero\<rparr>) 3)) AND 3 \<noteq> 0"
      by (simp add: example_fetch_def GetUsedResultComponents_def)
    show "eval (example_env 0 0) (vfetch_words (example_fetch (example_attributes\<lparr>data_format := k_16_16, exp_adjust := - 32, is_signed := True, signed_rf_mode := kNoZero\<rparr>) 3) 1) = Some [W 0]"
      by code_simp
  qed
  then obtain decoded xs res ys
    where 1: "vfetch_convert (example_fetch (example_attributes\<lparr>data_format := k_16_16, exp_adjust := - 32, is_signed := True, signed_rf_mode := kNoZero\<rparr>) 3) 1 = Some decoded"
      and 2: "xs = map (\<lambda>i. fadd (fmul (float_of_int (signed_take_bit 15 (drop_bit (16 * i) 0)))
                                  (fdiv (float_literal 1) (float_literal (65535 / 2))))
                            (fmul (float_literal (1 / 2))
                                  (fdiv (float_literal 1) (float_literal (65535 / 2)))))
                     (filter (bit (used_format_components (example_fetch (example_attributes\<lparr>data_format := k_16_16, exp_adjust := - 32, is_signed := True, signed_rf_mode := kNoZero\<rparr>) 3))) [0, 1, 2, 3])"
      and 3: "eval (example_env 0 0) decoded = Some (map F xs)"
      and 4: "xs \<noteq> []" and 5: "0 \<notin> set xs"
      and 6: "ProcessVertexFetchInstruction (example_fetch (example_attributes\<lparr>data_format := k_16_16, exp_adjust := - 32, is_signed := True, signed_rf_mode := kNoZero\<rparr>) 3) =
                   [UpdateInstructionPredication (is_predicated (example_fetch (example_attributes\<lparr>data_format := k_16_16, exp_adjust := - 32, is_signed := True, signed_rf_mode := kNoZero\<rparr>) 3)) (predicate_condition (example_fetch (example_attributes\<lparr>data_format := k_16_16, exp_adjust := - 32, is_signed := True, signed_rf_mode := kNoZero\<rparr>) 3)),
                    EnsureBuildPointAvailable, StoreResult (result (example_fetch (example_attributes\<lparr>data_format := k_16_16, exp_adjust := - 32, is_signed := True, signed_rf_mode := kNoZero\<rparr>) 3)) (Some res)]"
      and 7: "eval (example_env 0 0) res = Some (map F ys @
                           replicate
                             (bit_count (GetUsedResultComponents (result (example_fetch (example_attributes\<lparr>data_format := k_16_16, exp_adjust := - 32, is_signed := True, signed_rf_mode := kNoZero\<rparr>) 3)) AND
                                         NOT (used_format_components (example_fetch (example_attributes\<lparr>data_format := k_16_16, exp_adjust := - 32, is_signed := True, signed_rf_mode := kNoZero\<rparr>) 3)))) (F 0))"
      and 8: "length ys = length xs"
      and 9: "- 32 \<le> exp_adjust (attributes (example_fetch (example_attributes\<lparr>data_format := k_16_16, exp_adjust := - 32, is_signed := True, signed_rf_mode := kNoZero\<rparr>) 3)) \<and> exp_adjust (attributes (example_fetch (example_attributes\<lparr>data_format := k_16_16, exp_adjust := - 32, is_signed := True, signed_rf_mode := kNoZero\<rparr>) 3)) \<le> 31 \<longrightarrow> 0 \<notin> set ys"
    by blast
  from 9 b have 10: "0 \<notin> set ys" by (rule mp)
  show ?thesis
    apply (rule exI [of _ decoded])
    apply (rule exI [of _ xs])
    apply (intro conjI)
         apply (rule 1)
        apply (rule 2)
       apply (rule 3)
      apply (rule 4)
     apply (rule 5)
    apply (rule exI [of _ res])
    apply (rule exI [of _ ys])
    apply (intro conjI)
       apply (rule 6)
      apply (rule 7)
     apply (rule 8)
    apply (rule 10)
    done
qed

text \<open>
  C9. A signed, normalized fetch of a packed format in the clamp mode ends in an
  \<^verbatim>\<open>FMax\<close> of the scaled vector with a constant of \<open>-1\<close> in every component, so each
  component is the maximum of the scaled field and \<open>-1\<close>; a field with the code
  \<open>-2\<^sup>w\<^sup>-\<^sup>1\<close> or \<open>-(2\<^sup>w\<^sup>-\<^sup>1 - 1)\<close> of its width \<open>w\<close> decodes to exactly \<open>-1\<close>. The conversion
  of a 32-bit wide format contains no \<^verbatim>\<open>FMax\<close>.
\<close>

theorem packed_signed_clamp:
  assumes packed: "format_is_packed (data_format (attributes instr))"
    and s: "is_signed (attributes instr)" and n: "\<not> is_integer (attributes instr)"
    and m: "signed_rf_mode (attributes instr) = kZeroClampMinusOne"
    and nw: "nw = GetVertexFormatNeededWords (data_format (attributes instr))
                    (GetUsedResultComponents (result instr))"
    and nz: "nw \<noteq> 0"
    and ew: "eval E (vfetch_words instr nw) = Some (map W ws)"
  shows "\<exists>scaled minus_one.
           vfetch_convert instr nw =
             Some (BuiltinCall (type_float_vectors (bit_count (used_format_components instr) - 1))
                     GLSLstd450FMax [scaled, minus_one])
           \<and> eval E minus_one = Some (replicate (bit_count (used_format_components instr)) (F (- 1)))
           \<and> eval E (BuiltinCall (type_float_vectors (bit_count (used_format_components instr) - 1))
                       GLSLstd450FMax [scaled, minus_one]) =
               Some (map (\<lambda>i. F (max (fmul (float_of_int (packed_field (attributes instr) ws i))
                                          (packed_scale (attributes instr)
                                             (packed_widths (data_format (attributes instr)) ! i)))
                                    (- 1)))
                       (filter (bit (used_format_components instr)) [0, 1, 2, 3]))
           \<and> (\<forall>i\<in>set (filter (bit (used_format_components instr)) [0, 1, 2, 3]).
                 sint (packed_field (attributes instr) ws i) =
                   - (2 ^ (packed_widths (data_format (attributes instr)) ! i - 1))
                 \<or> sint (packed_field (attributes instr) ws i) =
                   - (2 ^ (packed_widths (data_format (attributes instr)) ! i - 1) - 1)
                 \<longrightarrow> max (fmul (float_of_int (packed_field (attributes instr) ws i))
                              (packed_scale (attributes instr)
                                 (packed_widths (data_format (attributes instr)) ! i)))
                         (- 1) = - 1)
           \<and> (\<forall>wide nw'.
                 (data_format (attributes wide) = k_32 \<or> data_format (attributes wide) = k_32_32
                  \<or> data_format (attributes wide) = k_32_32_32_32) \<and> nw' \<noteq> 0
                 \<longrightarrow> (\<exists>d. vfetch_convert wide nw' = Some d \<and> \<not> calls_builtin GLSLstd450FMax d))"
proof -
  let ?a = "attributes instr"
  let ?f = "data_format ?a"
  let ?used = "used_format_components instr"
  let ?n = "bit_count ?used"
  let ?rt = "type_float_vectors (?n - 1)"
  define js where "js = filter (bit ?used) [0, 1, 2, 3]"
  define minus_one where "minus_one = (if 1 < ?n
       then CompositeConstant ?rt (map FloatConstant (replicate ?n (- 1)))
       else FloatConstant (replicate ?n (- 1) ! 0))"
  have used_nz: "?used \<noteq> 0"
    using nz needed_words_iff_used [of ?f "GetUsedResultComponents (result instr)"]
    by (simp add: nw used_format_components_def)
  have n0: "0 < ?n" using used_nz by (rule bit_count_pos)
  have "\<exists>scaled. convert_packed ?a ?rt ?n (vfetch_words instr nw)
             (length (snd (vfetch_load_words instr nw))) (fst (vfetch_load_words instr nw)) ?used =
           BuiltinCall ?rt GLSLstd450FMax [scaled, minus_one]"
    using n0
    by (simp add: convert_packed_def normalize_packed_def Let_def s n m minus_one_def
        float_literal_minus_1 map_replicate)
  then obtain scaled where sc: "vfetch_convert instr nw =
      Some (BuiltinCall ?rt GLSLstd450FMax [scaled, minus_one])"
    using vfetch_convert_packed [OF packed, of nw] by auto
  have em: "eval E minus_one = Some (replicate ?n (F (- 1)))"
  proof -
    have "eval E minus_one = Some (map F (replicate ?n (- 1)))"
      unfolding minus_one_def by (rule eval_float_vector_constant) (simp_all add: n0)
    then show ?thesis by simp
  qed
  from eval_vfetch_convert_packed [OF packed nw nz ew] sc
  have ev: "eval E (BuiltinCall ?rt GLSLstd450FMax [scaled, minus_one]) =
            Some (map (\<lambda>i. F (packed_component ?a ws i)) js)"
    by (simp add: js_def del: eval.simps)
  have pc: "packed_component ?a ws i =
            max (fmul (float_of_int (packed_field ?a ws i)) (packed_scale ?a (packed_widths ?f ! i)))
                (- 1)" for i
    by (simp add: packed_component_def component_value_def normalize_value_def to_float_def
        s n m Let_def float_literal_minus_1)
  have ev': "eval E (BuiltinCall ?rt GLSLstd450FMax [scaled, minus_one]) =
            Some (map (\<lambda>i. F (max (fmul (float_of_int (packed_field ?a ws i))
                                       (packed_scale ?a (packed_widths ?f ! i))) (- 1))) js)"
    unfolding ev by (simp only: pc)
  have codes: "\<forall>i\<in>set js.
        sint (packed_field ?a ws i) = - (2 ^ (packed_widths ?f ! i - 1))
        \<or> sint (packed_field ?a ws i) = - (2 ^ (packed_widths ?f ! i - 1) - 1)
        \<longrightarrow> max (fmul (float_of_int (packed_field ?a ws i))
                     (packed_scale ?a (packed_widths ?f ! i))) (- 1) = - 1"
  proof (intro ballI impI)
    fix i assume i: "i \<in> set js"
      and c: "sint (packed_field ?a ws i) = - (2 ^ (packed_widths ?f ! i - 1))
              \<or> sint (packed_field ?a ws i) = - (2 ^ (packed_widths ?f ! i - 1) - 1)"
    from i have "bit ?used i" unfolding js_def by (simp only: set_filter mem_Collect_eq)
    then have "i < GetVertexFormatComponentCount ?f" by (simp add: used_format_bit)
    from packed_width_values [OF packed this] s n m c
    have "component_value ?a (packed_widths ?f ! i) (packed_field ?a ws i) = - 1"
      by (intro clamp_value)
    then show "max (fmul (float_of_int (packed_field ?a ws i))
                     (packed_scale ?a (packed_widths ?f ! i))) (- 1) = - 1"
      unfolding pc [symmetric] packed_component_def .
  qed
  have wide: "\<forall>wide nw'.
                 (data_format (attributes wide) = k_32 \<or> data_format (attributes wide) = k_32_32
                  \<or> data_format (attributes wide) = k_32_32_32_32) \<and> nw' \<noteq> 0
                 \<longrightarrow> (\<exists>d. vfetch_convert wide nw' = Some d \<and> \<not> calls_builtin GLSLstd450FMax d)"
    using wide_format_no_fmax by blast
  show ?thesis
    apply (rule exI [of _ scaled])
    apply (rule exI [of _ minus_one])
    using sc em ev' codes wide unfolding js_def apply (intro conjI)
        apply assumption+
    done
qed

theorem packed_signed_clamp_witness:
  "\<exists>scaled minus_one.
           vfetch_convert (example_fetch (example_attributes\<lparr>is_signed := True\<rparr>) 15) 1 =
             Some (BuiltinCall (type_float_vectors (bit_count (used_format_components (example_fetch (example_attributes\<lparr>is_signed := True\<rparr>) 15)) - 1))
                     GLSLstd450FMax [scaled, minus_one])
           \<and> eval (example_env 0x7F008180 0) minus_one = Some (replicate (bit_count (used_format_components (example_fetch (example_attributes\<lparr>is_signed := True\<rparr>) 15))) (F (- 1)))
           \<and> eval (example_env 0x7F008180 0) (BuiltinCall (type_float_vectors (bit_count (used_format_components (example_fetch (example_attributes\<lparr>is_signed := True\<rparr>) 15)) - 1))
                       GLSLstd450FMax [scaled, minus_one]) =
               Some (map (\<lambda>i. F (max (fmul (float_of_int (packed_field (attributes (example_fetch (example_attributes\<lparr>is_signed := True\<rparr>) 15)) [0x7F008180] i))
                                          (packed_scale (attributes (example_fetch (example_attributes\<lparr>is_signed := True\<rparr>) 15))
                                             (packed_widths (data_format (attributes (example_fetch (example_attributes\<lparr>is_signed := True\<rparr>) 15))) ! i)))
                                    (- 1)))
                       (filter (bit (used_format_components (example_fetch (example_attributes\<lparr>is_signed := True\<rparr>) 15))) [0, 1, 2, 3]))
           \<and> (\<forall>i\<in>set (filter (bit (used_format_components (example_fetch (example_attributes\<lparr>is_signed := True\<rparr>) 15))) [0, 1, 2, 3]).
                 sint (packed_field (attributes (example_fetch (example_attributes\<lparr>is_signed := True\<rparr>) 15)) [0x7F008180] i) =
                   - (2 ^ (packed_widths (data_format (attributes (example_fetch (example_attributes\<lparr>is_signed := True\<rparr>) 15))) ! i - 1))
                 \<or> sint (packed_field (attributes (example_fetch (example_attributes\<lparr>is_signed := True\<rparr>) 15)) [0x7F008180] i) =
                   - (2 ^ (packed_widths (data_format (attributes (example_fetch (example_attributes\<lparr>is_signed := True\<rparr>) 15))) ! i - 1) - 1)
                 \<longrightarrow> max (fmul (float_of_int (packed_field (attributes (example_fetch (example_attributes\<lparr>is_signed := True\<rparr>) 15)) [0x7F008180] i))
                              (packed_scale (attributes (example_fetch (example_attributes\<lparr>is_signed := True\<rparr>) 15))
                                 (packed_widths (data_format (attributes (example_fetch (example_attributes\<lparr>is_signed := True\<rparr>) 15))) ! i)))
                         (- 1) = - 1)
           \<and> (\<forall>wide nw'.
                 (data_format (attributes wide) = k_32 \<or> data_format (attributes wide) = k_32_32
                  \<or> data_format (attributes wide) = k_32_32_32_32) \<and> nw' \<noteq> 0
                 \<longrightarrow> (\<exists>d. vfetch_convert wide nw' = Some d \<and> \<not> calls_builtin GLSLstd450FMax d))"
proof (rule packed_signed_clamp)
  show "format_is_packed (data_format (attributes (example_fetch (example_attributes\<lparr>is_signed := True\<rparr>) 15)))"
    by (simp add: example_fetch_def example_attributes_def)
  show "is_signed (attributes (example_fetch (example_attributes\<lparr>is_signed := True\<rparr>) 15))"
    by (simp add: example_fetch_def)
  show "\<not> is_integer (attributes (example_fetch (example_attributes\<lparr>is_signed := True\<rparr>) 15))"
    by (simp add: example_fetch_def example_attributes_def)
  show "signed_rf_mode (attributes (example_fetch (example_attributes\<lparr>is_signed := True\<rparr>) 15)) = kZeroClampMinusOne"
    by (simp add: example_fetch_def example_attributes_def)
  show "1 = GetVertexFormatNeededWords (data_format (attributes (example_fetch (example_attributes\<lparr>is_signed := True\<rparr>) 15)))
              (GetUsedResultComponents (result (example_fetch (example_attributes\<lparr>is_signed := True\<rparr>) 15)))"
    by (simp add: example_fetch_def example_attributes_def GetUsedResultComponents_def mask_if_def)
  show "(1 :: u32) \<noteq> 0" by simp
  show "eval (example_env 0x7F008180 0) (vfetch_words (example_fetch (example_attributes\<lparr>is_signed := True\<rparr>) 15) 1) = Some (map W [0x7F008180])"
    by code_simp
qed

text \<open>
  C10. Every requested component of a packed format is decoded from one bit field of
  one word of the element, and the fields are the ones of this table (word, bit
  offset, width), component X first: X has offset 0 in its word and each following
  component of the same word starts where the one before ends. \<^verbatim>\<open>k_8_8_8_8\<close> has
  offsets 0, 8, 16, 24 of width 8; \<^verbatim>\<open>k_2_10_10_10\<close> has X, Y, Z at 0, 10, 20 of width 10
  and W at 30 of width 2; \<^verbatim>\<open>k_10_11_11\<close> has X, Y at 0, 11 of width 11 and Z at 22 of
  width 10; \<^verbatim>\<open>k_11_11_10\<close> has X at 0 of width 10 and Y, Z at 10, 21 of width 11;
  \<^verbatim>\<open>k_16_16_16_16\<close> takes X, Y from word 0 and Z, W from word 1, at offsets 0 and 16.
\<close>

theorem packed_field_layout:
  assumes packed: "format_is_packed (data_format (attributes instr))"
    and nw: "nw = GetVertexFormatNeededWords (data_format (attributes instr))
                    (GetUsedResultComponents (result instr))"
    and nz: "nw \<noteq> 0"
    and ad: "eval E (vfetch_address instr) = Some [W addr]"
  shows "\<exists>decoded.
           vfetch_convert instr nw = Some decoded
           \<and> eval E decoded =
               Some (map (\<lambda>i. case (case data_format (attributes instr) of
                                       k_8_8_8_8 \<Rightarrow> [(0, 0, 8), (0, 8, 8), (0, 16, 8), (0, 24, 8)]
                                     | k_2_10_10_10 \<Rightarrow> [(0, 0, 10), (0, 10, 10), (0, 20, 10), (0, 30, 2)]
                                     | k_10_11_11 \<Rightarrow> [(0, 0, 11), (0, 11, 11), (0, 22, 10)]
                                     | k_11_11_10 \<Rightarrow> [(0, 0, 10), (0, 10, 11), (0, 21, 11)]
                                     | k_16_16 \<Rightarrow> [(0, 0, 16), (0, 16, 16)]
                                     | k_16_16_16_16 \<Rightarrow>
                                         [(0, 0, 16), (0, 16, 16), (1, 0, 16), (1, 16, 16)]
                                     | _ \<Rightarrow> []) ! i of
                                 (word, off, width) \<Rightarrow>
                                   F (component_value (attributes instr) width
                                        (extract_field (attributes instr)
                                           (element_word E instr addr word) off width)))
                       (filter (bit (used_format_components instr)) [0, 1, 2, 3]))"
proof -
  let ?a = "attributes instr"
  let ?f = "data_format ?a"
  let ?L = "(case ?f of
              k_8_8_8_8 \<Rightarrow> [(0, 0, 8), (0, 8, 8), (0, 16, 8), (0, 24, 8)]
            | k_2_10_10_10 \<Rightarrow> [(0, 0, 10), (0, 10, 10), (0, 20, 10), (0, 30, 2)]
            | k_10_11_11 \<Rightarrow> [(0, 0, 11), (0, 11, 11), (0, 22, 10)]
            | k_11_11_10 \<Rightarrow> [(0, 0, 10), (0, 10, 11), (0, 21, 11)]
            | k_16_16 \<Rightarrow> [(0, 0, 16), (0, 16, 16)]
            | k_16_16_16_16 \<Rightarrow> [(0, 0, 16), (0, 16, 16), (1, 0, 16), (1, 16, 16)]
            | _ \<Rightarrow> []) :: (nat \<times> nat \<times> nat) list"
  define js where "js = filter (bit (used_format_components instr)) [0, 1, 2, 3]"
  define ws where "ws = map (element_word E instr addr) (set_bits nw)"
  have ew: "eval E (vfetch_words instr nw) = Some (map W ws)"
    using eval_vfetch_words [OF nz ad] by (simp add: ws_def comp_def)
  from eval_vfetch_convert_packed [OF packed nw nz ew]
  obtain decoded where d: "vfetch_convert instr nw = Some decoded"
    and e: "eval E decoded = Some (map (\<lambda>i. F (packed_component ?a ws i)) js)"
    by (auto simp: js_def)
  have comp: "F (packed_component ?a ws i) =
              (case ?L ! i of (word, off, width) \<Rightarrow>
                 F (component_value ?a width
                      (extract_field ?a (element_word E instr addr word) off width)))"
    if "i \<in> set js" for i
  proof -
    from that have b: "bit (used_format_components instr) i"
      unfolding js_def by (simp only: set_filter mem_Collect_eq)
    then have icc: "i < GetVertexFormatComponentCount ?f" by (simp add: used_format_bit)
    have lw: "loaded_component_word ws ?f i = element_word E instr addr (packed_words ?f ! i)"
      unfolding ws_def using packed nw nz b by (rule loaded_word_is_element_word)
    have "?L ! i = (packed_words ?f ! i, packed_offsets ?f ! i, packed_widths ?f ! i)"
      using packed_layout_table [OF packed icc] by simp
    then show ?thesis
      by (simp add: packed_component_def packed_field_def lw)
  qed
  have "map (\<lambda>i. F (packed_component ?a ws i)) js =
        map (\<lambda>i. case ?L ! i of (word, off, width) \<Rightarrow>
                 F (component_value ?a width
                      (extract_field ?a (element_word E instr addr word) off width))) js"
    by (rule map_cong [OF refl]) (rule comp)
  with d e show ?thesis unfolding js_def by simp
qed

theorem packed_field_layout_witness:
  "\<exists>decoded.
           vfetch_convert (example_fetch (example_attributes\<lparr>data_format := k_16_16_16_16\<rparr>) 12) 2 = Some decoded
           \<and> eval (example_env 0x80017FFF 0) decoded =
               Some (map (\<lambda>i. case (case data_format (attributes (example_fetch (example_attributes\<lparr>data_format := k_16_16_16_16\<rparr>) 12)) of
                                       k_8_8_8_8 \<Rightarrow> [(0, 0, 8), (0, 8, 8), (0, 16, 8), (0, 24, 8)]
                                     | k_2_10_10_10 \<Rightarrow> [(0, 0, 10), (0, 10, 10), (0, 20, 10), (0, 30, 2)]
                                     | k_10_11_11 \<Rightarrow> [(0, 0, 11), (0, 11, 11), (0, 22, 10)]
                                     | k_11_11_10 \<Rightarrow> [(0, 0, 10), (0, 10, 11), (0, 21, 11)]
                                     | k_16_16 \<Rightarrow> [(0, 0, 16), (0, 16, 16)]
                                     | k_16_16_16_16 \<Rightarrow>
                                         [(0, 0, 16), (0, 16, 16), (1, 0, 16), (1, 16, 16)]
                                     | _ \<Rightarrow> []) ! i of
                                 (word, off, width) \<Rightarrow>
                                   F (component_value (attributes (example_fetch (example_attributes\<lparr>data_format := k_16_16_16_16\<rparr>) 12)) width
                                        (extract_field (attributes (example_fetch (example_attributes\<lparr>data_format := k_16_16_16_16\<rparr>) 12))
                                           (element_word (example_env 0x80017FFF 0) (example_fetch (example_attributes\<lparr>data_format := k_16_16_16_16\<rparr>) 12) 0 word) off width)))
                       (filter (bit (used_format_components (example_fetch (example_attributes\<lparr>data_format := k_16_16_16_16\<rparr>) 12))) [0, 1, 2, 3]))"
proof (rule packed_field_layout)
  show "format_is_packed (data_format (attributes (example_fetch (example_attributes\<lparr>data_format := k_16_16_16_16\<rparr>) 12)))"
    by (simp add: example_fetch_def)
  show "2 = GetVertexFormatNeededWords (data_format (attributes (example_fetch (example_attributes\<lparr>data_format := k_16_16_16_16\<rparr>) 12)))
              (GetUsedResultComponents (result (example_fetch (example_attributes\<lparr>data_format := k_16_16_16_16\<rparr>) 12)))"
    by (simp add: example_fetch_def GetUsedResultComponents_def mask_if_def)
  show "(2 :: u32) \<noteq> 0" by simp
  show "eval (example_env 0x80017FFF 0) (vfetch_address (example_fetch (example_attributes\<lparr>data_format := k_16_16_16_16\<rparr>) 12)) = Some [W 0]"
    by code_simp
qed

subsection \<open>The 32-bit integer formats\<close>

text \<open>
  C2. A normalized (not \<^verbatim>\<open>is_integer\<close>) fetch of \<^verbatim>\<open>k_32\<close>, \<^verbatim>\<open>k_32_32\<close> or \<^verbatim>\<open>k_32_32_32_32\<close>
  decodes requested component \<open>i\<close> from word \<open>i\<close> of the element. Signed in the clamp
  mode, it is the word converted as a signed integer to float and multiplied by the
  binary32 constant \<^verbatim>\<open>1.0f / 2147483647.0f\<close>; signed in the no-zero mode, it is
  multiplied by \<^verbatim>\<open>1.0f / 2147483647.5f\<close> and then \<^verbatim>\<open>0.5f / 2147483647.5f\<close> is added;
  unsigned, it is converted as an unsigned integer and multiplied by
  \<^verbatim>\<open>1.0f / 4294967295.0f\<close>. No \<^verbatim>\<open>FMax\<close> is emitted in any of the three cases, and in
  the clamp mode the most negative word \<open>-2\<^sup>3\<^sup>1\<close> still decodes to exactly \<open>-1\<close>.
\<close>

theorem wide_integer_normalization:
  assumes f: "data_format (attributes instr) = k_32 \<or> data_format (attributes instr) = k_32_32
              \<or> data_format (attributes instr) = k_32_32_32_32"
    and ni: "\<not> is_integer (attributes instr)"
    and nw: "nw = GetVertexFormatNeededWords (data_format (attributes instr))
                    (GetUsedResultComponents (result instr))"
    and nz: "nw \<noteq> 0"
    and ad: "eval E (vfetch_address instr) = Some [W addr]"
  shows "\<exists>decoded.
           vfetch_convert instr nw = Some decoded
           \<and> \<not> calls_builtin GLSLstd450FMax decoded
           \<and> eval E decoded =
               Some (map (\<lambda>i. F (if is_signed (attributes instr)
                                  then (case signed_rf_mode (attributes instr) of
                                          kZeroClampMinusOne \<Rightarrow>
                                            fmul (float_of_int (element_word E instr addr i))
                                              (fdiv (float_literal 1) (float_literal 2147483647))
                                        | kNoZero \<Rightarrow>
                                            fadd (fmul (float_of_int (element_word E instr addr i))
                                                    (fdiv (float_literal 1)
                                                       (float_literal (2147483647 + 1 / 2))))
                                              (fdiv (float_literal (1 / 2))
                                                 (float_literal (2147483647 + 1 / 2))))
                                  else fmul (float_of_uint (element_word E instr addr i))
                                         (fdiv (float_literal 1) (float_literal 4294967295))))
                       (filter (bit (used_format_components instr)) [0, 1, 2, 3]))
           \<and> fmul (float_of_int (- (2 ^ 31)))
                (fdiv (float_literal 1) (float_literal 2147483647)) = - 1"
proof -
  let ?a = "attributes instr"
  define js where "js = filter (bit (used_format_components instr)) [0, 1, 2, 3]"
  define ws where "ws = map (element_word E instr addr) js"
  define n where "n = bit_count (used_format_components instr)"
  have un: "used_format_components instr = nw"
    using wide_used_is_needed [OF f] nw by simp
  have sb: "set_bits nw = js"
    using set_bits_used [of instr] by (simp add: un js_def)
  have ew: "eval E (vfetch_words instr nw) = Some (map W ws)"
    using eval_vfetch_words [OF nz ad] by (simp add: ws_def sb comp_def)
  have lw: "length ws = n"
    by (simp add: ws_def n_def bit_count_def un sb)
  have n: "0 < n" unfolding n_def un using nz by (rule bit_count_pos)
  have np: "\<not> format_is_packed (data_format ?a)" using f by auto
  have conv: "vfetch_convert instr nw =
              Some (convert_32 ?a (type_float_vectors (n - 1)) n (vfetch_words instr nw))"
    using f np by (auto simp: vfetch_convert_def Let_def n_def)
  from wide_format_no_fmax [OF f nz] conv
  have nf: "\<not> calls_builtin GLSLstd450FMax
              (convert_32 ?a (type_float_vectors (n - 1)) n (vfetch_words instr nw))"
    by auto
  have ev: "eval E (convert_32 ?a (type_float_vectors (n - 1)) n (vfetch_words instr nw)) =
            Some (map (\<lambda>i. F (if is_signed ?a
                                  then (case signed_rf_mode ?a of
                                          kZeroClampMinusOne \<Rightarrow>
                                            fmul (float_of_int (element_word E instr addr i))
                                              (fdiv (float_literal 1) (float_literal 2147483647))
                                        | kNoZero \<Rightarrow>
                                            fadd (fmul (float_of_int (element_word E instr addr i))
                                                    (fdiv (float_literal 1)
                                                       (float_literal (2147483647 + 1 / 2))))
                                              (fdiv (float_literal (1 / 2))
                                                 (float_literal (2147483647 + 1 / 2))))
                                  else fmul (float_of_uint (element_word E instr addr i))
                                         (fdiv (float_literal 1) (float_literal 4294967295)))) js)"
    using eval_convert_32 [OF ew lw n ni] by (simp add: ws_def comp_def)
  show ?thesis
    apply (rule exI [of _ "convert_32 ?a (type_float_vectors (n - 1)) n (vfetch_words instr nw)"])
    apply (intro conjI)
       apply (rule conv)
      apply (rule nf)
     apply (rule ev [unfolded js_def])
    apply (rule most_negative_word_scaled)
    done
qed

theorem wide_integer_normalization_witness:
  "\<exists>decoded.
           vfetch_convert (example_fetch (example_attributes\<lparr>data_format := k_32_32, is_signed := True\<rparr>) 3) 3 = Some decoded
           \<and> \<not> calls_builtin GLSLstd450FMax decoded
           \<and> eval (example_env 0x80000000 0) decoded =
               Some (map (\<lambda>i. F (if is_signed (attributes (example_fetch (example_attributes\<lparr>data_format := k_32_32, is_signed := True\<rparr>) 3))
                                  then (case signed_rf_mode (attributes (example_fetch (example_attributes\<lparr>data_format := k_32_32, is_signed := True\<rparr>) 3)) of
                                          kZeroClampMinusOne \<Rightarrow>
                                            fmul (float_of_int (element_word (example_env 0x80000000 0) (example_fetch (example_attributes\<lparr>data_format := k_32_32, is_signed := True\<rparr>) 3) 0 i))
                                              (fdiv (float_literal 1) (float_literal 2147483647))
                                        | kNoZero \<Rightarrow>
                                            fadd (fmul (float_of_int (element_word (example_env 0x80000000 0) (example_fetch (example_attributes\<lparr>data_format := k_32_32, is_signed := True\<rparr>) 3) 0 i))
                                                    (fdiv (float_literal 1)
                                                       (float_literal (2147483647 + 1 / 2))))
                                              (fdiv (float_literal (1 / 2))
                                                 (float_literal (2147483647 + 1 / 2))))
                                  else fmul (float_of_uint (element_word (example_env 0x80000000 0) (example_fetch (example_attributes\<lparr>data_format := k_32_32, is_signed := True\<rparr>) 3) 0 i))
                                         (fdiv (float_literal 1) (float_literal 4294967295))))
                       (filter (bit (used_format_components (example_fetch (example_attributes\<lparr>data_format := k_32_32, is_signed := True\<rparr>) 3))) [0, 1, 2, 3]))
           \<and> fmul (float_of_int (- (2 ^ 31)))
                (fdiv (float_literal 1) (float_literal 2147483647)) = - 1"
proof (rule wide_integer_normalization)
  show "data_format (attributes (example_fetch (example_attributes\<lparr>data_format := k_32_32, is_signed := True\<rparr>) 3)) = k_32 \<or> data_format (attributes (example_fetch (example_attributes\<lparr>data_format := k_32_32, is_signed := True\<rparr>) 3)) = k_32_32
        \<or> data_format (attributes (example_fetch (example_attributes\<lparr>data_format := k_32_32, is_signed := True\<rparr>) 3)) = k_32_32_32_32"
    by (simp add: example_fetch_def)
  show "\<not> is_integer (attributes (example_fetch (example_attributes\<lparr>data_format := k_32_32, is_signed := True\<rparr>) 3))"
    by (simp add: example_fetch_def example_attributes_def)
  show "3 = GetVertexFormatNeededWords (data_format (attributes (example_fetch (example_attributes\<lparr>data_format := k_32_32, is_signed := True\<rparr>) 3)))
              (GetUsedResultComponents (result (example_fetch (example_attributes\<lparr>data_format := k_32_32, is_signed := True\<rparr>) 3)))"
    by (simp add: example_fetch_def GetUsedResultComponents_def)
  show "(3 :: u32) \<noteq> 0" by simp
  show "eval (example_env 0x80000000 0) (vfetch_address (example_fetch (example_attributes\<lparr>data_format := k_32_32, is_signed := True\<rparr>) 3)) = Some [W 0]"
    by code_simp
qed

subsection \<open>The element address\<close>

text \<open>
  C4. With a nonzero stride the element address is the base address, bits 2 to 31 of
  the first fetch constant word, plus the stride times the index; the index is the
  floor of component X of operand 0, after the binary32 addition of 0.5 exactly when
  \<^verbatim>\<open>is_index_rounded\<close> is set, converted to a signed integer. With stride zero the
  address is the base address itself, an instruction sequence that does not read the
  operand.
\<close>

theorem element_address:
  "(stride (attributes instr) \<noteq> 0
    \<and> operand_components E (operands_0 instr) 1 = Some [F x]
    \<and> y = (if is_index_rounded (attributes instr) then fadd x (float_literal (1 / 2)) else x)
    \<and> - (2 ^ 31) \<le> \<lfloor>y\<rfloor> \<and> \<lfloor>y\<rfloor> < 2 ^ 31
    \<longrightarrow> eval E (vfetch_address instr) =
          Some [W (drop_bit 2 (fetch_constants E (fetch_constant_word_0_index instr))
                   + stride (attributes instr) * word_of_int \<lfloor>y\<rfloor>)])
   \<and> (stride (attributes instr) = 0
      \<longrightarrow> vfetch_address instr = vfetch_base_address instr
          \<and> eval E (vfetch_address instr) =
              Some [W (drop_bit 2 (fetch_constants E (fetch_constant_word_0_index instr)))])"
proof (intro conjI impI)
  define base where "base = drop_bit 2 (fetch_constants E (fetch_constant_word_0_index instr))"
  assume a: "stride (attributes instr) \<noteq> 0
    \<and> operand_components E (operands_0 instr) 1 = Some [F x]
    \<and> y = (if is_index_rounded (attributes instr) then fadd x (float_literal (1 / 2)) else x)
    \<and> - (2 ^ 31) \<le> \<lfloor>y\<rfloor> \<and> \<lfloor>y\<rfloor> < 2 ^ 31"
  then have st: "stride (attributes instr) \<noteq> 0"
    and op: "operand_components E (operands_0 instr) 1 = Some [F x]"
    and yd: "y = (if is_index_rounded (attributes instr) then fadd x (float_literal (1 / 2))
                  else x)"
    and lo: "- (2 ^ 31) \<le> \<lfloor>y\<rfloor>" and hi: "\<lfloor>y\<rfloor> < 2 ^ 31"
    by blast+
  have ei: "eval E (vfetch_index instr) =
            Some [W (stride (attributes instr) * word_of_int \<lfloor>y\<rfloor>)]"
    using op yd lo hi st by (rule eval_vfetch_index)
  have "eval E (BinOp OpIAdd type_int (vfetch_base_address instr) (vfetch_index instr)) =
        lift_binop OpIAdd [W base] [W (stride (attributes instr) * word_of_int \<lfloor>y\<rfloor>)]"
    unfolding base_def using eval_base_address ei by (rule eval_BinOp)
  then show "eval E (vfetch_address instr) =
             Some [W (drop_bit 2 (fetch_constants E (fetch_constant_word_0_index instr))
                      + stride (attributes instr) * word_of_int \<lfloor>y\<rfloor>)]"
    using st by (simp add: vfetch_address_def lift_binop_def base_def)
next
  assume "stride (attributes instr) = 0"
  then show "vfetch_address instr = vfetch_base_address instr"
    by (simp add: vfetch_address_def)
next
  assume "stride (attributes instr) = 0"
  then show "eval E (vfetch_address instr) =
             Some [W (drop_bit 2 (fetch_constants E (fetch_constant_word_0_index instr)))]"
    by (simp add: vfetch_address_def eval_base_address)
qed

theorem element_address_witness:
  "eval (example_env 0 (5 / 2))
     (vfetch_address (example_fetch (example_attributes\<lparr>stride := 4, is_index_rounded := True\<rparr>) 15)) =
     Some [W 12]
   \<and> eval (example_env 0 (5 / 2))
       (vfetch_address (example_fetch (example_attributes\<lparr>stride := 1\<rparr>) 15)) = Some [W 2]
   \<and> vfetch_address (example_fetch example_attributes 15) =
       vfetch_base_address (example_fetch example_attributes 15)
   \<and> eval (example_env 0 (5 / 2)) (vfetch_address (example_fetch example_attributes 15)) =
       Some [W 0]"
proof -
  have y: "\<lfloor>fadd (5 / 2) (float_literal (1 / 2))\<rfloor> = 3"
    by code_simp
  have z: "\<lfloor>5 / 2 :: rat\<rfloor> = 2"
    by code_simp
  have 1: "eval (example_env 0 (5 / 2))
     (vfetch_address (example_fetch (example_attributes\<lparr>stride := 4, is_index_rounded := True\<rparr>) 15)) =
     Some [W 12]"
    using element_address
      [of "example_fetch (example_attributes\<lparr>stride := 4, is_index_rounded := True\<rparr>) 15"
          "example_env 0 (5 / 2)" "5 / 2" "fadd (5 / 2) (float_literal (1 / 2))"]
    by (simp add: y example_fetch_def example_env_def fetch_constant_word_0_index_def
        del: eval.simps)
  have 2: "eval (example_env 0 (5 / 2))
       (vfetch_address (example_fetch (example_attributes\<lparr>stride := 1\<rparr>) 15)) = Some [W 2]"
    using element_address
      [of "example_fetch (example_attributes\<lparr>stride := 1\<rparr>) 15"
          "example_env 0 (5 / 2)" "5 / 2" "5 / 2"]
    by (simp add: z example_fetch_def example_env_def example_attributes_def
        fetch_constant_word_0_index_def del: eval.simps)
  have st0: "stride (attributes (example_fetch example_attributes 15)) = 0"
    by (simp add: example_fetch_def example_attributes_def)
  have b0: "drop_bit 2 (fetch_constants (example_env 0 (5 / 2))
              (fetch_constant_word_0_index (example_fetch example_attributes 15))) = 0"
    by (simp add: example_env_def)
  have 3: "vfetch_address (example_fetch example_attributes 15) =
       vfetch_base_address (example_fetch example_attributes 15)
   \<and> eval (example_env 0 (5 / 2)) (vfetch_address (example_fetch example_attributes 15)) =
       Some [W 0]"
    using element_address
      [of "example_fetch example_attributes 15" "example_env 0 (5 / 2)"] st0
    unfolding b0 by blast
  from 1 2 3 show ?thesis by blast
qed

subsection \<open>Requested components the format lacks\<close>

text \<open>
  C6. When the requested components include a component of the format and a
  component the format lacks, the value passed to \<^verbatim>\<open>StoreResult\<close> is the composite of
  the decoded vector (after the exponent bias) and the zero constant with one
  component per requested missing component: its value is the decoded components
  followed by that many exact zeros. This is the requested component order, because
  the requested components of the format come before the missing ones.
\<close>

theorem missing_components_padded:
  assumes native: "used_format_components instr \<noteq> 0"
    and missing: "GetUsedResultComponents (result instr) AND NOT (used_format_components instr)
                  \<noteq> 0"
  shows "\<exists>decoded stored.
           vfetch_convert instr
             (GetVertexFormatNeededWords (data_format (attributes instr))
                (GetUsedResultComponents (result instr))) = Some decoded
           \<and> stored =
               CompositeConstruct
                 (type_float_vectors (bit_count (GetUsedResultComponents (result instr)) - 1))
                 [apply_exp_adjust (attributes instr) decoded,
                  const_float_vectors_0
                    (bit_count (GetUsedResultComponents (result instr) AND
                                NOT (used_format_components instr)) - 1)]
           \<and> ProcessVertexFetchInstruction instr =
               [UpdateInstructionPredication (is_predicated instr) (predicate_condition instr),
                EnsureBuildPointAvailable, StoreResult (result instr) (Some stored)]
           \<and> (eval E (apply_exp_adjust (attributes instr) decoded) = Some v
              \<longrightarrow> eval E stored =
                    Some (v @ replicate
                                (bit_count (GetUsedResultComponents (result instr) AND
                                            NOT (used_format_components instr))) (F 0)))
           \<and> set_bits (GetUsedResultComponents (result instr)) =
               set_bits (used_format_components instr) @
               set_bits (GetUsedResultComponents (result instr) AND
                         NOT (used_format_components instr))"
proof -
  let ?a = "attributes instr"
  let ?m = "GetUsedResultComponents (result instr)"
  let ?u = "used_format_components instr"
  define nw where "nw = GetVertexFormatNeededWords (data_format ?a) ?m"
  have nz: "nw \<noteq> 0"
    using native unfolding nw_def used_format_components_def needed_words_iff_used .
  from vfetch_convert_defined [OF native]
  obtain decoded where d: "vfetch_convert instr nw = Some decoded" by blast
  define stored where
    "stored = CompositeConstruct (type_float_vectors (bit_count ?m - 1))
                [apply_exp_adjust ?a decoded, const_float_vectors_0 (bit_count (?m AND NOT ?u) - 1)]"
  have pm: "pad_missing ?m ?u (apply_exp_adjust ?a decoded) = stored"
    using missing by (simp add: pad_missing_def Let_def stored_def)
  have vr: "vfetch_result instr nw = Some stored"
    by (simp add: vfetch_result_def d pm)
  have pr: "ProcessVertexFetchInstruction instr =
            [UpdateInstructionPredication (is_predicated instr) (predicate_condition instr),
             EnsureBuildPointAvailable, StoreResult (result instr) (Some stored)]"
    using process_with_words [OF nw_def nz] by (simp only: vr)
  have ev: "eval E (apply_exp_adjust ?a decoded) = Some v
            \<longrightarrow> eval E stored = Some (v @ replicate (bit_count (?m AND NOT ?u)) (F 0))"
  proof
    assume "eval E (apply_exp_adjust ?a decoded) = Some v"
    then show "eval E stored = Some (v @ replicate (bit_count (?m AND NOT ?u)) (F 0))"
      unfolding pm [symmetric] by (rule eval_pad_missing)
  qed
  show ?thesis
    apply (rule exI [of _ decoded])
    apply (rule exI [of _ stored])
    apply (intro conjI)
        apply (rule d [unfolded nw_def])
       apply (rule stored_def)
      apply (rule pr)
     apply (rule ev)
    apply (rule requested_order)
    done
qed

theorem missing_components_padded_witness:
  "\<exists>stored.
     ProcessVertexFetchInstruction (example_fetch (example_attributes\<lparr>data_format := k_16_16\<rparr>) 15) =
       [UpdateInstructionPredication (is_predicated (example_fetch (example_attributes\<lparr>data_format := k_16_16\<rparr>) 15)) (predicate_condition (example_fetch (example_attributes\<lparr>data_format := k_16_16\<rparr>) 15)),
        EnsureBuildPointAvailable, StoreResult (result (example_fetch (example_attributes\<lparr>data_format := k_16_16\<rparr>) 15)) (Some stored)]
     \<and> eval (example_env 0xFFFF8001 0) stored = Some [F (65539 / 131072), F 1, F 0, F 0]"
proof -
  have n: "used_format_components (example_fetch (example_attributes\<lparr>data_format := k_16_16\<rparr>) 15) \<noteq> 0"
    by code_simp
  have m: "GetUsedResultComponents (result (example_fetch (example_attributes\<lparr>data_format := k_16_16\<rparr>) 15)) AND
           NOT (used_format_components (example_fetch (example_attributes\<lparr>data_format := k_16_16\<rparr>) 15)) \<noteq> 0"
    by code_simp
  have nw: "GetVertexFormatNeededWords (data_format (attributes (example_fetch (example_attributes\<lparr>data_format := k_16_16\<rparr>) 15)))
              (GetUsedResultComponents (result (example_fetch (example_attributes\<lparr>data_format := k_16_16\<rparr>) 15))) = 1"
    by code_simp
  have bc: "bit_count (GetUsedResultComponents (result (example_fetch (example_attributes\<lparr>data_format := k_16_16\<rparr>) 15)) AND
                       NOT (used_format_components (example_fetch (example_attributes\<lparr>data_format := k_16_16\<rparr>) 15))) = 2"
    by code_simp
  have ev: "eval (example_env 0xFFFF8001 0) (apply_exp_adjust (attributes (example_fetch (example_attributes\<lparr>data_format := k_16_16\<rparr>) 15)) (the (vfetch_convert (example_fetch (example_attributes\<lparr>data_format := k_16_16\<rparr>) 15) 1))) =
            Some [F (65539 / 131072), F 1]"
    by code_simp
  from missing_components_padded [OF n m, of "example_env 0xFFFF8001 0" "[F (65539 / 131072), F 1]"]
  obtain decoded stored
    where d: "vfetch_convert (example_fetch (example_attributes\<lparr>data_format := k_16_16\<rparr>) 15)
                (GetVertexFormatNeededWords (data_format (attributes (example_fetch (example_attributes\<lparr>data_format := k_16_16\<rparr>) 15)))
                   (GetUsedResultComponents (result (example_fetch (example_attributes\<lparr>data_format := k_16_16\<rparr>) 15)))) = Some decoded"
      and p: "ProcessVertexFetchInstruction (example_fetch (example_attributes\<lparr>data_format := k_16_16\<rparr>) 15) =
               [UpdateInstructionPredication (is_predicated (example_fetch (example_attributes\<lparr>data_format := k_16_16\<rparr>) 15)) (predicate_condition (example_fetch (example_attributes\<lparr>data_format := k_16_16\<rparr>) 15)),
                EnsureBuildPointAvailable, StoreResult (result (example_fetch (example_attributes\<lparr>data_format := k_16_16\<rparr>) 15)) (Some stored)]"
      and e: "eval (example_env 0xFFFF8001 0) (apply_exp_adjust (attributes (example_fetch (example_attributes\<lparr>data_format := k_16_16\<rparr>) 15)) decoded) = Some [F (65539 / 131072), F 1]
              \<longrightarrow> eval (example_env 0xFFFF8001 0) stored =
                    Some ([F (65539 / 131072), F 1] @ replicate
                                (bit_count (GetUsedResultComponents (result (example_fetch (example_attributes\<lparr>data_format := k_16_16\<rparr>) 15)) AND
                                            NOT (used_format_components (example_fetch (example_attributes\<lparr>data_format := k_16_16\<rparr>) 15)))) (F 0))"
    by blast
  from d have "decoded = the (vfetch_convert (example_fetch (example_attributes\<lparr>data_format := k_16_16\<rparr>) 15) 1)"
    by (simp only: nw option.sel)
  with ev have "eval (example_env 0xFFFF8001 0) (apply_exp_adjust (attributes (example_fetch (example_attributes\<lparr>data_format := k_16_16\<rparr>) 15)) decoded) = Some [F (65539 / 131072), F 1]"
    by (simp only:)
  with e have "eval (example_env 0xFFFF8001 0) stored =
               Some ([F (65539 / 131072), F 1] @ replicate
                           (bit_count (GetUsedResultComponents (result (example_fetch (example_attributes\<lparr>data_format := k_16_16\<rparr>) 15)) AND
                                       NOT (used_format_components (example_fetch (example_attributes\<lparr>data_format := k_16_16\<rparr>) 15)))) (F 0))"
    by blast
  then have "eval (example_env 0xFFFF8001 0) stored = Some [F (65539 / 131072), F 1, F 0, F 0]"
    unfolding bc by (simp add: numeral_2_eq_2)
  with p show ?thesis by blast
qed

end
